(* ===== verification/Prelude.thy ===== *)
theory Prelude
  imports Main "HOL-Library.Word"
begin

text \<open>
  What every component of the model shares: the machine types of the Go source, the
  two shapes in which its functions return errors (\<open>error\<close> alone, and a value or an
  error), the sequencing of checks with early return, and the \<open>for ... range\<close> loop
  with early return. Two locales state the contracts of the loops the validators are
  made of: a loop that refuses a repeated key, and the same loop with a byte budget.
\<close>

section \<open>Machine types\<close>

text \<open>
  Go's \<open>int64\<close>, \<open>uint64\<close> and (on the 64-bit platforms the products run on)
  \<open>int\<close> are 64-bit words. A signed value is read with \<^term>\<open>sint\<close>, an unsigned
  one with \<^term>\<open>unat\<close>. A Go string or byte slice is its list of bytes.
\<close>

type_synonym int64 = "64 word"
type_synonym uint64 = "64 word"
type_synonym goint = "64 word"
type_synonym bytes = string

abbreviation byte :: "char \<Rightarrow> nat" where
  "byte c \<equiv> of_char c"

abbreviation len :: "'a list \<Rightarrow> int" where
  "len xs \<equiv> int (length xs)"

text \<open>
  Where a nil slice means something else than an empty one, the slice is an option; for
  \<open>len\<close> and \<open>range\<close> both have no elements.
\<close>

definition slice_elements :: "'a list option \<Rightarrow> 'a list" where
  "slice_elements xs = (case xs of None \<Rightarrow> [] | Some ys \<Rightarrow> ys)"

lemma slice_elements_simps [simp]: "slice_elements None = []" "slice_elements (Some xs) = xs"
  by (simp_all add: slice_elements_def)

named_theorems wire_consts \<open>the published constants of the wire contract\<close>
named_theorems accepts \<open>a validator accepts exactly the values its specification admits\<close>

lemma sint64_bounds: "- (2 ^ 63) \<le> sint (x :: 64 word) \<and> sint x < 2 ^ 63"
  using sint_greater_eq [of x] sint_less [of x] by simp

lemma sint64_of_int: "- (2 ^ 63) \<le> i \<Longrightarrow> i < 2 ^ 63 \<Longrightarrow> sint (word_of_int i :: 64 word) = i"
  by (simp add: sint_sbintrunc' signed_take_bit_int_eq_self_iff signed_of_int)

lemma sint64_of_nonneg_int:
  "0 \<le> i \<Longrightarrow> i < 9223372036854775808 \<Longrightarrow> sint (word_of_int i :: 64 word) = i"
  by (rule sint64_of_int) simp_all

lemma sint64_eqI: "sint a = sint b \<Longrightarrow> a = (b :: 64 word)"
  by (rule signed_word_eqI) simp

lemma sint64_plus:
  "- (2 ^ 63) \<le> sint a + sint b \<Longrightarrow> sint a + sint b < 2 ^ 63 \<Longrightarrow>
    sint (a + b :: 64 word) = sint a + sint b"
  by (simp add: signed_take_bit_int_eq_self_iff sint_word_ariths(1))

lemma sint64_minus:
  "- (2 ^ 63) \<le> sint a - sint b \<Longrightarrow> sint a - sint b < 2 ^ 63 \<Longrightarrow>
    sint (a - b :: 64 word) = sint a - sint b"
  by (simp add: signed_take_bit_int_eq_self_iff sint_word_ariths(2))

lemma sint64_times:
  "- (2 ^ 63) \<le> sint a * sint b \<Longrightarrow> sint a * sint b < 2 ^ 63 \<Longrightarrow>
    sint (a * b :: 64 word) = sint a * sint b"
  by (simp add: signed_take_bit_int_eq_self_iff sint_word_ariths(3))

section \<open>Errors and early return\<close>

text \<open>
  A function that returns only an \<open>error\<close> is modelled with \<open>'e option\<close>, where
  \<^const>\<open>None\<close> is Go's \<open>nil\<close>; one that returns a value or an error with \<open>'e + 'a\<close>.
  A run of statements \<open>if bad { return err }\<close> is a list of checks, of which the
  first that fails is returned.
\<close>

definition check :: "bool \<Rightarrow> 'e \<Rightarrow> 'e option" where
  "check bad e = (if bad then Some e else None)"

fun first_error :: "'e option list \<Rightarrow> 'e option" where
  "first_error [] = None"
| "first_error (c # cs) = (case c of None \<Rightarrow> first_error cs | Some e \<Rightarrow> Some e)"

definition error_of :: "'e + 'a \<Rightarrow> 'e option" where
  "error_of r = (case r of Inl e \<Rightarrow> Some e | Inr _ \<Rightarrow> None)"

text \<open>The check of an optional part: absent parts pass.\<close>

definition when_some :: "'a option \<Rightarrow> ('a \<Rightarrow> 'e option) \<Rightarrow> 'e option" where
  "when_some x f = (case x of None \<Rightarrow> None | Some v \<Rightarrow> f v)"

definition wrap_error :: "('e \<Rightarrow> 'f) \<Rightarrow> 'e option \<Rightarrow> 'f option" where
  "wrap_error f r = map_option f r"

text \<open>A statement list that ends in a value, when none of its checks fails.\<close>

definition after_checks :: "'e option list \<Rightarrow> 'a \<Rightarrow> 'e + 'a" where
  "after_checks cs v = (case first_error cs of Some e \<Rightarrow> Inl e | None \<Rightarrow> Inr v)"

lemma after_checks_Inr [simp]: "after_checks cs v = Inr w \<longleftrightarrow> first_error cs = None \<and> w = v"
  by (auto simp: after_checks_def split: option.splits)

lemma after_checks_Inl [simp]: "after_checks cs v = Inl e \<longleftrightarrow> first_error cs = Some e"
  by (auto simp: after_checks_def split: option.splits)

lemma check_None [simp]: "check bad e = None \<longleftrightarrow> \<not> bad"
  by (simp add: check_def)

lemma check_Some [simp]: "check bad e = Some e' \<longleftrightarrow> bad \<and> e' = e"
  by (auto simp: check_def)

lemma check_Some_sym [simp]: "Some e' = check bad e \<longleftrightarrow> bad \<and> e' = e"
  by (auto simp: check_def)

lemma first_error_None_Cons [simp]:
  "first_error (c # cs) = None \<longleftrightarrow> c = None \<and> first_error cs = None"
  by (simp split: option.split)

lemma first_error_None: "first_error cs = None \<longleftrightarrow> (\<forall>c \<in> set cs. c = None)"
  by (induction cs) (auto split: option.split)

lemma first_error_in: "first_error cs = Some e \<Longrightarrow> Some e \<in> set cs"
  by (induction cs) (auto split: option.splits)

declare first_error.simps(2) [simp del]

lemma first_error_hit [simp]: "first_error (Some e # cs) = Some e"
  by (simp add: first_error.simps(2))

lemma first_error_skip [simp]: "first_error (None # cs) = first_error cs"
  by (simp add: first_error.simps(2))

lemma when_some_simps [simp]: "when_some None f = None" "when_some (Some v) f = f v"
  by (simp_all add: when_some_def)

lemma when_some_None: "when_some x f = None \<longleftrightarrow> (case x of None \<Rightarrow> True | Some v \<Rightarrow> f v = None)"
  by (cases x) simp_all

lemma error_of_simps [simp]: "error_of (Inl e) = Some e" "error_of (Inr x) = None"
  by (simp_all add: error_of_def)

lemma error_of_None: "error_of r = None \<longleftrightarrow> (\<exists>x. r = Inr x)"
  by (cases r) simp_all

lemma wrap_error_None [simp]: "wrap_error f r = None \<longleftrightarrow> r = None"
  by (simp add: wrap_error_def)

lemma wrap_error_of_None [simp]: "wrap_error f None = None"
  by simp

lemma wrap_error_Some [simp]: "wrap_error f (Some e) = Some (f e)"
  by (simp add: wrap_error_def)

section \<open>The range loop with early return\<close>

fun for_range :: "('s \<Rightarrow> 'a \<Rightarrow> 'e + 's) \<Rightarrow> 's \<Rightarrow> 'a list \<Rightarrow> 'e + 's" where
  "for_range step s [] = Inr s"
| "for_range step s (x # xs) =
     (case step s x of Inl e \<Rightarrow> Inl e | Inr s' \<Rightarrow> for_range step s' xs)"

text \<open>A loop whose body only checks the element, with nothing carried over.\<close>

fun for_each :: "('a \<Rightarrow> 'e option) \<Rightarrow> 'a list \<Rightarrow> 'e option" where
  "for_each f [] = None"
| "for_each f (x # xs) = (case f x of Some e \<Rightarrow> Some e | None \<Rightarrow> for_each f xs)"

lemma for_each_None: "for_each f xs = None \<longleftrightarrow> list_all (\<lambda>x. f x = None) xs"
  by (induction xs) (auto split: option.split)

lemma for_range_append:
  "for_range step s (xs @ ys) =
    (case for_range step s xs of Inl e \<Rightarrow> Inl e | Inr s' \<Rightarrow> for_range step s' ys)"
  by (induction xs arbitrary: s) (auto split: sum.split)

text \<open>An error of the loop is the error of its body at the first element that fails.\<close>

lemma for_range_errorD:
  "for_range step s xs = Inl e \<Longrightarrow>
    \<exists>ys x zs s'. xs = ys @ x # zs \<and> for_range step s ys = Inr s' \<and> step s' x = Inl e"
proof (induction xs arbitrary: s)
  case Nil
  then show ?case by simp
next
  case (Cons x xs)
  show ?case
  proof (cases "step s x")
    case (Inl d)
    with Cons.prems have "step s x = Inl e" by simp
    then show ?thesis by (intro exI [of _ "[]"] exI [of _ x] exI [of _ xs]) auto
  next
    case (Inr t)
    with Cons.prems Cons.IH [of t] obtain ys y zs s' where
      "xs = ys @ y # zs" "for_range step t ys = Inr s'" "step s' y = Inl e" by auto
    with Inr show ?thesis by (intro exI [of _ "x # ys"] exI [of _ y] exI [of _ zs]) auto
  qed
qed

lemma for_range_error:
  "for_range step s xs = Inl e \<longleftrightarrow>
    (\<exists>ys x zs s'. xs = ys @ x # zs \<and> for_range step s ys = Inr s' \<and> step s' x = Inl e)"
proof
  assume "for_range step s xs = Inl e"
  then show "\<exists>ys x zs s'. xs = ys @ x # zs \<and> for_range step s ys = Inr s' \<and> step s' x = Inl e"
    by (rule for_range_errorD)
qed (auto simp: for_range_append)

section \<open>The contract of a loop that refuses repeated keys\<close>

text \<open>
  Eleven loops of the validators share one shape: each element is checked, its key is
  looked up in a set of the keys seen so far, and added to it. The contract says when
  the body lets an element pass; what the whole loop accepts follows once and for all.
\<close>

locale dedup_loop =
  fixes step :: "'k set \<Rightarrow> 'a \<Rightarrow> 'e + 'k set"
    and key :: "'a \<Rightarrow> 'k"
    and ok :: "'a \<Rightarrow> bool"
  assumes step_accepts:
    "step seen x = Inr seen' \<longleftrightarrow> ok x \<and> key x \<notin> seen \<and> seen' = insert (key x) seen"
begin

lemma loop_accepts:
  "for_range step seen xs = Inr seen' \<longleftrightarrow>
    list_all ok xs \<and> distinct (map key xs) \<and> seen \<inter> key ` set xs = {} \<and>
    seen' = seen \<union> key ` set xs"
proof (induction xs arbitrary: seen)
  case Nil
  show ?case by auto
next
  case (Cons x xs)
  show ?case
  proof (cases "step seen x")
    case (Inl e)
    then have "\<not> (ok x \<and> key x \<notin> seen)" using step_accepts [of seen x] by auto
    with Inl show ?thesis by auto
  next
    case (Inr t)
    then have "ok x" "key x \<notin> seen" "t = insert (key x) seen"
      using step_accepts by blast+
    with Inr Cons.IH [of t] show ?thesis by auto
  qed
qed

lemma loop_passes:
  "error_of (for_range step {} xs) = None \<longleftrightarrow> list_all ok xs \<and> distinct (map key xs)"
  by (auto simp: error_of_None loop_accepts)

lemma loop_refuses_repeat:
  "\<not> distinct (map key xs) \<Longrightarrow> error_of (for_range step {} xs) \<noteq> None"
  using loop_passes by blast

end

text \<open>The same contract with a running total that must stay within a limit.\<close>

locale budget_loop =
  fixes step :: "'k set \<times> int \<Rightarrow> 'a \<Rightarrow> 'e + ('k set \<times> int)"
    and key :: "'a \<Rightarrow> 'k"
    and ok :: "'a \<Rightarrow> bool"
    and size_of :: "'a \<Rightarrow> int"
    and limit :: int
  assumes budget_step_accepts:
    "step (seen, used) x = Inr t \<longleftrightarrow>
      ok x \<and> size_of x \<le> limit - used \<and> key x \<notin> seen \<and>
      t = (insert (key x) seen, used + size_of x)"
    and size_nonneg: "0 \<le> size_of x"
begin

lemma sizes_nonneg: "0 \<le> sum_list (map size_of xs)"
  by (rule sum_list_nonneg) (auto simp: size_nonneg)

lemma budget_loop_accepts:
  "used \<le> limit \<Longrightarrow>
    (\<exists>t. for_range step (seen, used) xs = Inr t) \<longleftrightarrow>
      list_all ok xs \<and> distinct (map key xs) \<and> seen \<inter> key ` set xs = {} \<and>
      used + sum_list (map size_of xs) \<le> limit"
proof (induction xs arbitrary: seen used)
  case Nil
  then show ?case by simp
next
  case (Cons x xs)
  show ?case
  proof (cases "step (seen, used) x")
    case (Inl e)
    then have "\<not> (ok x \<and> size_of x \<le> limit - used \<and> key x \<notin> seen)"
      using budget_step_accepts [of seen used x] by auto
    with Inl sizes_nonneg [of xs] show ?thesis by auto
  next
    case (Inr t)
    then have *: "ok x" "size_of x \<le> limit - used" "key x \<notin> seen"
      "t = (insert (key x) seen, used + size_of x)"
      using budget_step_accepts by blast+
    then have "used + size_of x \<le> limit" by simp
    with Inr * Cons.IH [of "used + size_of x" "insert (key x) seen"] show ?thesis
      by (auto simp: add.assoc)
  qed
qed

lemma budget_loop_passes:
  "0 \<le> limit \<Longrightarrow>
    error_of (for_range step ({}, 0) xs) = None \<longleftrightarrow>
      list_all ok xs \<and> distinct (map key xs) \<and> sum_list (map size_of xs) \<le> limit"
  using budget_loop_accepts [of 0 "{}" xs] by (simp add: error_of_None)

end

end
