(* ===== verification/GoStrings.thy ===== *)
theory GoStrings
  imports Prelude
begin

text \<open>
  The parts of Go's standard library that the protocol package applies to strings:
  \<open>strconv.FormatInt\<close> and \<open>strconv.ParseInt\<close> in base 10, \<open>strings.CutPrefix\<close>,
  \<open>strings.TrimSpace\<close>, \<open>utf8.ValidString\<close> and \<open>encoding/hex\<close>. A string is its
  list of bytes, so lengths count bytes as \<open>len\<close> does. The lemmas are the round trips
  and characterisations the components rest on.
\<close>

section \<open>Decimal numerals (strconv)\<close>

definition is_digit :: "char \<Rightarrow> bool" where
  "is_digit c \<longleftrightarrow> 48 \<le> byte c \<and> byte c \<le> 57"

definition digit_char :: "nat \<Rightarrow> char" where
  "digit_char d = char_of (48 + d)"

definition digit_val :: "char \<Rightarrow> nat" where
  "digit_val c = byte c - 48"

fun format_nat :: "nat \<Rightarrow> string" where
  "format_nat n =
     (if n < 10 then [digit_char n] else format_nat (n div 10) @ [digit_char (n mod 10)])"

declare format_nat.simps [simp del]

lemma format_nat_unfold:
  "n < 10 \<Longrightarrow> format_nat n = [digit_char n]"
  "\<not> n < 10 \<Longrightarrow> format_nat n = format_nat (n div 10) @ [digit_char (n mod 10)]"
  by (subst format_nat.simps, simp)+

definition FormatInt :: "int \<Rightarrow> string" where
  "FormatInt i = (if i < 0 then CHR ''-'' # format_nat (nat (- i)) else format_nat (nat i))"

definition parse_nat :: "string \<Rightarrow> nat" where
  "parse_nat s = foldl (\<lambda>a c. a * 10 + digit_val c) 0 s"

text \<open>
  \<open>strconv.ParseInt(s, 10, 64)\<close>: an optional sign, then at least one digit and only
  digits, within the range of \<open>int64\<close>; anything else is an error, here \<^const>\<open>None\<close>.
\<close>

definition parse_digits :: "string \<Rightarrow> nat option" where
  "parse_digits s = (if s \<noteq> [] \<and> list_all is_digit s then Some (parse_nat s) else None)"

definition ParseInt :: "string \<Rightarrow> int64 option" where
  "ParseInt s =
     (case s of
        [] \<Rightarrow> None
      | c # cs \<Rightarrow>
          if c = CHR ''-'' then
            (case parse_digits cs of
               None \<Rightarrow> None
             | Some n \<Rightarrow> if n > 2 ^ 63 then None else Some (word_of_int (- int n)))
          else
            (case parse_digits (if c = CHR ''+'' then cs else s) of
               None \<Rightarrow> None
             | Some n \<Rightarrow> if n \<ge> 2 ^ 63 then None else Some (word_of_int (int n))))"

lemma byte_digit_char [simp]: "d < 10 \<Longrightarrow> byte (digit_char d) = 48 + d"
  by (simp add: digit_char_def)

lemma digit_val_digit_char [simp]: "d < 10 \<Longrightarrow> digit_val (digit_char d) = d"
  by (simp add: digit_val_def)

lemma is_digit_digit_char [simp]: "d < 10 \<Longrightarrow> is_digit (digit_char d)"
  by (simp add: is_digit_def)

lemma is_digit_not_sign: "is_digit c \<Longrightarrow> c \<noteq> CHR ''-'' \<and> c \<noteq> CHR ''+''"
  by (auto simp: is_digit_def)

lemma format_nat_digits: "list_all is_digit (format_nat n)"
proof (induction n rule: format_nat.induct)
  case (1 n)
  then show ?case by (subst format_nat.simps) simp
qed

lemma format_nat_nonempty [simp]: "format_nat n \<noteq> []"
  by (subst format_nat.simps) simp

lemma parse_nat_snoc: "parse_nat (s @ [c]) = parse_nat s * 10 + digit_val c"
  by (simp add: parse_nat_def)

lemma parse_nat_format_nat [simp]: "parse_nat (format_nat n) = n"
proof (induction n rule: format_nat.induct)
  case (1 n)
  show ?case
  proof (cases "n < 10")
    case True
    then show ?thesis by (subst format_nat.simps) (simp add: parse_nat_def)
  next
    case False
    with 1 have "parse_nat (format_nat (n div 10)) = n div 10" by simp
    with False show ?thesis
      by (subst format_nat.simps) (simp add: parse_nat_snoc)
  qed
qed

lemma parse_digits_format_nat [simp]: "parse_digits (format_nat n) = Some n"
  by (simp add: parse_digits_def format_nat_digits)

lemma format_nat_inject [simp]: "format_nat m = format_nat n \<longleftrightarrow> m = n"
  by (metis parse_nat_format_nat)

lemma format_nat_hd: "\<exists>c cs. format_nat n = c # cs \<and> is_digit c"
  using format_nat_digits [of n] format_nat_nonempty [of n] by (cases "format_nat n") auto

text \<open>Every \<open>int64\<close> is read back from the numeral it is printed as.\<close>

lemma ParseInt_FormatInt: "ParseInt (FormatInt (sint (n :: int64))) = Some n"
proof (cases "sint n < 0")
  case True
  have "nat (- sint n) \<le> 2 ^ 63" using sint64_bounds [of n] by (simp add: nat_le_iff)
  moreover have "word_of_int (- int (nat (- sint n))) = n" using True by simp
  ultimately show ?thesis using True by (simp add: FormatInt_def ParseInt_def)
next
  case False
  obtain c cs where f: "format_nat (nat (sint n)) = c # cs" and "is_digit c"
    using format_nat_hd by blast
  have "nat (sint n) < 2 ^ 63" using sint64_bounds [of n] False by (simp add: nat_less_iff)
  moreover have "word_of_int (int (nat (sint n))) = n" using False by simp
  moreover have "parse_digits (c # cs) = Some (nat (sint n))"
    using parse_digits_format_nat [of "nat (sint n)"] by (simp only: f)
  ultimately show ?thesis
    using False f is_digit_not_sign [OF \<open>is_digit c\<close>] by (simp add: FormatInt_def ParseInt_def)
qed

lemma FormatInt_inject [simp]: "FormatInt i = FormatInt j \<longleftrightarrow> i = j"
proof
  assume eq: "FormatInt i = FormatInt j"
  have sign: "format_nat n \<noteq> CHR ''-'' # format_nat m" for m n
    using format_nat_hd [of n] is_digit_not_sign by fastforce
  from eq show "i = j"
    by (auto simp: FormatInt_def sign sign [symmetric] nat_eq_iff split: if_splits)
qed simp

section \<open>Prefixes and white space (strings)\<close>

definition CutPrefix :: "string \<Rightarrow> string \<Rightarrow> string option" where
  "CutPrefix s p = (if take (length p) s = p then Some (drop (length p) s) else None)"

lemma CutPrefix_Some: "CutPrefix s p = Some r \<longleftrightarrow> s = p @ r"
  by (auto simp: CutPrefix_def) (metis append_take_drop_id)

lemma CutPrefix_append [simp]: "CutPrefix (p @ r) p = Some r"
  by (simp add: CutPrefix_Some)

text \<open>
  The UTF-8 encodings of the code points \<open>unicode.IsSpace\<close> accepts: the ASCII white
  space, then U+0085, U+00A0, U+1680, U+2000 to U+200A, U+2028, U+2029, U+202F, U+205F
  and U+3000. An encoding is recognised at an end of the string exactly where the rune
  decoder would read that rune, whether or not the rest is well-formed.
\<close>

definition space_codes :: "string list" where
  "space_codes = map (map char_of)
     ([[9], [10], [11], [12], [13], [32], [194, 133], [194, 160], [225, 154, 128]] @
      map (\<lambda>b. [226, 128, b]) [128, 129, 130, 131, 132, 133, 134, 135, 136, 137, 138, 168, 169, 175] @
      [[226, 129, 159], [227, 128, 128 :: nat]])"

lemma find_code_Some:
  "find (\<lambda>w. w \<noteq> [] \<and> take (length w) s = w) codes = Some w \<Longrightarrow>
    w \<in> set codes \<and> w \<noteq> [] \<and> s = w @ drop (length w) s"
  by (auto simp: find_Some_iff) (metis append_take_drop_id)

lemma find_code_shorter:
  "find (\<lambda>w. w \<noteq> [] \<and> take (length w) s = w) codes = Some w \<Longrightarrow> length (drop (length w) s) < length s"
  by (drule find_code_Some) (metis append_Nil length_append length_greater_0_conv less_add_same_cancel2)

function strip_codes :: "string list \<Rightarrow> string \<Rightarrow> string" where
  "strip_codes codes s =
     (case find (\<lambda>w. w \<noteq> [] \<and> take (length w) s = w) codes of
        None \<Rightarrow> s
      | Some w \<Rightarrow> strip_codes codes (drop (length w) s))"
  by pat_completeness auto
termination
  by (relation "measure (\<lambda>(codes, s). length s)") (simp_all only: in_measure prod.case wf_measure find_code_shorter)

declare strip_codes.simps [simp del]

definition TrimSpace :: "string \<Rightarrow> string" where
  "TrimSpace s = rev (strip_codes (map rev space_codes) (rev (strip_codes space_codes s)))"

lemma strip_codes_length: "length (strip_codes codes s) \<le> length s"
proof (induction codes s rule: strip_codes.induct)
  case (1 codes s)
  then show ?case
    by (subst strip_codes.simps) (fastforce split: option.split)
qed

lemma TrimSpace_empty [simp]: "TrimSpace [] = []"
  using strip_codes_length [of space_codes "[]"] strip_codes_length [of "map rev space_codes" "[]"]
  by (simp add: TrimSpace_def)

section \<open>Well-formed UTF-8 (unicode/utf8)\<close>

definition utf8_cont :: "char \<Rightarrow> bool" where
  "utf8_cont c \<longleftrightarrow> 128 \<le> byte c \<and> byte c \<le> 191"

text \<open>What remains after one encoded rune; the second byte's range depends on the first.\<close>

fun utf8_rest :: "string \<Rightarrow> string option" where
  "utf8_rest [] = None"
| "utf8_rest (a # s) =
     (if byte a < 128 then Some s
      else if 194 \<le> byte a \<and> byte a \<le> 223 then
        (case s of b # t \<Rightarrow> if utf8_cont b then Some t else None | _ \<Rightarrow> None)
      else if 224 \<le> byte a \<and> byte a \<le> 239 then
        (case s of
           b # c # t \<Rightarrow>
             if utf8_cont b \<and> utf8_cont c \<and> (byte a = 224 \<longrightarrow> 160 \<le> byte b) \<and>
               (byte a = 237 \<longrightarrow> byte b \<le> 159)
             then Some t else None
         | _ \<Rightarrow> None)
      else if 240 \<le> byte a \<and> byte a \<le> 244 then
        (case s of
           b # c # d # t \<Rightarrow>
             if utf8_cont b \<and> utf8_cont c \<and> utf8_cont d \<and> (byte a = 240 \<longrightarrow> 144 \<le> byte b) \<and>
               (byte a = 244 \<longrightarrow> byte b \<le> 143)
             then Some t else None
         | _ \<Rightarrow> None)
      else None)"

lemma utf8_rest_shorter: "utf8_rest s = Some t \<Longrightarrow> length t < length s"
  by (cases s) (auto split: if_splits list.splits)

function ValidString :: "string \<Rightarrow> bool" where
  "ValidString s = (s = [] \<or> (case utf8_rest s of None \<Rightarrow> False | Some t \<Rightarrow> ValidString t))"
  by pat_completeness auto
termination
  by (relation "measure length") (auto dest: utf8_rest_shorter)

declare ValidString.simps [simp del]

lemma ValidString_Nil [simp]: "ValidString []"
  by (simp add: ValidString.simps)

lemma ValidString_ascii_Cons [simp]: "byte c < 128 \<Longrightarrow> ValidString (c # s) = ValidString s"
  by (simp add: ValidString.simps [of "c # s"])

lemma ValidString_ascii: "list_all (\<lambda>c. byte c < 128) s \<Longrightarrow> ValidString s"
  by (induction s) simp_all

section \<open>Hexadecimal (encoding/hex)\<close>

definition hex_digit :: "nat \<Rightarrow> char" where
  "hex_digit d = (if d < 10 then char_of (48 + d) else char_of (87 + d))"

definition hex_val :: "char \<Rightarrow> nat option" where
  "hex_val c =
     (if 48 \<le> byte c \<and> byte c \<le> 57 then Some (byte c - 48)
      else if 97 \<le> byte c \<and> byte c \<le> 102 then Some (byte c - 87)
      else if 65 \<le> byte c \<and> byte c \<le> 70 then Some (byte c - 55)
      else None)"

fun DecodeString :: "string \<Rightarrow> bytes option" where
  "DecodeString [] = Some []"
| "DecodeString [_] = None"
| "DecodeString (a # b # s) =
     (case (hex_val a, hex_val b, DecodeString s) of
        (Some h, Some l, Some t) \<Rightarrow> Some (char_of (16 * h + l) # t)
      | _ \<Rightarrow> None)"

fun EncodeToString :: "bytes \<Rightarrow> string" where
  "EncodeToString [] = []"
| "EncodeToString (c # cs) =
     hex_digit (byte c div 16) # hex_digit (byte c mod 16) # EncodeToString cs"

definition lower_hex :: "char \<Rightarrow> bool" where
  "lower_hex c \<longleftrightarrow> 48 \<le> byte c \<and> byte c \<le> 57 \<or> 97 \<le> byte c \<and> byte c \<le> 102"

lemma hex_val_hex_digit [simp]: "d < 16 \<Longrightarrow> hex_val (hex_digit d) = Some d"
  by (auto simp: hex_val_def hex_digit_def)

lemma lower_hex_hex_digit [simp]: "d < 16 \<Longrightarrow> lower_hex (hex_digit d)"
  by (auto simp: lower_hex_def hex_digit_def)

lemma hex_val_less: "hex_val c = Some h \<Longrightarrow> h < 16"
  by (auto simp: hex_val_def split: if_splits)

lemma hex_digit_hex_val: "hex_val c = Some h \<Longrightarrow> hex_digit h = c \<longleftrightarrow> lower_hex c"
proof -
  assume v: "hex_val c = Some h"
  have "char_of (byte c) = c" by simp
  moreover have "hex_digit h = c \<Longrightarrow> lower_hex c" using v lower_hex_hex_digit hex_val_less by metis
  ultimately show ?thesis using v
    by (auto simp: hex_val_def hex_digit_def lower_hex_def split: if_splits)
qed

lemma lower_hex_val: "lower_hex c \<Longrightarrow> \<exists>h. hex_val c = Some h"
  by (auto simp: lower_hex_def hex_val_def)

lemma length_EncodeToString [simp]: "length (EncodeToString bs) = 2 * length bs"
  by (induction bs) simp_all

lemma EncodeToString_lower: "list_all lower_hex (EncodeToString bs)"
  by (induction bs) (simp_all add: less_mult_imp_div_less)

lemma DecodeString_EncodeToString [simp]: "DecodeString (EncodeToString bs) = Some bs"
  by (induction bs) (simp_all add: less_mult_imp_div_less)

lemma DecodeString_length: "DecodeString s = Some bs \<Longrightarrow> length s = 2 * length bs"
  by (induction s arbitrary: bs rule: DecodeString.induct) (auto split: option.splits)

text \<open>A digest that decodes is re-encoded as itself exactly when it is lowercase.\<close>

lemma EncodeToString_DecodeString:
  "DecodeString s = Some bs \<Longrightarrow> EncodeToString bs = s \<longleftrightarrow> list_all lower_hex s"
proof (induction s arbitrary: bs rule: DecodeString.induct)
  case (3 a b s)
  then obtain h l t where v: "hex_val a = Some h" "hex_val b = Some l" "DecodeString s = Some t"
    "bs = char_of (16 * h + l) # t" by (auto split: option.splits)
  moreover from v have "h < 16" "l < 16" by (auto dest: hex_val_less)
  then have "(16 * h + l) mod 256 = 16 * h + l" by simp
  ultimately show ?case
    using "3.IH" v(3) \<open>l < 16\<close> hex_digit_hex_val [OF v(1)] hex_digit_hex_val [OF v(2)]
    by (simp add: of_char_of)
qed auto

lemma DecodeString_lower:
  "list_all lower_hex s \<Longrightarrow> length s = 2 * n \<Longrightarrow> \<exists>bs. DecodeString s = Some bs \<and> length bs = n"
proof (induction s arbitrary: n rule: DecodeString.induct)
  case (3 a b s)
  from "3.prems" have "lower_hex a" "lower_hex b" by simp_all
  then obtain h l where "hex_val a = Some h" "hex_val b = Some l"
    using lower_hex_val by blast
  moreover have "length s = 2 * (n - 1)" using "3.prems"(2) by simp
  then obtain t where "DecodeString s = Some t" "length t = n - 1"
    using "3.IH" [of "n - 1"] "3.prems"(1) by auto
  ultimately show ?case using "3.prems"(2) by auto
qed auto

lemma canonical_hex:
  "(\<exists>bs. DecodeString s = Some bs \<and> length bs = n \<and> EncodeToString bs = s) \<longleftrightarrow>
    length s = 2 * n \<and> list_all lower_hex s"
  using DecodeString_lower [of s n] EncodeToString_DecodeString [of s] DecodeString_length [of s]
  by fastforce

section \<open>Bounded ASCII text\<close>

text \<open>
  The keys, codes and diagnostics the contract itself prints are ASCII of bounded length,
  which is how they meet the limits of the fields that carry them.
\<close>

definition ascii :: "string \<Rightarrow> bool" where
  "ascii s \<longleftrightarrow> list_all (\<lambda>c. byte c < 128) s"

lemma ascii_simps [simp]:
  "ascii []" "ascii (c # s) \<longleftrightarrow> byte c < 128 \<and> ascii s" "ascii (s @ t) \<longleftrightarrow> ascii s \<and> ascii t"
  by (simp_all add: ascii_def)

lemma ascii_ValidString: "ascii s \<Longrightarrow> ValidString s"
  by (simp add: ascii_def ValidString_ascii)

lemma ascii_format_nat [simp]: "ascii (format_nat n)"
  using format_nat_digits [of n] by (auto simp: ascii_def is_digit_def list_all_iff)

lemma ascii_FormatInt [simp]: "ascii (FormatInt i)"
  by (simp add: FormatInt_def)

lemma ascii_replicate [simp]: "ascii (replicate n c) \<longleftrightarrow> n = 0 \<or> byte c < 128"
  by (induction n) auto

lemma length_format_nat: "n < 10 ^ k \<Longrightarrow> length (format_nat n) \<le> max 1 k"
proof (induction n arbitrary: k rule: format_nat.induct)
  case (1 n)
  show ?case
  proof (cases "n < 10")
    case False
    with 1(2) obtain k' where k: "k = Suc k'" by (cases k) simp_all
    with False 1(2) have "n div 10 < 10 ^ k'" by (simp add: less_mult_imp_div_less)
    moreover have "k' \<noteq> 0" using False 1(2) k by (cases k') simp_all
    ultimately have "length (format_nat (n div 10)) \<le> k'"
      using 1(1) [OF False, of k'] by simp
    then show ?thesis using k False by (subst format_nat.simps) simp
  qed (subst format_nat.simps, simp)
qed

lemma length_format_word: "length (format_nat (unat (w :: uint64))) \<le> 20"
proof -
  have "unat w < 2 ^ 64" using unsigned_less [of w, where 'a = nat] by simp
  also have "\<dots> < (10 :: nat) ^ 20" by simp
  finally show ?thesis using length_format_nat [of _ 20] by simp
qed

lemma length_FormatInt: "length (FormatInt (sint (w :: int64))) \<le> 20"
proof -
  have "nat (- sint w) < 10 ^ 19" "nat (sint w) < 10 ^ 19"
    using sint64_bounds [of w] by (simp_all, arith+)
  then show ?thesis using length_format_nat [of "nat (- sint w)" 19] length_format_nat [of "nat (sint w)" 19]
    by (simp add: FormatInt_def)
qed

end
