(* ===== verification/Versions.thy ===== *)
theory Versions
  imports GoStrings
begin

text \<open>
  \<open>protocol/version.go\<close>: the \<open>Version\<close> pair that orders the states of one stream,
  the content \<open>ETag\<close>, and the judgement of convergence. \<open>Newer\<close> is the strict part
  of a linear order, which is installed as the type's \<open>linorder\<close>, so that the
  library's order reasoning applies to versions.
\<close>

section \<open>The version pair\<close>

record Version =
  Epoch :: uint64
  VersionNo :: uint64

type_synonym ETag = string

definition Newer :: "Version \<Rightarrow> Version \<Rightarrow> bool" where
  "Newer v other = (if Epoch v \<noteq> Epoch other then Epoch v > Epoch other
     else VersionNo v > VersionNo other)"

definition Zero :: "Version \<Rightarrow> bool" where
  "Zero v \<longleftrightarrow> Epoch v = 0 \<and> VersionNo v = 0"

definition Committed :: "Version \<Rightarrow> bool" where
  "Committed v \<longleftrightarrow> Epoch v > 0 \<and> VersionNo v > 0"

definition Version_String :: "Version \<Rightarrow> string" where
  "Version_String v = format_nat (unat (Epoch v)) @ '':'' @ format_nat (unat (VersionNo v))"

definition Converged :: "ETag \<Rightarrow> ETag \<Rightarrow> bool" where
  "Converged applied want \<longleftrightarrow> applied \<noteq> [] \<and> applied = want"

definition zero_version :: Version where
  "zero_version = \<lparr>Epoch = 0, VersionNo = 0\<rparr>"

section \<open>Versions are linearly ordered by Newer\<close>

instantiation Version_ext :: (linorder) linorder
begin

definition less_Version_ext :: "'a Version_scheme \<Rightarrow> 'a Version_scheme \<Rightarrow> bool" where
  "less_Version_ext v w \<longleftrightarrow>
     Epoch v < Epoch w \<or> Epoch v = Epoch w \<and>
       (VersionNo v < VersionNo w \<or> VersionNo v = VersionNo w \<and> Version.more v < Version.more w)"

definition less_eq_Version_ext :: "'a Version_scheme \<Rightarrow> 'a Version_scheme \<Rightarrow> bool" where
  "less_eq_Version_ext v w \<longleftrightarrow> v = w \<or> v < w"

instance
proof
  fix u v w :: "'a Version_scheme"
  show "(v < w) = (v \<le> w \<and> \<not> w \<le> v)"
    by (auto simp: less_eq_Version_ext_def less_Version_ext_def)
  show "v \<le> v" by (simp add: less_eq_Version_ext_def)
  show "u \<le> v \<Longrightarrow> v \<le> w \<Longrightarrow> u \<le> w"
    by (auto simp: less_eq_Version_ext_def less_Version_ext_def)
  show "v \<le> w \<Longrightarrow> w \<le> v \<Longrightarrow> v = w"
    by (auto simp: less_eq_Version_ext_def less_Version_ext_def)
  show "v \<le> w \<or> w \<le> v"
    by (cases v; cases w) (auto simp: less_eq_Version_ext_def less_Version_ext_def)
qed

end

lemma Newer_less: "Newer v w \<longleftrightarrow> w < v"
  by (auto simp: Newer_def less_Version_ext_def)

lemma Newer_irrefl [simp]: "\<not> Newer v v"
  by (simp add: Newer_less)

lemma Newer_trans: "Newer u v \<Longrightarrow> Newer v w \<Longrightarrow> Newer u w"
  by (auto simp: Newer_less)

lemma Newer_asym: "Newer v w \<Longrightarrow> \<not> Newer w v"
  by (auto simp: Newer_less)

lemma Newer_linear: "Newer v w \<or> v = w \<or> Newer w v"
  by (auto simp: Newer_less)

lemma Committed_iff: "Committed v \<longleftrightarrow> Epoch v \<noteq> 0 \<and> VersionNo v \<noteq> 0"
  by (simp add: Committed_def word_neq_0_conv)

lemma Committed_not_Zero: "Committed v \<Longrightarrow> \<not> Zero v"
  by (auto simp: Committed_iff Zero_def)

lemma Zero_iff: "Zero v \<longleftrightarrow> v = zero_version"
  by (cases v) (simp add: Zero_def zero_version_def)

text \<open>A committed version is newer than the unset one, never older.\<close>

lemma Committed_Newer_zero: "Committed v \<Longrightarrow> Newer v zero_version"
  by (auto simp: Committed_iff Newer_def zero_version_def word_neq_0_conv)

text \<open>A rebuilt document row starts a higher epoch, and that always leads.\<close>

lemma higher_epoch_Newer: "Epoch w < Epoch v \<Longrightarrow> Newer v w"
  by (auto simp: Newer_def)

text \<open>The printed form of a version determines it.\<close>

lemma digits_colon_split:
  "list_all is_digit a \<Longrightarrow> list_all is_digit c \<Longrightarrow>
    a @ CHR '':'' # b = c @ CHR '':'' # d \<longleftrightarrow> a = c \<and> b = d"
proof (induction a arbitrary: c)
  case Nil
  then show ?case by (cases c) (auto simp: is_digit_def)
next
  case (Cons x a)
  then show ?case by (cases c) (auto simp: is_digit_def)
qed

lemma Version_String_inject: "Version_String v = Version_String w \<longleftrightarrow> v = w"
  by (cases v; cases w)
    (auto simp: Version_String_def digits_colon_split format_nat_digits unsigned_word_eqI)

section \<open>Properties\<close>

text \<open>
  \<open>Version.Newer\<close> is a strict linear order on version pairs: it is irreflexive and
  transitive, of two different versions exactly one is newer, and a version of a higher
  epoch is newer whatever the two counters are, which is the way back after a restore.
\<close>

theorem Newer_strict_linear_order:
  "\<not> Newer v v \<and>
   (Newer u v \<and> Newer v w \<longrightarrow> Newer u w) \<and>
   (v \<noteq> w \<longleftrightarrow> Newer v w \<noteq> Newer w v) \<and>
   (Epoch w < Epoch v \<longrightarrow> Newer v w)"
proof (intro conjI impI)
  show "v \<noteq> w \<longleftrightarrow> Newer v w \<noteq> Newer w v"
    using Newer_linear [of v w] Newer_asym [of v w] Newer_irrefl by blast
qed (auto intro: Newer_trans higher_epoch_Newer)

theorem Newer_strict_linear_order_witness:
  "Newer \<lparr>Epoch = 3, VersionNo = 1\<rparr> \<lparr>Epoch = 1, VersionNo = 412\<rparr>"
proof -
  let ?v = "\<lparr>Epoch = 3, VersionNo = 1\<rparr>" and ?u = "\<lparr>Epoch = 2, VersionNo = 7\<rparr>"
    and ?w = "\<lparr>Epoch = 1, VersionNo = 412\<rparr>"
  have "Newer ?v ?u \<and> Newer ?u ?w" by (simp add: Newer_def)
  then show ?thesis using Newer_strict_linear_order [of ?u ?v ?w] by blast
qed

end
