(* ===== verification/Keys.thy ===== *)
theory Keys
  imports GoStrings
begin

text \<open>
  \<open>protocol/keys.go\<close>: the three kinds of row-id keys. They are distinct types, as in
  the source; minting prints the row id behind the kind's prefix, and \<open>RowID\<close>
  recovers it or reports a key PSP never minted. The locale \<open>key_space\<close> is the contract
  of a key kind; it is interpreted for listeners, clients and subjects.
\<close>

section \<open>Keys and their row ids\<close>

datatype ListenerKey = ListenerKey (listener_key_string: string)
datatype ClientKey = ClientKey (client_key_string: string)
datatype SubjectKey = SubjectKey (subject_key_string: string)

definition listenerKeyPrefix :: string where "listenerKeyPrefix = ''lst_''"
definition clientKeyPrefix :: string where "clientKeyPrefix = ''cli_''"
definition subjectKeyPrefix :: string where "subjectKeyPrefix = ''usr_''"

definition NewListenerKey :: "int64 \<Rightarrow> ListenerKey" where
  "NewListenerKey nodeID = ListenerKey (listenerKeyPrefix @ FormatInt (sint nodeID))"

definition NewClientKey :: "int64 \<Rightarrow> ClientKey" where
  "NewClientKey clientID = ClientKey (clientKeyPrefix @ FormatInt (sint clientID))"

definition NewSubjectKey :: "int64 \<Rightarrow> SubjectKey" where
  "NewSubjectKey userID = SubjectKey (subjectKeyPrefix @ FormatInt (sint userID))"

text \<open>The two errors carry the kind, the key and what was wanted or found.\<close>

datatype key_error =
    WantPrefix string string string
  | NotCanonicalRowID string string string

definition parseOrZero :: "string \<Rightarrow> int64" where
  "parseOrZero s = (case ParseInt s of None \<Rightarrow> 0 | Some n \<Rightarrow> n)"

definition rowID :: "string \<Rightarrow> string \<Rightarrow> string \<Rightarrow> key_error + int64" where
  "rowID s p kind =
     (case CutPrefix s p of
        None \<Rightarrow> Inl (WantPrefix kind s p)
      | Some rest \<Rightarrow>
          let n = parseOrZero rest in
          if sint n \<le> 0 \<or> rest \<noteq> FormatInt (sint n)
          then Inl (NotCanonicalRowID kind s rest)
          else Inr n)"

definition ListenerKey_RowID :: "ListenerKey \<Rightarrow> key_error + int64" where
  "ListenerKey_RowID k = rowID (listener_key_string k) listenerKeyPrefix ''listener''"

definition ClientKey_RowID :: "ClientKey \<Rightarrow> key_error + int64" where
  "ClientKey_RowID k = rowID (client_key_string k) clientKeyPrefix ''client''"

definition SubjectKey_RowID :: "SubjectKey \<Rightarrow> key_error + int64" where
  "SubjectKey_RowID k = rowID (subject_key_string k) subjectKeyPrefix ''subject''"

lemma rowID_Inr: "rowID s p kind = Inr n \<longleftrightarrow> 0 < sint n \<and> s = p @ FormatInt (sint n)"
proof (cases "CutPrefix s p")
  case None
  then have "s \<noteq> p @ r" for r using CutPrefix_Some [of s p r] by simp
  with None show ?thesis by (simp add: rowID_def)
next
  case (Some rest)
  then have "s = p @ rest" by (simp add: CutPrefix_Some)
  then show ?thesis using Some
    by (auto simp: rowID_def Let_def parseOrZero_def ParseInt_FormatInt)
qed

section \<open>The contract of a key kind\<close>

locale key_space =
  fixes mint :: "int64 \<Rightarrow> 'k"
    and row_id :: "'k \<Rightarrow> 'e + int64"
  assumes row_id_Inr: "row_id k = Inr n \<longleftrightarrow> 0 < sint n \<and> k = mint n"
begin

lemma row_id_mint: "0 < sint n \<Longrightarrow> row_id (mint n) = Inr n"
  by (simp add: row_id_Inr)

lemma one_identity: "row_id k = Inr n \<Longrightarrow> row_id k' = Inr n \<Longrightarrow> k = k'"
  by (simp add: row_id_Inr)

lemma valid_iff_minted: "error_of (row_id k) = None \<longleftrightarrow> (\<exists>n. 0 < sint n \<and> k = mint n)"
  by (auto simp: error_of_None row_id_Inr)

lemma never_nonpositive: "row_id k = Inr n \<Longrightarrow> 0 < sint n"
  by (simp add: row_id_Inr)

end

interpretation listener_keys: key_space NewListenerKey ListenerKey_RowID
  by unfold_locales (auto simp: ListenerKey_RowID_def NewListenerKey_def rowID_Inr listenerKeyPrefix_def ListenerKey.expand)

interpretation client_keys: key_space NewClientKey ClientKey_RowID
  by unfold_locales (auto simp: ClientKey_RowID_def NewClientKey_def rowID_Inr clientKeyPrefix_def ClientKey.expand)

interpretation subject_keys: key_space NewSubjectKey SubjectKey_RowID
  by unfold_locales (auto simp: SubjectKey_RowID_def NewSubjectKey_def rowID_Inr subjectKeyPrefix_def SubjectKey.expand)

text \<open>Whether a key names a row at all: what a validator asks of a key it is sent.\<close>

definition listener_key_ok :: "ListenerKey \<Rightarrow> bool" where
  "listener_key_ok k \<longleftrightarrow> error_of (ListenerKey_RowID k) = None"

definition client_key_ok :: "ClientKey \<Rightarrow> bool" where
  "client_key_ok k \<longleftrightarrow> error_of (ClientKey_RowID k) = None"

definition subject_key_ok :: "SubjectKey \<Rightarrow> bool" where
  "subject_key_ok k \<longleftrightarrow> error_of (SubjectKey_RowID k) = None"

lemma minted_keys_ok:
  "0 < sint n \<Longrightarrow> listener_key_ok (NewListenerKey n)"
  "0 < sint n \<Longrightarrow> client_key_ok (NewClientKey n)"
  "0 < sint n \<Longrightarrow> subject_key_ok (NewSubjectKey n)"
  by (auto simp: listener_key_ok_def client_key_ok_def subject_key_ok_def
      listener_keys.valid_iff_minted client_keys.valid_iff_minted subject_keys.valid_iff_minted)

lemmas key_prefixes = listenerKeyPrefix_def clientKeyPrefix_def subjectKeyPrefix_def

text \<open>A key string is accepted when it is the kind's prefix and a positive numeral.\<close>

lemma key_ok_iff:
  "listener_key_ok (ListenerKey s) \<longleftrightarrow>
    (\<exists>n :: int64. 0 < sint n \<and> s = listenerKeyPrefix @ FormatInt (sint n))"
  "client_key_ok (ClientKey s) \<longleftrightarrow>
    (\<exists>n :: int64. 0 < sint n \<and> s = clientKeyPrefix @ FormatInt (sint n))"
  "subject_key_ok (SubjectKey s) \<longleftrightarrow>
    (\<exists>n :: int64. 0 < sint n \<and> s = subjectKeyPrefix @ FormatInt (sint n))"
  by (auto simp: listener_key_ok_def client_key_ok_def subject_key_ok_def error_of_None
      ListenerKey_RowID_def ClientKey_RowID_def SubjectKey_RowID_def rowID_Inr)

lemma key_kinds_apart:
  "\<not> (listener_key_ok (ListenerKey s) \<and> client_key_ok (ClientKey s))"
  "\<not> (listener_key_ok (ListenerKey s) \<and> subject_key_ok (SubjectKey s))"
  "\<not> (client_key_ok (ClientKey s) \<and> subject_key_ok (SubjectKey s))"
  by (auto simp: key_ok_iff key_prefixes)

section \<open>Properties\<close>

text \<open>
  C23. The mapping between row ids and keys is one to one: \<open>RowID\<close> accepts a key and
  returns \<open>n\<close> exactly when \<open>n\<close> is positive and the key is the one minted from \<open>n\<close>,
  for each of the three kinds. So no other spelling (sign, zero padding, overflow) of a
  row id is a second identity of the same object.
\<close>

theorem RowID_one_to_one:
  "(ListenerKey_RowID lk = Inr n \<longleftrightarrow> 0 < sint n \<and> lk = NewListenerKey n) \<and>
   (ClientKey_RowID ck = Inr n \<longleftrightarrow> 0 < sint n \<and> ck = NewClientKey n) \<and>
   (SubjectKey_RowID sk = Inr n \<longleftrightarrow> 0 < sint n \<and> sk = NewSubjectKey n)"
  by (simp only: listener_keys.row_id_Inr client_keys.row_id_Inr subject_keys.row_id_Inr)

text \<open>
  No string is a valid key of two kinds: a string that \<open>RowID\<close> accepts as a listener
  key is refused as a client and as a subject key, and a client key is no subject key.
\<close>

theorem key_kinds_disjoint:
  "\<not> (listener_key_ok (ListenerKey s) \<and> client_key_ok (ClientKey s)) \<and>
   \<not> (listener_key_ok (ListenerKey s) \<and> subject_key_ok (SubjectKey s)) \<and>
   \<not> (client_key_ok (ClientKey s) \<and> subject_key_ok (SubjectKey s))"
  using key_kinds_apart [of s] by simp

end
