(* ===== verification/Segments.thy ===== *)
theory Segments
  imports Versions Keys
begin

text \<open>
  \<open>protocol/segments.go\<close>: the three streams and the bodies they deliver. A Go pointer
  that may be \<open>nil\<close> is an option; a byte slice or string is its bytes. The one operation
  is \<open>QuotaEntry.RefreshDue\<close>, the pre-authorised rollover of a quota period.
\<close>

section \<open>Streams and bodies\<close>

definition StreamConfig :: string where "StreamConfig = ''config''"
definition StreamRoster :: string where "StreamRoster = ''roster''"
definition StreamDirectives :: string where "StreamDirectives = ''directives''"

lemmas stream_names = StreamConfig_def StreamRoster_def StreamDirectives_def

definition validStream :: "string \<Rightarrow> bool" where
  "validStream stream \<longleftrightarrow> stream = StreamConfig \<or> stream = StreamRoster \<or> stream = StreamDirectives"

record 'a Segment =
  seg_Unchanged :: bool
  seg_Version :: Version
  seg_ETag :: ETag
  seg_Body :: "'a option"

record CoreSelection =
  cs_Engine :: string
  cs_Version :: string
  cs_AllowRestrictedReality :: bool

type_synonym RawConfig = bytes

record Listener =
  l_Key :: ListenerKey
  l_Config :: RawConfig

record SegmentCounts =
  sc_Entries :: goint
  sc_EntriesStale :: goint
  sc_Subjects :: goint

record ConfigBody =
  cb_Listeners :: "Listener list"
  cb_Coverage :: SegmentCounts
  cb_Core :: CoreSelection

record Credential =
  cr_Username :: string
  cr_UUID :: string
  cr_Password :: string
  cr_Flow :: string

record Client =
  c_Key :: ClientKey
  c_Subject :: SubjectKey
  c_Listeners :: "ListenerKey list"
  c_Enabled :: bool
  c_ExpiresAtMS :: int64
  c_Credentials :: Credential

record RosterBody =
  rb_Clients :: "Client list"
  rb_MinConfigVersion :: Version
  rb_Coverage :: SegmentCounts

record QuotaEntry =
  q_Client :: ClientKey
  q_BaselineBytes :: int64
  q_HeadroomBytes :: "int64 option"
  q_PeriodEndsAtMS :: int64
  q_NextPeriodHeadroomBytes :: "int64 option"

record IPShadowEntry =
  ip_Subject :: SubjectKey
  ip_IPLimit :: goint

record DirectivesBody =
  db_ForRosterVersion :: Version
  db_Quota :: "QuotaEntry list"
  db_IPShadow :: "IPShadowEntry list"
  db_Coverage :: SegmentCounts

section \<open>The scheduled refresh\<close>

definition RefreshDue :: "QuotaEntry \<Rightarrow> int64 \<Rightarrow> bool" where
  "RefreshDue q nowMS =
     (if sint (q_PeriodEndsAtMS q) \<le> 0 \<or> q_NextPeriodHeadroomBytes q = None then False
      else sint nowMS \<ge> sint (q_PeriodEndsAtMS q))"

text \<open>A schedule is both halves: a deadline and a grant, and a grant of zero is a grant.\<close>

definition schedule_of :: "QuotaEntry \<Rightarrow> (int \<times> int64) option" where
  "schedule_of q =
     (case q_NextPeriodHeadroomBytes q of
        Some grant \<Rightarrow> if 0 < sint (q_PeriodEndsAtMS q)
          then Some (sint (q_PeriodEndsAtMS q), grant) else None
      | None \<Rightarrow> None)"

lemma RefreshDue_schedule:
  "RefreshDue q now \<longleftrightarrow> (case schedule_of q of Some (deadline, _) \<Rightarrow> deadline \<le> sint now | None \<Rightarrow> False)"
  by (auto simp: RefreshDue_def schedule_of_def split: option.splits)

section \<open>Properties\<close>

text \<open>
  C33. The scheduled refresh denies rather than grants: without a schedule (a positive
  deadline and a grant, zero included) it never takes effect at any time; with one it
  takes effect exactly from the deadline on, so it is never early and never revoked by a
  later clock.
\<close>

theorem RefreshDue_exactly_from_deadline:
  "(schedule_of q = None \<longleftrightarrow> (\<forall>now. \<not> RefreshDue q now)) \<and>
   (\<forall>deadline grant. schedule_of q = Some (deadline, grant) \<longrightarrow>
      0 < deadline \<and> (\<forall>now. RefreshDue q now \<longleftrightarrow> deadline \<le> sint now))"
proof (cases "schedule_of q")
  case None
  then show ?thesis by (simp add: RefreshDue_schedule)
next
  case (Some s)
  then obtain grant where s: "s = (sint (q_PeriodEndsAtMS q), grant)" "0 < sint (q_PeriodEndsAtMS q)"
    by (auto simp: schedule_of_def split: option.splits if_splits)
  then have "RefreshDue q (q_PeriodEndsAtMS q)" using Some by (simp add: RefreshDue_schedule)
  with Some s show ?thesis by (auto simp: RefreshDue_schedule)
qed

theorem RefreshDue_exactly_from_deadline_witness:
  "let q = \<lparr>q_Client = NewClientKey 1, q_BaselineBytes = 0, q_HeadroomBytes = Some 0,
     q_PeriodEndsAtMS = 100, q_NextPeriodHeadroomBytes = Some 0\<rparr>
   in RefreshDue q 100 \<and> \<not> RefreshDue q 99"
proof -
  let ?q = "\<lparr>q_Client = NewClientKey 1, q_BaselineBytes = 0, q_HeadroomBytes = Some 0,
     q_PeriodEndsAtMS = 100, q_NextPeriodHeadroomBytes = Some (0 :: int64)\<rparr>"
  have "schedule_of ?q = Some (100, 0)" by (simp add: schedule_of_def)
  then have "\<forall>now. RefreshDue ?q now \<longleftrightarrow> 100 \<le> sint now"
    using RefreshDue_exactly_from_deadline [of ?q] by blast
  then show ?thesis by simp
qed

end
