(* ===== verification/Limits.thy ===== *)
theory Limits
  imports Prelude
begin

text \<open>
  \<open>protocol/limits.go\<close> and the bounds declared beside the types in \<open>report.go\<close>,
  \<open>diagnostics.go\<close> and \<open>validate.go\<close>: the numbers both peers enforce. Bounds on
  lengths are natural numbers, bounds on values are integers. All of them are in the
  collection \<open>wire_consts\<close>.
\<close>

definition MaxSyncBodyBytes :: int where [wire_consts]: "MaxSyncBodyBytes = 16 * 2 ^ 20"
definition MinNodeCredentialBytes :: nat where [wire_consts]: "MinNodeCredentialBytes = 32"
definition MaxNodeCredentialBytes :: nat where [wire_consts]: "MaxNodeCredentialBytes = 256"

definition DefaultNextPollSeconds :: int where [wire_consts]: "DefaultNextPollSeconds = 30"
definition DefaultFullReportSeconds :: int where [wire_consts]: "DefaultFullReportSeconds = 60"
definition MaxNextPollSeconds :: int where [wire_consts]: "MaxNextPollSeconds = 3600"
definition MaxFullReportSeconds :: int where [wire_consts]: "MaxFullReportSeconds = 86400"

definition MaxCapabilitiesPerReport :: nat where [wire_consts]: "MaxCapabilitiesPerReport = 64"
definition MaxCapabilityBytes :: nat where [wire_consts]: "MaxCapabilityBytes = 128"
definition MaxTasksPerResponse :: nat where [wire_consts]: "MaxTasksPerResponse = 64"
definition MaxTaskResultsPerReport :: nat where [wire_consts]: "MaxTaskResultsPerReport = 256"
definition MaxTaskIDBytes :: nat where [wire_consts]: "MaxTaskIDBytes = 128"
definition MaxTaskKindBytes :: nat where [wire_consts]: "MaxTaskKindBytes = 96"
definition MaxTaskArgsBytes :: int where [wire_consts]: "MaxTaskArgsBytes = 2 ^ 20"
definition MaxTaskResultBytes :: int where [wire_consts]: "MaxTaskResultBytes = 2 ^ 20"
definition MaxTaskArgsBytesPerResponse :: int where
  [wire_consts]: "MaxTaskArgsBytesPerResponse = 4 * 2 ^ 20"
definition MaxTaskResultBytesPerReport :: int where
  [wire_consts]: "MaxTaskResultBytesPerReport = 4 * 2 ^ 20"
definition MaxTaskErrorCodeBytes :: nat where [wire_consts]: "MaxTaskErrorCodeBytes = 128"
definition MaxTaskErrorBytes :: nat where [wire_consts]: "MaxTaskErrorBytes = 4096"

definition DefaultHostReportSeconds :: int where [wire_consts]: "DefaultHostReportSeconds = 60"
definition MinHostReportSeconds :: int where [wire_consts]: "MinHostReportSeconds = 5"
definition MaxHostReportSeconds :: int where [wire_consts]: "MaxHostReportSeconds = 3600"

definition MaxHostObservationBytes :: nat where
  [wire_consts]: "MaxHostObservationBytes = 128 * 2 ^ 10"
definition MaxNetworkInterfaces :: nat where [wire_consts]: "MaxNetworkInterfaces = 32"
definition MaxInterfaceNameBytes :: nat where [wire_consts]: "MaxInterfaceNameBytes = 64"
definition MaxCongestionControls :: nat where [wire_consts]: "MaxCongestionControls = 32"
definition MaxCongestionControlBytes :: nat where [wire_consts]: "MaxCongestionControlBytes = 32"
definition MaxUnavailableTokens :: nat where [wire_consts]: "MaxUnavailableTokens = 32"
definition MaxUnavailableTokenBytes :: nat where [wire_consts]: "MaxUnavailableTokenBytes = 64"
definition MaxCounterEpochBytes :: nat where [wire_consts]: "MaxCounterEpochBytes = 128"
definition MaxBootIDBytes :: nat where [wire_consts]: "MaxBootIDBytes = 64"
definition MaxPlatformFieldBytes :: nat where [wire_consts]: "MaxPlatformFieldBytes = 32"
definition MaxKernelReleaseBytes :: nat where [wire_consts]: "MaxKernelReleaseBytes = 128"
definition MaxInterfaceMTU :: int where [wire_consts]: "MaxInterfaceMTU = 1048576"
definition MaxLinkSpeedMbps :: nat where [wire_consts]: "MaxLinkSpeedMbps = 100000000"
definition MinLogicalCPUs :: int where [wire_consts]: "MinLogicalCPUs = 1"
definition MaxLogicalCPUs :: int where [wire_consts]: "MaxLogicalCPUs = 4096"
definition SampleIDBytes :: nat where [wire_consts]: "SampleIDBytes = 32"

definition MaxIssuesPerReport :: nat where [wire_consts]: "MaxIssuesPerReport = 256"
definition MaxIssueCodeBytes :: nat where [wire_consts]: "MaxIssueCodeBytes = 128"
definition MaxIssueKeyBytes :: nat where [wire_consts]: "MaxIssueKeyBytes = 512"
definition MaxIssueDetailBytes :: nat where [wire_consts]: "MaxIssueDetailBytes = 4096"

definition maxUnixMilli :: int where [wire_consts]: "maxUnixMilli = 253402300799999"
definition sha256DigestBytes :: nat where [wire_consts]: "sha256DigestBytes = 32"
definition MaxInt64 :: nat where [wire_consts]: "MaxInt64 = 2 ^ 63 - 1"

definition ProtocolVersion1 :: int where [wire_consts]: "ProtocolVersion1 = 1"

end
