(* ===== verification/Scalars.thy ===== *)
theory Scalars
  imports GoStrings Limits
begin

text \<open>
  The scalar checks at the end of \<open>protocol/validate.go\<close>: task ids, tokens, sample ids,
  digests, bounded text, enumerations, counters and floating-point metrics. Each check is
  the source's loop or guard; the lemmas in the collection \<open>accepts\<close> say in one line
  what it admits.
\<close>

section \<open>Tokens and identifiers\<close>

definition asciiLowerAlphaNumeric :: "char \<Rightarrow> bool" where
  "asciiLowerAlphaNumeric c \<longleftrightarrow>
     byte CHR ''a'' \<le> byte c \<and> byte c \<le> byte CHR ''z'' \<or>
     byte CHR ''0'' \<le> byte c \<and> byte c \<le> byte CHR ''9''"

text \<open>The loop of \<open>validTaskID\<close>, with the index of the byte it looks at.\<close>

fun validTaskID_from :: "nat \<Rightarrow> string \<Rightarrow> bool" where
  "validTaskID_from index [] = True"
| "validTaskID_from index (c # cs) =
     (if asciiLowerAlphaNumeric c then validTaskID_from (Suc index) cs
      else if index > 0 \<and> (c = CHR ''_'' \<or> c = CHR ''-'' \<or> c = CHR ''.'' \<or> c = CHR '':'')
        then validTaskID_from (Suc index) cs
      else False)"

definition validTaskID :: "string \<Rightarrow> bool" where
  "validTaskID value = (if value = [] then False else validTaskID_from 0 value)"

fun validToken_from :: "string \<Rightarrow> bool" where
  "validToken_from [] = True"
| "validToken_from (c # cs) =
     (if byte CHR ''a'' \<le> byte c \<and> byte c \<le> byte CHR ''z'' \<or>
         byte CHR ''0'' \<le> byte c \<and> byte c \<le> byte CHR ''9'' \<or>
         c = CHR ''_'' \<or> c = CHR ''-'' \<or> c = CHR ''.''
      then validToken_from cs else False)"

fun validToken :: "string \<Rightarrow> bool" where
  "validToken [] = False"
| "validToken (c # cs) =
     (if byte c < byte CHR ''a'' \<or> byte c > byte CHR ''z'' then False else validToken_from cs)"

fun validSampleID_from :: "string \<Rightarrow> bool" where
  "validSampleID_from [] = True"
| "validSampleID_from (c # cs) =
     (if byte CHR ''0'' \<le> byte c \<and> byte c \<le> byte CHR ''9'' \<or>
         byte CHR ''a'' \<le> byte c \<and> byte c \<le> byte CHR ''f''
      then validSampleID_from cs else False)"

definition validSampleID :: "string \<Rightarrow> bool" where
  "validSampleID value = (if length value \<noteq> SampleIDBytes then False else validSampleID_from value)"

text \<open>What the three loops decide, as sets of bytes.\<close>

definition lower_alpha :: "char \<Rightarrow> bool" where
  "lower_alpha c \<longleftrightarrow> 97 \<le> byte c \<and> byte c \<le> 122"

definition token_tail :: "char \<Rightarrow> bool" where
  "token_tail c \<longleftrightarrow> lower_alpha c \<or> is_digit c \<or> c \<in> {CHR ''_'', CHR ''-'', CHR ''.''}"

definition canonical_token :: "string \<Rightarrow> bool" where
  "canonical_token s \<longleftrightarrow> s \<noteq> [] \<and> lower_alpha (hd s) \<and> list_all token_tail s"

definition canonical_task_id :: "string \<Rightarrow> bool" where
  "canonical_task_id s \<longleftrightarrow>
     s \<noteq> [] \<and> (lower_alpha (hd s) \<or> is_digit (hd s)) \<and>
     list_all (\<lambda>c. token_tail c \<or> c = CHR '':'') s"

lemma asciiLowerAlphaNumeric_iff: "asciiLowerAlphaNumeric c \<longleftrightarrow> lower_alpha c \<or> is_digit c"
  by (simp add: asciiLowerAlphaNumeric_def lower_alpha_def is_digit_def)

lemma validToken_from_iff: "validToken_from s \<longleftrightarrow> list_all token_tail s"
  by (induction s) (auto simp: token_tail_def lower_alpha_def is_digit_def)

lemma validToken_iff [accepts]: "validToken s \<longleftrightarrow> canonical_token s"
  by (cases s) (auto simp: canonical_token_def validToken_from_iff lower_alpha_def token_tail_def)

lemma validTaskID_from_iff:
  "0 < i \<Longrightarrow> validTaskID_from i s \<longleftrightarrow> list_all (\<lambda>c. token_tail c \<or> c = CHR '':'') s"
  by (induction s arbitrary: i) (auto simp: asciiLowerAlphaNumeric_iff token_tail_def)

lemma validTaskID_iff [accepts]: "validTaskID s \<longleftrightarrow> canonical_task_id s"
  by (cases s)
    (auto simp: validTaskID_def canonical_task_id_def validTaskID_from_iff
      asciiLowerAlphaNumeric_iff token_tail_def)

lemma validSampleID_from_iff: "validSampleID_from s \<longleftrightarrow> list_all lower_hex s"
  by (induction s) (auto simp: lower_hex_def)

lemma validSampleID_iff [accepts]: "validSampleID s \<longleftrightarrow> length s = 32 \<and> list_all lower_hex s"
  by (simp add: validSampleID_def validSampleID_from_iff SampleIDBytes_def)

lemma canonical_token_ascii: "canonical_token s \<Longrightarrow> list_all (\<lambda>c. byte c < 128) s"
  by (auto simp: canonical_token_def list_all_iff token_tail_def lower_alpha_def is_digit_def)

lemma canonical_token_no_NUL: "canonical_token s \<Longrightarrow> CHR 0x00 \<notin> set s"
  by (auto simp: canonical_token_def list_all_iff token_tail_def lower_alpha_def is_digit_def)

lemma canonical_token_task_id: "canonical_token s \<Longrightarrow> canonical_task_id s"
  by (auto simp: canonical_token_def canonical_task_id_def list_all_iff)

section \<open>Digests\<close>

datatype digest_error = NotLowercaseSHA256

definition validateDigest :: "string \<Rightarrow> digest_error option" where
  "validateDigest value =
     (case DecodeString value of
        None \<Rightarrow> Some NotLowercaseSHA256
      | Some decoded \<Rightarrow>
          if length decoded \<noteq> sha256DigestBytes \<or> EncodeToString decoded \<noteq> value
          then Some NotLowercaseSHA256 else None)"

definition sha256_hex :: "string \<Rightarrow> bool" where
  "sha256_hex s \<longleftrightarrow> length s = 64 \<and> list_all lower_hex s"

lemma validateDigest_iff [accepts]: "validateDigest s = None \<longleftrightarrow> sha256_hex s"
  using canonical_hex [of s 32]
  by (auto simp: validateDigest_def sha256_hex_def sha256DigestBytes_def split: option.split)

lemma EncodeToString_sha256_hex: "length bs = 32 \<Longrightarrow> sha256_hex (EncodeToString bs)"
  by (simp add: sha256_hex_def EncodeToString_lower)

section \<open>Text, enumerations, counters and metrics\<close>

datatype field_error =
    FieldRequired string
  | FieldTooLong string nat
  | FieldNotUTF8 string
  | FieldUnsupported string string
  | CounterTooLarge string
  | NotFinite string
  | NegativeMetric string

definition validateText :: "string \<Rightarrow> string \<Rightarrow> nat \<Rightarrow> bool \<Rightarrow> field_error option" where
  "validateText name value maxBytes required =
     (if value = [] then (if required then Some (FieldRequired name) else None)
      else if length value > maxBytes then Some (FieldTooLong name maxBytes)
      else if \<not> ValidString value then Some (FieldNotUTF8 name)
      else None)"

fun validateEnum :: "string \<Rightarrow> string \<Rightarrow> string list \<Rightarrow> field_error option" where
  "validateEnum name value [] = Some (FieldUnsupported name value)"
| "validateEnum name value (candidate # allowed) =
     (if value = candidate then None else validateEnum name value allowed)"

definition withinInt64 :: "string \<Rightarrow> uint64 \<Rightarrow> field_error option" where
  "withinInt64 name value = (if unat value > MaxInt64 then Some (CounterTooLarge name) else None)"

text \<open>
  The loops over a fixed list of named counters, mandatory or optional: a \<open>nil\<close> counter
  is skipped.
\<close>

definition within_all :: "(string \<times> uint64) list \<Rightarrow> field_error option" where
  "within_all fields = for_each (\<lambda>(name, value). withinInt64 name value) fields"

definition within_some :: "(string \<times> uint64 option) list \<Rightarrow> field_error option" where
  "within_some fields =
     for_each (\<lambda>(name, value). case value of None \<Rightarrow> None | Some v \<Rightarrow> withinInt64 name v) fields"

text \<open>
  A \<open>float64\<close> is its IEEE 754 bit pattern: sign, eleven exponent bits, 52 fraction
  bits. It is a NaN or an infinity when the exponent is all ones, and less than zero when
  the sign is set and it is neither a NaN nor a zero.
\<close>

type_synonym float64 = "64 word"

definition f64_exponent :: "float64 \<Rightarrow> nat" where
  "f64_exponent x = unat x div 2 ^ 52 mod 2 ^ 11"

definition f64_fraction :: "float64 \<Rightarrow> nat" where
  "f64_fraction x = unat x mod 2 ^ 52"

definition f64_sign :: "float64 \<Rightarrow> bool" where
  "f64_sign x \<longleftrightarrow> 2 ^ 63 \<le> unat x"

definition IsNaN :: "float64 \<Rightarrow> bool" where
  "IsNaN x \<longleftrightarrow> f64_exponent x = 2047 \<and> f64_fraction x \<noteq> 0"

definition IsInf :: "float64 \<Rightarrow> bool" where
  "IsInf x \<longleftrightarrow> f64_exponent x = 2047 \<and> f64_fraction x = 0"

definition f64_negative :: "float64 \<Rightarrow> bool" where
  "f64_negative x \<longleftrightarrow> f64_sign x \<and> \<not> IsNaN x \<and> \<not> (f64_exponent x = 0 \<and> f64_fraction x = 0)"

definition validMetricFloat :: "string \<Rightarrow> float64 \<Rightarrow> field_error option" where
  "validMetricFloat name value =
     (if IsNaN value \<or> IsInf value then Some (NotFinite name)
      else if f64_negative value then Some (NegativeMetric name)
      else None)"

definition text_ok :: "string \<Rightarrow> nat \<Rightarrow> bool \<Rightarrow> bool" where
  "text_ok value maxBytes required \<longleftrightarrow>
     (value = [] \<and> \<not> required) \<or> (value \<noteq> [] \<and> length value \<le> maxBytes \<and> ValidString value)"

definition counter_ok :: "uint64 \<Rightarrow> bool" where
  "counter_ok v \<longleftrightarrow> unat v < 2 ^ 63"

definition counter_opt_ok :: "uint64 option \<Rightarrow> bool" where
  "counter_opt_ok x = (case x of None \<Rightarrow> True | Some v \<Rightarrow> counter_ok v)"

definition metric_ok :: "float64 \<Rightarrow> bool" where
  "metric_ok x \<longleftrightarrow> f64_exponent x \<noteq> 2047 \<and> \<not> f64_negative x"

lemma counter_opt_ok_simps [simp]: "counter_opt_ok None" "counter_opt_ok (Some v) = counter_ok v"
  by (simp_all add: counter_opt_ok_def)

lemma validateText_iff [accepts]: "validateText n s m r = None \<longleftrightarrow> text_ok s m r"
  by (auto simp: validateText_def text_ok_def)

lemma validateEnum_iff [accepts]: "validateEnum n s allowed = None \<longleftrightarrow> s \<in> set allowed"
  by (induction allowed) auto

lemma withinInt64_iff [accepts]: "withinInt64 n v = None \<longleftrightarrow> counter_ok v"
  by (simp add: withinInt64_def counter_ok_def MaxInt64_def) 

lemma within_all_iff [accepts]:
  "within_all fields = None \<longleftrightarrow> list_all (\<lambda>(_, v). counter_ok v) fields"
  by (auto simp: within_all_def for_each_None withinInt64_iff list_all_iff)

lemma within_some_iff [accepts]:
  "within_some fields = None \<longleftrightarrow> list_all (\<lambda>(_, v). counter_opt_ok v) fields"
proof -
  have "(\<lambda>(n, v). case v of None \<Rightarrow> None | Some w \<Rightarrow> withinInt64 n w) p = None \<longleftrightarrow>
      (\<lambda>(_, v). counter_opt_ok v) p" for p :: "string \<times> uint64 option"
    by (cases p; cases "snd p") (auto simp: withinInt64_iff)
  then show ?thesis by (simp add: within_some_def for_each_None list_all_iff)
qed

lemma validMetricFloat_iff [accepts]: "validMetricFloat n x = None \<longleftrightarrow> metric_ok x"
  by (auto simp: validMetricFloat_def metric_ok_def IsNaN_def IsInf_def)

text \<open>A counter that passed is the same number read as signed or as unsigned.\<close>

lemma counter_ok_sint:
  assumes "counter_ok v"
  shows "sint v = int (unat v)"
proof -
  have "int (unat v) < int (2 ^ 63)"
    using assms unfolding counter_ok_def of_nat_less_iff .
  then have "uint v < 2 ^ 63" by simp
  moreover have "- (2 ^ 63) \<le> uint v" by (rule order_trans [OF _ uint_ge_0]) simp
  ultimately have "signed_take_bit 63 (uint v) = uint v"
    by (simp only: signed_take_bit_int_eq_self)
  moreover have "sint v = signed_take_bit 63 (uint v)" by (simp add: sint_uint)
  ultimately show ?thesis by simp
qed

end
