(* ===== verification/Sha256.thy ===== *)
theory Sha256
  imports GoStrings
begin

unbundle bit_operations_syntax

text \<open>
  \<open>crypto/sha256\<close>, the digest of task inputs: FIPS 180-4 over 32-bit words. A message
  is padded to whole 64-byte blocks, each block is expanded to 64 words and compressed
  into the eight words of state, and the digest is the state in big-endian order.
\<close>

type_synonym w32 = "32 word"
type_synonym sha_state = "w32 \<times> w32 \<times> w32 \<times> w32 \<times> w32 \<times> w32 \<times> w32 \<times> w32"

definition rotr :: "nat \<Rightarrow> w32 \<Rightarrow> w32" where
  "rotr n x = drop_bit n x OR push_bit (32 - n) x"

definition sha_Ch :: "w32 \<Rightarrow> w32 \<Rightarrow> w32 \<Rightarrow> w32" where
  "sha_Ch x y z = (x AND y) XOR (NOT x AND z)"

definition sha_Maj :: "w32 \<Rightarrow> w32 \<Rightarrow> w32 \<Rightarrow> w32" where
  "sha_Maj x y z = (x AND y) XOR (x AND z) XOR (y AND z)"

definition Sigma0 :: "w32 \<Rightarrow> w32" where
  "Sigma0 x = rotr 2 x XOR rotr 13 x XOR rotr 22 x"

definition Sigma1 :: "w32 \<Rightarrow> w32" where
  "Sigma1 x = rotr 6 x XOR rotr 11 x XOR rotr 25 x"

definition sigma0 :: "w32 \<Rightarrow> w32" where
  "sigma0 x = rotr 7 x XOR rotr 18 x XOR drop_bit 3 x"

definition sigma1 :: "w32 \<Rightarrow> w32" where
  "sigma1 x = rotr 17 x XOR rotr 19 x XOR drop_bit 10 x"

definition sha_K :: "w32 list" where
  "sha_K =
    [1116352408, 1899447441, 3049323471, 3921009573, 961987163, 1508970993, 2453635748, 2870763221,
     3624381080, 310598401, 607225278, 1426881987, 1925078388, 2162078206, 2614888103, 3248222580,
     3835390401, 4022224774, 264347078, 604807628, 770255983, 1249150122, 1555081692, 1996064986,
     2554220882, 2821834349, 2952996808, 3210313671, 3336571891, 3584528711, 113926993, 338241895,
     666307205, 773529912, 1294757372, 1396182291, 1695183700, 1986661051, 2177026350, 2456956037,
     2730485921, 2820302411, 3259730800, 3345764771, 3516065817, 3600352804, 4094571909, 275423344,
     430227734, 506948616, 659060556, 883997877, 958139571, 1322822218, 1537002063, 1747873779,
     1955562222, 2024104815, 2227730452, 2361852424, 2428436474, 2756734187, 3204031479, 3329325298]"

definition sha_H0 :: sha_state where
  "sha_H0 = (1779033703, 3144134277, 1013904242, 2773480762, 1359893119, 2600822924, 528734635, 1541459225)"

definition be64 :: "nat \<Rightarrow> bytes" where
  "be64 n = map (\<lambda>i. char_of (n div 256 ^ (7 - i))) [0..<8]"

definition be32 :: "w32 \<Rightarrow> bytes" where
  "be32 w = map (\<lambda>i. char_of (unat w div 256 ^ (3 - i))) [0..<4]"

definition sha_pad :: "bytes \<Rightarrow> bytes" where
  "sha_pad m = m @ char_of (128 :: nat) #
     replicate ((119 - length m mod 64) mod 64) (char_of (0 :: nat)) @ be64 (8 * length m)"

fun words_of :: "bytes \<Rightarrow> w32 list" where
  "words_of (a # b # c # d # r) =
     word_of_nat (((byte a * 256 + byte b) * 256 + byte c) * 256 + byte d) # words_of r"
| "words_of _ = []"

fun schedule :: "nat \<Rightarrow> w32 list \<Rightarrow> w32 list" where
  "schedule 0 w = w"
| "schedule (Suc n) w =
     schedule n (w @ [sigma1 (w ! (length w - 2)) + w ! (length w - 7) +
       sigma0 (w ! (length w - 15)) + w ! (length w - 16)])"

fun sha_round :: "sha_state \<Rightarrow> w32 \<times> w32 \<Rightarrow> sha_state" where
  "sha_round (a, b, c, d, e, f, g, h) (k, w) =
     (let t1 = h + Sigma1 e + sha_Ch e f g + k + w; t2 = Sigma0 a + sha_Maj a b c
      in (t1 + t2, a, b, c, d + t1, e, f, g))"

fun add_state :: "sha_state \<Rightarrow> sha_state \<Rightarrow> sha_state" where
  "add_state (a, b, c, d, e, f, g, h) (a', b', c', d', e', f', g', h') =
     (a + a', b + b', c + c', d + d', e + e', f + f', g + g', h + h')"

definition sha_block :: "sha_state \<Rightarrow> w32 list \<Rightarrow> sha_state" where
  "sha_block st ws = add_state st (foldl sha_round st (zip sha_K (schedule 48 ws)))"

function sha_blocks :: "sha_state \<Rightarrow> w32 list \<Rightarrow> sha_state" where
  "sha_blocks st ws =
     (if length ws < 16 then st else sha_blocks (sha_block st (take 16 ws)) (drop 16 ws))"
  by pat_completeness auto
termination
  by (relation "measure (\<lambda>(st, ws). length ws)") auto

declare sha_blocks.simps [simp del]

fun state_bytes :: "sha_state \<Rightarrow> bytes" where
  "state_bytes (a, b, c, d, e, f, g, h) = concat (map be32 [a, b, c, d, e, f, g, h])"

definition Sum256 :: "bytes \<Rightarrow> bytes" where
  "Sum256 m = state_bytes (sha_blocks sha_H0 (words_of (sha_pad m)))"

lemma length_be32 [simp]: "length (be32 w) = 4"
  by (simp add: be32_def)

lemma length_Sum256 [simp]: "length (Sum256 m) = 32"
  by (cases "sha_blocks sha_H0 (words_of (sha_pad m))" rule: state_bytes.cases)
    (simp add: Sum256_def)

text \<open>The padded message is whole blocks, and the padding loses nothing.\<close>

lemma length_be64 [simp]: "length (be64 n) = 8"
  by (simp add: be64_def)

lemma pad_to_block: "(n + ((119 - n mod 64) mod 64 + 9)) mod 64 = (0 :: nat)"
proof -
  have "(r + ((119 - r) mod 64 + 9)) mod 64 = 0" if "r < 64" for r :: nat
    using that by (cases "r \<le> 55") (auto simp: mod_if)
  from this [of "n mod 64"] show ?thesis by (simp add: mod_add_left_eq)
qed

lemma sha_pad_blocks: "length (sha_pad m) mod 64 = 0"
  using pad_to_block [of "length m"] by (simp add: sha_pad_def add.commute)

end
