(* ===== verification/Tasks.thy ===== *)
theory Tasks
  imports Scalars Sha256
begin

text \<open>
  The task half of \<open>protocol/envelope.go\<close> and its validation in \<open>validate.go\<close>: tasks,
  task results, the input digest that binds a task's kind and arguments, and the three
  loops \<open>ValidateTasks\<close>, \<open>ValidateTaskResults\<close> and \<open>validateLegacyTaskResults\<close>, which are
  interpreted as budgeted loops without repeated ids.
\<close>

section \<open>Tasks and results\<close>

record Task =
  t_ID :: string
  t_Kind :: string
  t_Args :: bytes
  t_InputSHA256 :: string
  t_NotAfterMS :: int64

record TaskResult =
  tr_ID :: string
  tr_Kind :: string
  tr_InputSHA256 :: string
  tr_NotAfterMS :: int64
  tr_OK :: bool
  tr_Indeterminate :: bool
  tr_Result :: bytes
  tr_ErrorCode :: string
  tr_Error :: string

definition CapabilityTaskExecutionV1 :: string where
  [wire_consts]: "CapabilityTaskExecutionV1 = ''task.execution.v1''"
definition CapabilityTaskExpiryV1 :: string where
  [wire_consts]: "CapabilityTaskExpiryV1 = ''task.expiry.v1''"
definition taskInputDomain :: bytes where
  "taskInputDomain = ''passwall-node/task-input/v1'' @ [CHR 0x00]"

definition TaskCapability :: "string \<Rightarrow> string" where
  "TaskCapability kind = ''task.'' @ kind"

text \<open>The bytes written to the hash, in order, and the digest's lowercase hex.\<close>

definition task_input :: "string \<Rightarrow> bytes \<Rightarrow> bytes" where
  "task_input kind args = taskInputDomain @ kind @ [CHR 0x00] @ args"

definition ComputeTaskInputSHA256 :: "string \<Rightarrow> bytes \<Rightarrow> string" where
  "ComputeTaskInputSHA256 kind args = EncodeToString (Sum256 (task_input kind args))"

lemma ComputeTaskInputSHA256_hex: "sha256_hex (ComputeTaskInputSHA256 kind args)"
  by (simp add: ComputeTaskInputSHA256_def EncodeToString_sha256_hex)

lemma TaskCapability_reserved:
  "TaskCapability kind = CapabilityTaskExecutionV1 \<longleftrightarrow> kind = ''execution.v1''"
  "TaskCapability kind = CapabilityTaskExpiryV1 \<longleftrightarrow> kind = ''expiry.v1''"
  by (simp_all add: TaskCapability_def wire_consts)

section \<open>Validation\<close>

datatype task_error =
    TooManyTasks
  | BadTaskID
  | BadTaskKind string
  | ReservedTaskKind string string
  | NegativeNotAfter string
  | TaskArgsTooLarge string
  | TaskArgsAggregate
  | TaskDigestError string digest_error
  | TaskDigestMismatch string
  | DuplicateTask string

datatype result_error =
    TooManyResults
  | BadResultID
  | BadResultKind string
  | ReservedResultKind string string
  | NegativeResultNotAfter string
  | ResultDigestError string digest_error
  | ResultTooLarge string
  | ResultAggregate
  | ResultErrorText string
  | SuccessWithError string
  | FailureWithoutCode string
  | FailureWithoutError string
  | FailureWithPayload string
  | DuplicateResult string
  | MixedResultSchemas string
  | BadLegacyID
  | LegacyResultSize string
  | LegacyErrorText string
  | LegacySuccessWithError string
  | LegacyFailureWithoutError string

definition ValidateTasks_step ::
  "string set \<times> int \<Rightarrow> Task \<Rightarrow> task_error + (string set \<times> int)" where
  "ValidateTasks_step st task =
     (let (seen, totalArgs) = st; i = t_ID task; kind = t_Kind task in
      after_checks
        [check (\<not> validTaskID i \<or> length i > MaxTaskIDBytes) BadTaskID,
         check (\<not> validToken kind \<or> length kind > MaxTaskKindBytes) (BadTaskKind i),
         check (TaskCapability kind = CapabilityTaskExecutionV1 \<or>
           TaskCapability kind = CapabilityTaskExpiryV1) (ReservedTaskKind i kind),
         check (sint (t_NotAfterMS task) < 0) (NegativeNotAfter i),
         check (len (t_Args task) > MaxTaskArgsBytes) (TaskArgsTooLarge i),
         check (len (t_Args task) > MaxTaskArgsBytesPerResponse - totalArgs) TaskArgsAggregate,
         wrap_error (TaskDigestError i) (validateDigest (t_InputSHA256 task)),
         check (t_InputSHA256 task \<noteq> ComputeTaskInputSHA256 kind (t_Args task)) (TaskDigestMismatch i),
         check (i \<in> seen) (DuplicateTask i)]
        (insert i seen, totalArgs + len (t_Args task)))"

definition ValidateTasks :: "Task list \<Rightarrow> task_error option" where
  "ValidateTasks tasks =
     (if length tasks > MaxTasksPerResponse then Some TooManyTasks
      else error_of (for_range ValidateTasks_step ({}, 0) tasks))"

definition ValidateTaskResults_step ::
  "string set \<times> int \<Rightarrow> TaskResult \<Rightarrow> result_error + (string set \<times> int)" where
  "ValidateTaskResults_step st r =
     (let (seen, totalResult) = st; i = tr_ID r; kind = tr_Kind r in
      after_checks
        [check (\<not> validTaskID i \<or> length i > MaxTaskIDBytes) BadResultID,
         check (\<not> validToken kind \<or> length kind > MaxTaskKindBytes) (BadResultKind i),
         check (TaskCapability kind = CapabilityTaskExecutionV1 \<or>
           TaskCapability kind = CapabilityTaskExpiryV1) (ReservedResultKind i kind),
         check (sint (tr_NotAfterMS r) < 0) (NegativeResultNotAfter i),
         wrap_error (ResultDigestError i) (validateDigest (tr_InputSHA256 r)),
         check (len (tr_Result r) > MaxTaskResultBytes) (ResultTooLarge i),
         check (len (tr_Result r) > MaxTaskResultBytesPerReport - totalResult) ResultAggregate,
         check (\<not> ValidString (tr_Error r) \<or> length (tr_Error r) > MaxTaskErrorBytes) (ResultErrorText i),
         (if tr_OK r then
            check (tr_Indeterminate r \<or> tr_ErrorCode r \<noteq> [] \<or> tr_Error r \<noteq> []) (SuccessWithError i)
          else first_error
            [check (\<not> validToken (tr_ErrorCode r) \<or> length (tr_ErrorCode r) > MaxTaskErrorCodeBytes)
               (FailureWithoutCode i),
             check (TrimSpace (tr_Error r) = [] \<or> TrimSpace (tr_Error r) \<noteq> tr_Error r)
               (FailureWithoutError i),
             check (length (tr_Result r) \<noteq> 0) (FailureWithPayload i)]),
         check (i \<in> seen) (DuplicateResult i)]
        (insert i seen, totalResult + len (tr_Result r)))"

definition ValidateTaskResults :: "TaskResult list \<Rightarrow> result_error option" where
  "ValidateTaskResults results =
     (if length results > MaxTaskResultsPerReport then Some TooManyResults
      else error_of (for_range ValidateTaskResults_step ({}, 0) results))"

definition validateLegacyTaskResults_step ::
  "string set \<times> int \<Rightarrow> TaskResult \<Rightarrow> result_error + (string set \<times> int)" where
  "validateLegacyTaskResults_step st r =
     (let (seen, totalResult) = st; i = tr_ID r in
      after_checks
        [check (tr_Kind r \<noteq> [] \<or> tr_InputSHA256 r \<noteq> [] \<or> tr_NotAfterMS r \<noteq> 0 \<or>
           tr_ErrorCode r \<noteq> [] \<or> tr_Indeterminate r) (MixedResultSchemas i),
         check (\<not> validTaskID i \<or> length i > MaxTaskIDBytes) BadLegacyID,
         check (len (tr_Result r) > MaxTaskResultBytes \<or>
           len (tr_Result r) > MaxTaskResultBytesPerReport - totalResult) (LegacyResultSize i),
         check (\<not> ValidString (tr_Error r) \<or> length (tr_Error r) > MaxTaskErrorBytes) (LegacyErrorText i),
         check (tr_OK r \<and> tr_Error r \<noteq> []) (LegacySuccessWithError i),
         check (\<not> tr_OK r \<and> (TrimSpace (tr_Error r) = [] \<or> TrimSpace (tr_Error r) \<noteq> tr_Error r))
           (LegacyFailureWithoutError i),
         check (i \<in> seen) (DuplicateResult i)]
        (insert i seen, totalResult + len (tr_Result r)))"

definition validateLegacyTaskResults :: "TaskResult list \<Rightarrow> result_error option" where
  "validateLegacyTaskResults results =
     (if length results > MaxTaskResultsPerReport then Some TooManyResults
      else error_of (for_range validateLegacyTaskResults_step ({}, 0) results))"

section \<open>What a well-formed task and result are\<close>

definition task_identity_ok :: "string \<Rightarrow> string \<Rightarrow> bool" where
  "task_identity_ok i kind \<longleftrightarrow>
     canonical_task_id i \<and> length i \<le> 128 \<and> canonical_token kind \<and> length kind \<le> 96 \<and>
     kind \<notin> {''execution.v1'', ''expiry.v1''}"

definition task_ok :: "Task \<Rightarrow> bool" where
  "task_ok t \<longleftrightarrow>
     task_identity_ok (t_ID t) (t_Kind t) \<and> 0 \<le> sint (t_NotAfterMS t) \<and>
     len (t_Args t) \<le> 2 ^ 20 \<and>
     t_InputSHA256 t = ComputeTaskInputSHA256 (t_Kind t) (t_Args t)"

text \<open>Diagnostic text that is not blank and has no white space at either end.\<close>

definition canonical_text :: "string \<Rightarrow> bool" where
  "canonical_text s \<longleftrightarrow> s \<noteq> [] \<and> TrimSpace s = s"

lemma canonical_text_iff:
  "\<not> (TrimSpace s = [] \<or> TrimSpace s \<noteq> s) \<longleftrightarrow> canonical_text s"
  by (auto simp: canonical_text_def)

text \<open>
  The three terminal states a durable result may be in: a success with a payload, and a
  known failure or an unprovable outcome with a code and a diagnostic.
\<close>

datatype outcome =
    Succeeded bytes
  | Failed string string
  | Indeterminate string string

fun outcome_of :: "TaskResult \<Rightarrow> outcome option" where
  "outcome_of r =
     (if tr_OK r then
        (if \<not> tr_Indeterminate r \<and> tr_ErrorCode r = [] \<and> tr_Error r = []
         then Some (Succeeded (tr_Result r)) else None)
      else if canonical_token (tr_ErrorCode r) \<and> length (tr_ErrorCode r) \<le> 128 \<and>
          canonical_text (tr_Error r) \<and> tr_Result r = []
        then Some (if tr_Indeterminate r then Indeterminate (tr_ErrorCode r) (tr_Error r)
          else Failed (tr_ErrorCode r) (tr_Error r))
      else None)"

declare outcome_of.simps [simp del]

definition error_text_ok :: "string \<Rightarrow> bool" where
  "error_text_ok s \<longleftrightarrow> ValidString s \<and> length s \<le> 4096"

definition result_ok :: "TaskResult \<Rightarrow> bool" where
  "result_ok r \<longleftrightarrow>
     task_identity_ok (tr_ID r) (tr_Kind r) \<and> 0 \<le> sint (tr_NotAfterMS r) \<and>
     sha256_hex (tr_InputSHA256 r) \<and> len (tr_Result r) \<le> 2 ^ 20 \<and>
     error_text_ok (tr_Error r) \<and> outcome_of r \<noteq> None"

definition legacy_result_ok :: "TaskResult \<Rightarrow> bool" where
  "legacy_result_ok r \<longleftrightarrow>
     tr_Kind r = [] \<and> tr_InputSHA256 r = [] \<and> tr_NotAfterMS r = 0 \<and> tr_ErrorCode r = [] \<and>
     \<not> tr_Indeterminate r \<and> canonical_task_id (tr_ID r) \<and> length (tr_ID r) \<le> 128 \<and>
     len (tr_Result r) \<le> 2 ^ 20 \<and> error_text_ok (tr_Error r) \<and>
     (if tr_OK r then tr_Error r = [] else canonical_text (tr_Error r))"

section \<open>The three loops meet the contract of a budgeted loop\<close>

lemmas task_checks = validTaskID_iff validToken_iff validateDigest_iff TaskCapability_reserved
  MaxTaskIDBytes_def MaxTaskKindBytes_def MaxTaskArgsBytes_def MaxTaskResultBytes_def
  MaxTaskErrorBytes_def MaxTaskErrorCodeBytes_def not_less

lemma ValidateTasks_step_accepts:
  "ValidateTasks_step (seen, used) t = Inr st \<longleftrightarrow>
    task_ok t \<and> len (t_Args t) \<le> MaxTaskArgsBytesPerResponse - used \<and> t_ID t \<notin> seen \<and>
    st = (insert (t_ID t) seen, used + len (t_Args t))"
  using ComputeTaskInputSHA256_hex [of "t_Kind t" "t_Args t"]
  by (auto simp: ValidateTasks_step_def Let_def task_ok_def task_identity_ok_def task_checks)

interpretation tasks_loop: budget_loop ValidateTasks_step t_ID task_ok
    "\<lambda>t. len (t_Args t)" MaxTaskArgsBytesPerResponse
  by unfold_locales (simp_all add: ValidateTasks_step_accepts)

lemma ValidateTaskResults_step_accepts:
  "ValidateTaskResults_step (seen, used) r = Inr st \<longleftrightarrow>
    result_ok r \<and> len (tr_Result r) \<le> MaxTaskResultBytesPerReport - used \<and> tr_ID r \<notin> seen \<and>
    st = (insert (tr_ID r) seen, used + len (tr_Result r))"
  by (auto simp: ValidateTaskResults_step_def Let_def result_ok_def task_identity_ok_def task_checks
      outcome_of.simps error_text_ok_def canonical_text_iff canonical_text_def)

interpretation results_loop: budget_loop ValidateTaskResults_step tr_ID result_ok
    "\<lambda>r. len (tr_Result r)" MaxTaskResultBytesPerReport
  by unfold_locales (simp_all add: ValidateTaskResults_step_accepts)

lemma validateLegacyTaskResults_step_accepts:
  "validateLegacyTaskResults_step (seen, used) r = Inr st \<longleftrightarrow>
    legacy_result_ok r \<and> len (tr_Result r) \<le> MaxTaskResultBytesPerReport - used \<and>
    tr_ID r \<notin> seen \<and> st = (insert (tr_ID r) seen, used + len (tr_Result r))"
  by (auto simp: validateLegacyTaskResults_step_def Let_def legacy_result_ok_def task_checks
      error_text_ok_def canonical_text_def)

interpretation legacy_loop: budget_loop validateLegacyTaskResults_step tr_ID legacy_result_ok
    "\<lambda>r. len (tr_Result r)" MaxTaskResultBytesPerReport
  by unfold_locales (simp_all add: validateLegacyTaskResults_step_accepts)

lemma ValidateTasks_iff [accepts]:
  "ValidateTasks ts = None \<longleftrightarrow>
    length ts \<le> 64 \<and> list_all task_ok ts \<and> distinct (map t_ID ts) \<and>
    sum_list (map (\<lambda>t. len (t_Args t)) ts) \<le> 4 * 2 ^ 20"
  using tasks_loop.budget_loop_passes [of ts]
  by (auto simp: ValidateTasks_def MaxTasksPerResponse_def MaxTaskArgsBytesPerResponse_def)

lemma ValidateTaskResults_iff [accepts]:
  "ValidateTaskResults rs = None \<longleftrightarrow>
    length rs \<le> 256 \<and> list_all result_ok rs \<and> distinct (map tr_ID rs) \<and>
    sum_list (map (\<lambda>r. len (tr_Result r)) rs) \<le> 4 * 2 ^ 20"
  using results_loop.budget_loop_passes [of rs]
  by (auto simp: ValidateTaskResults_def MaxTaskResultsPerReport_def MaxTaskResultBytesPerReport_def)

lemma validateLegacyTaskResults_iff [accepts]:
  "validateLegacyTaskResults rs = None \<longleftrightarrow>
    length rs \<le> 256 \<and> list_all legacy_result_ok rs \<and> distinct (map tr_ID rs) \<and>
    sum_list (map (\<lambda>r. len (tr_Result r)) rs) \<le> 4 * 2 ^ 20"
  using legacy_loop.budget_loop_passes [of rs]
  by (auto simp: validateLegacyTaskResults_def MaxTaskResultsPerReport_def
      MaxTaskResultBytesPerReport_def)

section \<open>The digest binds kind and arguments\<close>

lemma NUL_split:
  "CHR 0x00 \<notin> set a \<Longrightarrow> CHR 0x00 \<notin> set c \<Longrightarrow>
    a @ CHR 0x00 # b = c @ CHR 0x00 # d \<longleftrightarrow> a = c \<and> b = d"
proof (induction a arbitrary: c)
  case Nil
  then show ?case by (cases c) auto
next
  case (Cons x a)
  then show ?case by (cases c) auto
qed

lemma task_input_inject:
  "canonical_token k \<Longrightarrow> canonical_token k' \<Longrightarrow>
    task_input k a = task_input k' a' \<longleftrightarrow> k = k' \<and> a = a'"
  using NUL_split [of k k' a a'] by (simp add: task_input_def canonical_token_no_NUL)

lemma EncodeToString_inject: "EncodeToString a = EncodeToString b \<longleftrightarrow> a = b"
  using DecodeString_EncodeToString by (metis option.inject)

section \<open>Properties\<close>

text \<open>
  C12. \<open>ValidateTasks\<close> accepts a response's tasks exactly when there are at most 64 of
  them with pairwise different ids, every id and kind is canonical and bounded, no kind
  is one of the two names reserved by the execution capability, no deadline is negative,
  every digest is the digest of that task's kind and arguments, and the arguments stay
  within 1 MiB each and 4 MiB together.
\<close>

theorem ValidateTasks_accepts_exactly:
  "ValidateTasks ts = None \<longleftrightarrow>
    length ts \<le> 64 \<and> list_all task_ok ts \<and> distinct (map t_ID ts) \<and>
    sum_list (map (\<lambda>t. len (t_Args t)) ts) \<le> 4 * 2 ^ 20"
  by (rule ValidateTasks_iff)

text \<open>
  C29. The input digest binds a task to its kind and exact argument bytes: two tasks of
  accepted responses that carry the same digest have the same kind and the same
  arguments, or their hashed byte strings are a collision of SHA-256 itself.
\<close>

theorem digest_binds_kind_and_args:
  assumes "ValidateTasks ts = None" "t \<in> set ts"
    and "ValidateTasks ts' = None" "t' \<in> set ts'"
    and "t_InputSHA256 t = t_InputSHA256 t'"
  shows "t_Kind t = t_Kind t' \<and> t_Args t = t_Args t' \<or>
    task_input (t_Kind t) (t_Args t) \<noteq> task_input (t_Kind t') (t_Args t') \<and>
    Sum256 (task_input (t_Kind t) (t_Args t)) = Sum256 (task_input (t_Kind t') (t_Args t'))"
proof -
  have ok: "task_ok t" "task_ok t'"
    using assms by (auto simp: ValidateTasks_iff list_all_iff)
  then have "ComputeTaskInputSHA256 (t_Kind t) (t_Args t) =
      ComputeTaskInputSHA256 (t_Kind t') (t_Args t')"
    using assms(5) by (simp add: task_ok_def)
  then show ?thesis
    using ok task_input_inject [of "t_Kind t" "t_Kind t'" "t_Args t" "t_Args t'"]
    by (auto simp: ComputeTaskInputSHA256_def EncodeToString_inject task_ok_def task_identity_ok_def)
qed

definition probe_task :: Task where
  "probe_task = \<lparr>t_ID = ''task-1'', t_Kind = ''reality_probe.v1'', t_Args = ''probe'',
     t_InputSHA256 = ComputeTaskInputSHA256 ''reality_probe.v1'' ''probe'', t_NotAfterMS = 5\<rparr>"

lemma probe_task_accepted: "ValidateTasks [probe_task] = None"
  by (simp add: ValidateTasks_iff task_ok_def task_identity_ok_def probe_task_def
      canonical_token_def canonical_task_id_def token_tail_def lower_alpha_def is_digit_def)

theorem digest_binds_kind_and_args_witness:
  "t_Kind probe_task = ''reality_probe.v1'' \<and> t_Args probe_task = ''probe''"
proof -
  have "probe_task \<in> set [probe_task]" by simp
  from digest_binds_kind_and_args [OF probe_task_accepted this probe_task_accepted this refl]
  show ?thesis by (simp add: probe_task_def)
qed

text \<open>
  \<open>ValidateTaskResults\<close> accepts a report's durable results exactly when there are at
  most 256 of them with pairwise different ids, within 1 MiB each and 4 MiB together,
  every identity is canonical, every digest is lowercase SHA-256 hex, every diagnostic is
  bounded UTF-8, and every result is in one of the three terminal states: a success with
  no error, or a failure or an indeterminate outcome with a canonical code, a canonical
  diagnostic and no payload.
\<close>

theorem ValidateTaskResults_accepts_exactly:
  "ValidateTaskResults rs = None \<longleftrightarrow>
    length rs \<le> 256 \<and> list_all result_ok rs \<and> distinct (map tr_ID rs) \<and>
    sum_list (map (\<lambda>r. len (tr_Result r)) rs) \<le> 4 * 2 ^ 20"
  by (rule ValidateTaskResults_iff)

end
