(* ===== verification/Envelope.thy ===== *)
theory Envelope
  imports Segments Tasks "HOL-Library.Signed_Division"
begin

text \<open>
  The response half of \<open>protocol/envelope.go\<close>: the scheduling envelope and its
  validation, the two report cadences (full enumerations and host telemetry) and the
  wall-clock periods they produce under polling. The two cadences are instances of one
  contract, the locale \<open>report_cadence\<close>, whose main lemma simulates the polling agent.
\<close>

section \<open>The envelope\<close>

record Envelope =
  ComputedAtMS :: int64
  NumeratorAsOfMS :: int64
  NumeratorOldestReportAgeMS :: int64
  OverburnHeadroomBytes :: int64
  NextPollSeconds :: goint
  FullReportSeconds :: goint
  WantFullReport :: bool
  HostReportSeconds :: goint
  WantHostReport :: bool

record SyncResponse =
  sr_Envelope :: Envelope
  sr_Config :: "ConfigBody Segment"
  sr_Roster :: "RosterBody Segment"
  sr_Directives :: "DirectivesBody Segment"
  sr_Tasks :: "Task list"

text \<open>\<open>Envelope{}\<close>, the zero value the period functions start from.\<close>

definition zero_envelope :: Envelope where
  "zero_envelope = \<lparr>ComputedAtMS = 0, NumeratorAsOfMS = 0, NumeratorOldestReportAgeMS = 0,
     OverburnHeadroomBytes = 0, NextPollSeconds = 0, FullReportSeconds = 0,
     WantFullReport = False, HostReportSeconds = 0, WantHostReport = False\<rparr>"

datatype envelope_error =
    NegativeEnvelopeValue
  | NextPollOutOfRange
  | FullReportOutOfRange
  | HostReportOutOfRange

definition ValidateEnvelope :: "Envelope \<Rightarrow> envelope_error option" where
  "ValidateEnvelope envelope = first_error
     [check (sint (ComputedAtMS envelope) < 0 \<or> sint (NumeratorAsOfMS envelope) < 0 \<or>
        sint (NumeratorOldestReportAgeMS envelope) < 0 \<or> sint (OverburnHeadroomBytes envelope) < 0)
        NegativeEnvelopeValue,
      check (sint (NextPollSeconds envelope) < 0 \<or> sint (NextPollSeconds envelope) > MaxNextPollSeconds)
        NextPollOutOfRange,
      check (sint (FullReportSeconds envelope) < 0 \<or> sint (FullReportSeconds envelope) > MaxFullReportSeconds)
        FullReportOutOfRange,
      check (sint (HostReportSeconds envelope) < 0 \<or> sint (HostReportSeconds envelope) > MaxHostReportSeconds \<or>
        (sint (HostReportSeconds envelope) > 0 \<and> sint (HostReportSeconds envelope) < MinHostReportSeconds))
        HostReportOutOfRange]"

datatype sync_error = EnvelopeError envelope_error | TasksError task_error

definition ValidateSyncResponse :: "SyncResponse \<Rightarrow> sync_error option" where
  "ValidateSyncResponse response = first_error
     [wrap_error EnvelopeError (ValidateEnvelope (sr_Envelope response)),
      wrap_error TasksError (ValidateTasks (sr_Tasks response))]"

definition envelope_ok :: "Envelope \<Rightarrow> bool" where
  "envelope_ok e \<longleftrightarrow>
     0 \<le> sint (ComputedAtMS e) \<and> 0 \<le> sint (NumeratorAsOfMS e) \<and>
     0 \<le> sint (NumeratorOldestReportAgeMS e) \<and> 0 \<le> sint (OverburnHeadroomBytes e) \<and>
     sint (NextPollSeconds e) \<in> {0..3600} \<and> sint (FullReportSeconds e) \<in> {0..86400} \<and>
     sint (HostReportSeconds e) \<in> {0} \<union> {5..3600}"

lemma ValidateEnvelope_iff [accepts]: "ValidateEnvelope e = None \<longleftrightarrow> envelope_ok e"
  by (auto simp: ValidateEnvelope_def envelope_ok_def wire_consts)

section \<open>Cadences\<close>

definition ShouldSendFull :: "Envelope \<Rightarrow> goint \<Rightarrow> bool" where
  "ShouldSendFull env sinceLastFullSeconds =
     (if WantFullReport env then True
      else if sint (FullReportSeconds env) \<le> 0 then True
      else sint sinceLastFullSeconds \<ge> sint (FullReportSeconds env))"

definition ShouldSendHost :: "Envelope \<Rightarrow> goint \<Rightarrow> bool" where
  "ShouldSendHost env sinceLastHostSeconds =
     (if WantHostReport env then True
      else if sint (HostReportSeconds env) \<le> 0 then True
      else sint sinceLastHostSeconds \<ge> sint (HostReportSeconds env))"

text \<open>Go's integer division and remainder truncate towards zero, at the width of \<open>int\<close>.\<close>

definition go_div :: "goint \<Rightarrow> goint \<Rightarrow> goint" where
  "go_div a b = word_of_int (sint a sdiv sint b)"

definition go_mod :: "goint \<Rightarrow> goint \<Rightarrow> goint" where
  "go_mod a b = word_of_int (sint a smod sint b)"

definition EffectiveFullReportPeriod :: "goint \<Rightarrow> goint \<Rightarrow> goint" where
  "EffectiveFullReportPeriod fullReportSeconds nextPollSeconds =
     (let poll = (if sint nextPollSeconds \<le> 0 then word_of_int DefaultNextPollSeconds else nextPollSeconds);
          envelope = zero_envelope\<lparr>FullReportSeconds := fullReportSeconds\<rparr>
      in if ShouldSendFull envelope poll then poll
         else
           let cycles = go_div fullReportSeconds poll;
               cycles' = (if go_mod fullReportSeconds poll \<noteq> 0 then cycles + 1 else cycles)
           in cycles' * poll)"

definition EffectiveHostReportPeriod :: "goint \<Rightarrow> goint \<Rightarrow> goint" where
  "EffectiveHostReportPeriod hostReportSeconds nextPollSeconds =
     (let poll = (if sint nextPollSeconds \<le> 0 then word_of_int DefaultNextPollSeconds else nextPollSeconds)
      in if ShouldSendHost (zero_envelope\<lparr>HostReportSeconds := hostReportSeconds\<rparr>) poll then poll
         else
           let cycles = go_div hostReportSeconds poll;
               cycles' = (if go_mod hostReportSeconds poll \<noteq> 0 then cycles + 1 else cycles)
           in cycles' * poll)"

text \<open>
  The polling agent, as the period functions are meant to predict it: every \<open>poll\<close>
  seconds one round, which sends when the cadence says so and then counts anew from
  zero. The result lists which of the next rounds send.
\<close>

fun poll_rounds :: "(goint \<Rightarrow> bool) \<Rightarrow> int \<Rightarrow> int \<Rightarrow> nat \<Rightarrow> bool list" where
  "poll_rounds send poll since 0 = []"
| "poll_rounds send poll since (Suc n) =
     (if send (word_of_int (since + poll)) then True # poll_rounds send poll 0 n
      else False # poll_rounds send poll (since + poll) n)"

text \<open>The number of polls from one sending round to the next, over the integers.\<close>

definition cycles_for :: "int \<Rightarrow> int \<Rightarrow> int" where
  "cycles_for req poll = (if req \<le> poll then 1 else (req + poll - 1) div poll)"

lemma cycles_for_bounds:
  assumes "0 < poll"
  shows "1 \<le> cycles_for req poll" "req \<le> cycles_for req poll * poll"
    "\<And>k. 1 \<le> k \<Longrightarrow> k < cycles_for req poll \<Longrightarrow> k * poll < req"
proof -
  define c where "c = (req + poll - 1) div poll"
  define m where "m = (req + poll - 1) mod poll"
  have m: "0 \<le> m" "m < poll" using assms by (simp_all add: m_def)
  have eq: "c * poll + m = req + poll - 1" by (simp add: c_def m_def)
  have c1: "1 \<le> c" if "poll < req"
  proof (rule ccontr)
    assume "\<not> 1 \<le> c"
    then have "c * poll \<le> 0" using assms by (simp add: mult_nonpos_nonneg)
    with eq m that show False by simp
  qed
  show "1 \<le> cycles_for req poll"
    using c1 by (simp add: cycles_for_def c_def)
  show "req \<le> cycles_for req poll * poll"
    using eq m by (simp add: cycles_for_def flip: c_def)
  fix k assume k: "1 \<le> k" "k < cycles_for req poll"
  then have "k \<le> c - 1" "poll < req" by (auto simp: cycles_for_def c_def split: if_splits)
  then have "k * poll \<le> (c - 1) * poll" using assms by (simp add: mult_right_mono)
  with eq m show "k * poll < req" by (simp add: algebra_simps)
qed

lemma div_round_up:
  assumes "0 < poll" "poll < (req :: int)"
  shows "(if req mod poll \<noteq> 0 then req div poll + 1 else req div poll) = cycles_for req poll"
proof -
  define c where "c = req div poll"
  define m where "m = req mod poll"
  have m: "0 \<le> m" "m < poll" using assms by (simp_all add: m_def)
  have "req = c * poll + m" by (simp add: c_def m_def)
  then have "req + poll - 1 = (m + poll - 1) + c * poll" by simp
  then have "(req + poll - 1) div poll = c + (m + poll - 1) div poll"
    using assms by (simp only: div_mult_self1)
  moreover have "(m + poll - 1) div poll = (if m \<noteq> 0 then 1 else 0)"
  proof (cases "m = 0")
    case False
    then have "m + poll - 1 = (m - 1) + 1 * poll" by simp
    moreover have "(m - 1) div poll = 0" using m False by (simp add: div_pos_pos_trivial)
    ultimately show ?thesis using False assms by (simp only: div_mult_self1) simp
  qed (use assms in \<open>simp add: div_pos_pos_trivial\<close>)
  ultimately show ?thesis using assms by (simp add: cycles_for_def c_def m_def)
qed

lemma cycles_for_upper:
  assumes "0 < poll" "0 \<le> req"
  shows "cycles_for req poll * poll \<le> req + poll"
proof -
  have "(req + poll - 1) div poll * poll + (req + poll - 1) mod poll = req + poll - 1"
    by (rule div_mult_mod_eq)
  moreover have "0 \<le> (req + poll - 1) mod poll" using assms(1) by (rule pos_mod_sign)
  ultimately have "(req + poll - 1) div poll * poll \<le> req + poll - 1" by linarith
  then show ?thesis using assms by (auto simp: cycles_for_def)
qed

text \<open>The source's word arithmetic computes the same number, inside the published bounds.\<close>

definition rounded_period :: "goint \<Rightarrow> goint \<Rightarrow> goint" where
  "rounded_period req poll =
     (let cycles = go_div req poll;
          cycles' = (if go_mod req poll \<noteq> 0 then cycles + 1 else cycles)
      in cycles' * poll)"

lemma rounded_period_value:
  assumes "0 < sint poll" "sint poll < sint req" "sint req \<le> 4611686018427387904"
  shows "sint (rounded_period req poll) = cycles_for (sint req) (sint poll) * sint poll"
proof -
  define p r where "p = sint poll" and "r = sint req"
  have pr: "0 < p" "p < r" "r \<le> 4611686018427387904" using assms by (simp_all add: p_def r_def)
  have d: "r sdiv p = r div p" "r smod p = r mod p"
    using pr by (simp_all add: signed_divide_int_eq_divide_int signed_modulo_int_eq_modulo_int)
  have mod: "0 \<le> r mod p" "r mod p < p" using pr by simp_all
  have "(go_mod req poll \<noteq> 0) = (r mod p \<noteq> 0)"
  proof -
    have "sint (word_of_int (r mod p) :: goint) = r mod p"
      by (rule sint64_of_nonneg_int) (use mod pr in linarith)+
    then have "sint (go_mod req poll) = r mod p"
      by (simp add: go_mod_def d flip: p_def r_def)
    moreover have "go_mod req poll = 0 \<longleftrightarrow> sint (go_mod req poll) = 0" by (simp add: signed_eq_0_iff)
    ultimately show ?thesis by simp
  qed
  moreover have "go_div req poll = word_of_int (r div p)"
    by (simp add: go_div_def d flip: p_def r_def)
  ultimately have "rounded_period req poll = word_of_int (cycles_for r p) * poll"
    using div_round_up [of p r] pr by (simp add: rounded_period_def Let_def flip: div_round_up)
  also have "\<dots> = word_of_int (cycles_for r p * p)"
    by (simp add: p_def)
  finally have "rounded_period req poll = word_of_int (cycles_for r p * p)" .
  moreover have "0 \<le> cycles_for r p * p" "cycles_for r p * p \<le> r + p"
    using cycles_for_bounds(1) [of p r] cycles_for_upper [of p r] pr by simp_all
  ultimately have "sint (rounded_period req poll) = cycles_for r p * p"
    using pr by (simp only: sint64_of_nonneg_int)
  then show ?thesis by (simp add: p_def r_def)
qed

section \<open>The contract of a report cadence\<close>

locale report_cadence =
  fixes send :: "Envelope \<Rightarrow> goint \<Rightarrow> bool"
    and want :: "Envelope \<Rightarrow> bool"
    and interval :: "Envelope \<Rightarrow> goint"
    and period :: "goint \<Rightarrow> goint \<Rightarrow> goint"
  assumes send_iff:
    "send env since \<longleftrightarrow> want env \<or> sint (interval env) \<le> 0 \<or> sint (interval env) \<le> sint since"
    and period_positive_poll:
    "0 < sint poll \<Longrightarrow>
      period req poll = (if sint req \<le> 0 \<or> sint req \<le> sint poll then poll else rounded_period req poll)"
    and period_default_poll:
    "sint poll \<le> 0 \<Longrightarrow> period req poll = period req (word_of_int DefaultNextPollSeconds)"
begin

lemma fail_safe: "want env \<or> sint (interval env) \<le> 0 \<Longrightarrow> send env since"
  by (auto simp: send_iff)

lemma send_monotone: "send env since \<Longrightarrow> sint since \<le> sint later \<Longrightarrow> send env later"
  by (auto simp: send_iff)

lemma period_value:
  assumes "0 < sint poll" "sint req \<le> 4611686018427387904"
  shows "sint (period req poll) = cycles_for (sint req) (sint poll) * sint poll"
  using assms rounded_period_value [of poll req]
  by (auto simp: period_positive_poll cycles_for_def)

text \<open>The agent sends in exactly every round that the period predicts.\<close>

lemma poll_rounds_from:
  assumes "\<not> want env" "0 < sint (interval env)" "sint (interval env) \<le> 4611686018427387904"
    and p: "0 < p" "p \<le> 4294967296" and K: "K = cycles_for (sint (interval env)) p"
  shows "0 \<le> j \<Longrightarrow> j < K \<Longrightarrow> i < n \<Longrightarrow>
    poll_rounds (send env) p (j * p) n ! i \<longleftrightarrow> K dvd j + 1 + int i"
proof (induction n arbitrary: j i)
  case 0
  then show ?case by simp
next
  case (Suc n)
  let ?r = "sint (interval env)"
  have K1: "1 \<le> K" using cycles_for_bounds(1) [OF p(1)] K by simp
  have "K * p \<le> ?r + p" unfolding K using p(1) assms(2) by (intro cycles_for_upper) simp_all
  moreover have "(j + 1) * p \<le> K * p" using Suc.prems p by (intro mult_right_mono) simp_all
  ultimately have "(j + 1) * p < 9223372036854775808" using assms(3) p by linarith
  moreover have "0 \<le> (j + 1) * p" using Suc.prems p by simp
  ultimately have "sint (word_of_int ((j + 1) * p) :: goint) = (j + 1) * p"
    by (intro sint64_of_nonneg_int)
  moreover have "(j + 1) * p = j * p + p" by (simp add: algebra_simps)
  ultimately have since: "sint (word_of_int (j * p + p) :: goint) = (j + 1) * p" by simp
  have send_iff_due: "send env (word_of_int (j * p + p)) \<longleftrightarrow> ?r \<le> (j + 1) * p"
    unfolding send_iff since using assms(1,2) by linarith
  have send: "send env (word_of_int (j * p + p)) \<longleftrightarrow> j + 1 = K"
    unfolding send_iff_due
  proof
    assume "?r \<le> (j + 1) * p"
    then show "j + 1 = K"
      using cycles_for_bounds(3) [OF p(1), of "j + 1" ?r] Suc.prems K by fastforce
  next
    assume "j + 1 = K"
    then show "?r \<le> (j + 1) * p" using cycles_for_bounds(2) [OF p(1), of ?r] K by simp
  qed
  show ?case
  proof (cases "j + 1 = K")
    case True
    then have "poll_rounds (send env) p (j * p) (Suc n) = True # poll_rounds (send env) p 0 n"
      using send by simp
    moreover have "K dvd K + x \<longleftrightarrow> K dvd x" for x by simp
    ultimately show ?thesis
      using True Suc.IH [of 0 "i - 1"] Suc.prems K1 by (cases i) (auto simp: add.commute)
  next
    case False
    then have "poll_rounds (send env) p (j * p) (Suc n) = False # poll_rounds (send env) p ((j + 1) * p) n"
      using send by (simp add: algebra_simps)
    moreover have "\<not> K dvd j + 1" using False Suc.prems by (auto dest: zdvd_imp_le)
    ultimately show ?thesis
      using False Suc.IH [of "j + 1" "i - 1"] Suc.prems by (cases i) (auto simp: add.assoc)
  qed
qed

lemma rounds_predicted:
  assumes "\<not> want env" "0 < sint (interval env)" "sint (interval env) \<le> 4611686018427387904"
    and "0 < sint poll" "sint poll \<le> 4294967296" "i < n"
  shows "poll_rounds (send env) (sint poll) 0 n ! i \<longleftrightarrow>
    sint (period (interval env) poll) dvd (int i + 1) * sint poll"
  using poll_rounds_from [OF assms(1,2,3,4,5) refl, of 0 i n] assms(4,6)
    cycles_for_bounds(1) [OF assms(4), of "sint (interval env)"]
  by (simp add: period_value [OF assms(4,3)] add.commute)

end

lemma zero_envelope_wants [simp]:
  "WantFullReport zero_envelope = False" "WantHostReport zero_envelope = False"
  by (simp_all add: zero_envelope_def)

lemma ShouldSend_zero_envelope:
  "ShouldSendFull (zero_envelope\<lparr>FullReportSeconds := req\<rparr>) s \<longleftrightarrow> sint req \<le> 0 \<or> sint req \<le> sint s"
  "ShouldSendHost (zero_envelope\<lparr>HostReportSeconds := req\<rparr>) s \<longleftrightarrow> sint req \<le> 0 \<or> sint req \<le> sint s"
  by (auto simp: ShouldSendFull_def ShouldSendHost_def zero_envelope_def)

interpretation full_cadence: report_cadence ShouldSendFull WantFullReport FullReportSeconds
    EffectiveFullReportPeriod
  by unfold_locales
    (auto simp: ShouldSendFull_def EffectiveFullReportPeriod_def ShouldSend_zero_envelope
      rounded_period_def Let_def DefaultNextPollSeconds_def)

interpretation host_cadence: report_cadence ShouldSendHost WantHostReport HostReportSeconds
    EffectiveHostReportPeriod
  by unfold_locales
    (auto simp: ShouldSendHost_def EffectiveHostReportPeriod_def ShouldSend_zero_envelope
      rounded_period_def Let_def DefaultNextPollSeconds_def)


lemma cycles_for_span:
  assumes "0 < poll" "0 < req"
  shows "cycles_for req poll * poll < req + poll"
proof -
  have "(req + poll - 1) div poll * poll \<le> req + poll - 1"
    using pos_mod_sign [OF assms(1), of "req + poll - 1"] div_mult_mod_eq [of "req + poll - 1" poll]
    by linarith
  then show ?thesis using assms by (auto simp: cycles_for_def)
qed

text \<open>The poll interval in force: the envelope's, or the published default when it has none.\<close>

definition poll_seconds :: "Envelope \<Rightarrow> goint" where
  "poll_seconds env =
     (if sint (NextPollSeconds env) \<le> 0 then word_of_int DefaultNextPollSeconds else NextPollSeconds env)"

lemma validated_poll:
  assumes "ValidateEnvelope env = None"
  shows "0 < sint (poll_seconds env)" "sint (poll_seconds env) \<le> 3600"
  using assms by (auto simp: ValidateEnvelope_iff envelope_ok_def poll_seconds_def DefaultNextPollSeconds_def)

lemma validated_intervals:
  assumes "ValidateEnvelope env = None"
  shows "sint (FullReportSeconds env) \<le> 86400" "sint (HostReportSeconds env) \<le> 3600"
  using assms by (auto simp: ValidateEnvelope_iff envelope_ok_def)

lemma poll_seconds_period:
  "EffectiveFullReportPeriod req (NextPollSeconds env) = EffectiveFullReportPeriod req (poll_seconds env)"
  "EffectiveHostReportPeriod req (NextPollSeconds env) = EffectiveHostReportPeriod req (poll_seconds env)"
  by (simp_all add: poll_seconds_def full_cadence.period_default_poll host_cadence.period_default_poll)

section \<open>Properties\<close>

text \<open>
  \<open>ValidateSyncResponse\<close> accepts a response exactly when its envelope carries no
  negative instant, age or headroom, polls within an hour, asks for full reports within a
  day and for host telemetry never or every five seconds to an hour, and its tasks are
  acceptable; the contents of the three segments do not matter to it.
\<close>

theorem ValidateSyncResponse_accepts_exactly:
  "ValidateSyncResponse r = None \<longleftrightarrow>
    envelope_ok (sr_Envelope r) \<and>
    length (sr_Tasks r) \<le> 64 \<and> list_all task_ok (sr_Tasks r) \<and> distinct (map t_ID (sr_Tasks r)) \<and>
    sum_list (map (\<lambda>t. len (t_Args t)) (sr_Tasks r)) \<le> 4 * 2 ^ 20"
  by (auto simp: ValidateSyncResponse_def accepts)

text \<open>
  C24. PSP predicts the agent's full reports exactly: under a validated envelope that
  asks for full reports every so often, an agent that polls at the interval in force sends
  one in round \<open>i\<close> exactly when \<open>EffectiveFullReportPeriod\<close> divides the time elapsed, and
  that period is the requested one rounded up to the poll: never shorter, and longer by
  less than one poll unless the poll itself is the longer.
\<close>

theorem full_reports_predicted:
  assumes "ValidateEnvelope env = None" "\<not> WantFullReport env" "0 < sint (FullReportSeconds env)" "i < n"
  defines "period \<equiv> sint (EffectiveFullReportPeriod (FullReportSeconds env) (NextPollSeconds env))"
    and "poll \<equiv> sint (poll_seconds env)"
  shows "(poll_rounds (ShouldSendFull env) poll 0 n ! i \<longleftrightarrow> period dvd (int i + 1) * poll) \<and>
    sint (FullReportSeconds env) \<le> period \<and> period < sint (FullReportSeconds env) + poll"
  using validated_poll [OF assms(1)] validated_intervals [OF assms(1)]
    full_cadence.rounds_predicted [OF assms(2,3), of "poll_seconds env" i n]
    full_cadence.period_value [of "poll_seconds env" "FullReportSeconds env"] assms(3,4)
    cycles_for_bounds(2) [of poll "sint (FullReportSeconds env)"]
    cycles_for_span [of poll "sint (FullReportSeconds env)"]
  by (simp add: period_def poll_def poll_seconds_period)

definition paced_envelope :: Envelope where
  "paced_envelope = zero_envelope\<lparr>NextPollSeconds := 30, FullReportSeconds := 100, HostReportSeconds := 45\<rparr>"

lemma paced_envelope_valid: "ValidateEnvelope paced_envelope = None"
  by (simp add: ValidateEnvelope_iff envelope_ok_def paced_envelope_def zero_envelope_def)

theorem full_reports_predicted_witness:
  "poll_rounds (ShouldSendFull paced_envelope) 30 0 8 ! 7 \<and>
   sint (EffectiveFullReportPeriod 100 30) = 120"
proof -
  have "EffectiveFullReportPeriod 100 30 = 120"
    by (simp add: EffectiveFullReportPeriod_def ShouldSend_zero_envelope go_div_def go_mod_def Let_def)
  then show ?thesis
    using full_reports_predicted [OF paced_envelope_valid, of 7 8]
    by (simp add: paced_envelope_def zero_envelope_def poll_seconds_def)
qed

text \<open>
  The same for host telemetry: the samples an agent attaches under a validated
  envelope fall exactly on the multiples of \<open>EffectiveHostReportPeriod\<close>, which is the
  requested cadence rounded up to the poll (45 seconds on a 30-second poll is 60).
\<close>

theorem host_reports_predicted:
  assumes "ValidateEnvelope env = None" "\<not> WantHostReport env" "0 < sint (HostReportSeconds env)" "i < n"
  defines "period \<equiv> sint (EffectiveHostReportPeriod (HostReportSeconds env) (NextPollSeconds env))"
    and "poll \<equiv> sint (poll_seconds env)"
  shows "(poll_rounds (ShouldSendHost env) poll 0 n ! i \<longleftrightarrow> period dvd (int i + 1) * poll) \<and>
    sint (HostReportSeconds env) \<le> period \<and> period < sint (HostReportSeconds env) + poll"
  using validated_poll [OF assms(1)] validated_intervals [OF assms(1)]
    host_cadence.rounds_predicted [OF assms(2,3), of "poll_seconds env" i n]
    host_cadence.period_value [of "poll_seconds env" "HostReportSeconds env"] assms(3,4)
    cycles_for_bounds(2) [of poll "sint (HostReportSeconds env)"]
    cycles_for_span [of poll "sint (HostReportSeconds env)"]
  by (simp add: period_def poll_def poll_seconds_period)

theorem host_reports_predicted_witness:
  "poll_rounds (ShouldSendHost paced_envelope) 30 0 4 ! 3 \<and>
   sint (EffectiveHostReportPeriod 45 30) = 60"
proof -
  have "EffectiveHostReportPeriod 45 30 = 60"
    by (simp add: EffectiveHostReportPeriod_def ShouldSend_zero_envelope go_div_def go_mod_def Let_def)
  then show ?thesis
    using host_reports_predicted [OF paced_envelope_valid, of 3 4]
    by (simp add: paced_envelope_def zero_envelope_def poll_seconds_def)
qed

end
