(* ===== verification/Compatibility.thy ===== *)
theory Compatibility
  imports Tasks
begin

text \<open>
  \<open>protocol/compatibility.go\<close>: the control plane's reading of a reported wire generation
  and capability list. The base protocol and the optional upgrade capability are judged
  separately, and the range of supported generations is the caller's.
\<close>

section \<open>The assessment\<close>

definition TaskKindAgentUpgradeV1 :: string where
  [wire_consts]: "TaskKindAgentUpgradeV1 = ''agent.upgrade.v1''"

definition MinSupportedProtocolVersion :: int where
  [wire_consts]: "MinSupportedProtocolVersion = ProtocolVersion1"

definition MaxSupportedProtocolVersion :: int where
  [wire_consts]: "MaxSupportedProtocolVersion = ProtocolVersion1"

record Compatibility =
  ReportedProtocolVersion :: goint
  EffectiveVersion :: goint
  ProtocolSupported :: bool
  TaskExecution :: bool
  TaskExpiry :: bool
  AgentUpgrade :: bool
  MissingAgentUpgrade :: "string list"

record GenerationRange =
  gr_Min :: goint
  gr_Max :: goint

definition EffectiveProtocolVersion :: "goint \<Rightarrow> goint" where
  "EffectiveProtocolVersion reported = (if reported = 0 then word_of_int ProtocolVersion1 else reported)"

definition AgentUpgradeCapabilities :: "string list" where
  "AgentUpgradeCapabilities =
     [CapabilityTaskExecutionV1, CapabilityTaskExpiryV1, TaskCapability TaskKindAgentUpgradeV1]"

definition SupportedGenerationRange :: GenerationRange where
  "SupportedGenerationRange =
     \<lparr>gr_Min = word_of_int MinSupportedProtocolVersion, gr_Max = word_of_int MaxSupportedProtocolVersion\<rparr>"

text \<open>The loop that collects the required capabilities that are not present.\<close>

fun missing_from :: "string set \<Rightarrow> string list \<Rightarrow> string list \<Rightarrow> string list" where
  "missing_from present missing [] = missing"
| "missing_from present missing (required # rest) =
     missing_from present (if required \<in> present then missing else missing @ [required]) rest"

definition AssessCompatibilityIn :: "goint \<Rightarrow> string list \<Rightarrow> GenerationRange \<Rightarrow> Compatibility" where
  "AssessCompatibilityIn reported capabilities supported =
     (let effective = EffectiveProtocolVersion reported;
          ok = (sint effective \<ge> sint (gr_Min supported) \<and> sint effective \<le> sint (gr_Max supported));
          present = fold insert capabilities {};
          missing = missing_from present [] AgentUpgradeCapabilities
      in \<lparr>ReportedProtocolVersion = reported, EffectiveVersion = effective, ProtocolSupported = ok,
          TaskExecution = (CapabilityTaskExecutionV1 \<in> present),
          TaskExpiry = (CapabilityTaskExpiryV1 \<in> present),
          AgentUpgrade = (ok \<and> length missing = 0), MissingAgentUpgrade = missing\<rparr>)"

definition AssessCompatibility :: "goint \<Rightarrow> string list \<Rightarrow> Compatibility" where
  "AssessCompatibility reported capabilities =
     AssessCompatibilityIn reported capabilities SupportedGenerationRange"

section \<open>What it decides\<close>

lemma fold_insert_set: "fold insert xs A = set xs \<union> A"
  by (induction xs arbitrary: A) auto

lemma missing_from_filter: "missing_from present ms rs = ms @ filter (\<lambda>r. r \<notin> present) rs"
  by (induction rs arbitrary: ms) auto

definition generation_supported :: "goint \<Rightarrow> GenerationRange \<Rightarrow> bool" where
  "generation_supported reported g \<longleftrightarrow>
     sint (EffectiveProtocolVersion reported) \<in> {sint (gr_Min g) .. sint (gr_Max g)}"

lemma AssessCompatibilityIn_fields [simp]:
  "ProtocolSupported (AssessCompatibilityIn r caps g) \<longleftrightarrow> generation_supported r g"
  "TaskExecution (AssessCompatibilityIn r caps g) \<longleftrightarrow> CapabilityTaskExecutionV1 \<in> set caps"
  "TaskExpiry (AssessCompatibilityIn r caps g) \<longleftrightarrow> CapabilityTaskExpiryV1 \<in> set caps"
  "MissingAgentUpgrade (AssessCompatibilityIn r caps g) = filter (\<lambda>c. c \<notin> set caps) AgentUpgradeCapabilities"
  "AgentUpgrade (AssessCompatibilityIn r caps g) \<longleftrightarrow>
    generation_supported r g \<and> set AgentUpgradeCapabilities \<subseteq> set caps"
  by (auto simp: AssessCompatibilityIn_def Let_def fold_insert_set missing_from_filter
      generation_supported_def filter_empty_conv)

lemma AgentUpgrade_needs_execution:
  "AgentUpgrade (AssessCompatibilityIn r caps g) \<Longrightarrow>
    ProtocolSupported (AssessCompatibilityIn r caps g) \<and>
    TaskExecution (AssessCompatibilityIn r caps g) \<and> TaskExpiry (AssessCompatibilityIn r caps g)"
  by (auto simp: AgentUpgradeCapabilities_def)

lemma SupportedGenerationRange_only_v1:
  "generation_supported r SupportedGenerationRange \<longleftrightarrow> r = 0 \<or> r = 1"
proof -
  have "r = 1" if "sint r = 1" using that by (intro signed_word_eqI) simp
  then show ?thesis
    by (auto simp: generation_supported_def SupportedGenerationRange_def EffectiveProtocolVersion_def wire_consts)
qed

section \<open>Properties\<close>

text \<open>
  C30. Remote upgrade is fail-closed and independent of the base protocol: an agent is
  eligible exactly when its generation, where none reported is the first, lies between the
  two ends of the caller's range, compared as signed numbers, and it advertises all of
  task execution, task expiry and the upgrade task kind; the capabilities reported as
  missing are exactly the absent ones, in published order; and whether the base
  protocol is supported depends on the range alone and not on any capability.
\<close>

theorem upgrade_fail_closed:
  "(AgentUpgrade (AssessCompatibilityIn r caps g) \<longleftrightarrow>
     sint (gr_Min g) \<le> sint (if r = 0 then 1 else r) \<and> sint (if r = 0 then 1 else r) \<le> sint (gr_Max g) \<and>
     {''task.execution.v1'', ''task.expiry.v1'', ''task.agent.upgrade.v1''} \<subseteq> set caps) \<and>
   MissingAgentUpgrade (AssessCompatibilityIn r caps g) =
     filter (\<lambda>c. c \<notin> set caps) [''task.execution.v1'', ''task.expiry.v1'', ''task.agent.upgrade.v1''] \<and>
   (ProtocolSupported (AssessCompatibilityIn r caps g) \<longleftrightarrow>
     sint (gr_Min g) \<le> sint (if r = 0 then 1 else r) \<and> sint (if r = 0 then 1 else r) \<le> sint (gr_Max g))"
  by (auto simp: AgentUpgradeCapabilities_def TaskCapability_def wire_consts generation_supported_def
      EffectiveProtocolVersion_def)

text \<open>
  The deprecated wrapper keeps the first generation's meaning: exactly the reported
  versions 0 (the first peers, that omitted it) and 1 are supported, and both are judged
  as version 1.
\<close>

theorem wrapper_supports_only_v1:
  "(ProtocolSupported (AssessCompatibility r caps) \<longleftrightarrow> r = 0 \<or> r = 1) \<and>
   AgentUpgrade (AssessCompatibility 0 caps) = AgentUpgrade (AssessCompatibility 1 caps)"
  by (simp add: AssessCompatibility_def SupportedGenerationRange_only_v1)

end
