(* ===== verification/Quota.thy ===== *)
theory Quota
  imports Prelude "HOL-Library.Multiset"
begin

text \<open>
  \<open>protocol/conformance/quota.go\<close>: the fleet residual, the sum of the authorised
  ceilings minus the sum of the reported counters, in checked 64-bit arithmetic. The
  lemmas relate it to the sums over the integers.
\<close>

section \<open>Checked arithmetic\<close>

definition math_MaxInt64 :: int64 where "math_MaxInt64 = 9223372036854775807"
definition math_MinInt64 :: int64 where "math_MinInt64 = - 9223372036854775808"

definition checkedAdd :: "int64 \<Rightarrow> int64 \<Rightarrow> int64 \<times> bool" where
  "checkedAdd a b =
     (if sint b > 0 \<and> sint a > sint (math_MaxInt64 - b) then (0, False) else (a + b, True))"

definition checkedSub :: "int64 \<Rightarrow> int64 \<Rightarrow> int64 \<times> bool" where
  "checkedSub a b =
     (if sint b > 0 \<and> sint a < sint (math_MinInt64 + b) then (0, False) else (a - b, True))"

lemma sint_math_bounds [simp]:
  "sint math_MaxInt64 = 9223372036854775807" "sint math_MinInt64 = - 9223372036854775808"
  by (simp_all add: math_MaxInt64_def math_MinInt64_def)

lemma sint64_range: "- 9223372036854775808 \<le> sint (x :: int64)" "sint (x :: int64) < 9223372036854775808"
  using sint64_bounds [of x] by simp_all

lemma checkedAdd_nonneg:
  assumes "0 \<le> sint b"
  shows "checkedAdd a b = (if sint a + sint b < 2 ^ 63 then (a + b, True) else (0, False))"
    and "sint a + sint b < 2 ^ 63 \<Longrightarrow> sint (a + b) = sint a + sint b"
proof -
  have "sint (math_MaxInt64 - b) = 9223372036854775807 - sint b"
    using assms sint64_range [of b] by (subst sint64_minus) simp_all
  then show "checkedAdd a b = (if sint a + sint b < 2 ^ 63 then (a + b, True) else (0, False))"
    using assms sint64_range [of a] by (auto simp: checkedAdd_def)
  show "sint (a + b) = sint a + sint b" if "sint a + sint b < 2 ^ 63"
    using that assms sint64_range [of a] by (intro sint64_plus) simp_all
qed

lemma checkedSub_nonneg:
  assumes "0 \<le> sint b"
  shows "checkedSub a b = (if - (2 ^ 63) \<le> sint a - sint b then (a - b, True) else (0, False))"
    and "- (2 ^ 63) \<le> sint a - sint b \<Longrightarrow> sint (a - b) = sint a - sint b"
proof -
  have "sint (math_MinInt64 + b) = sint b - 9223372036854775808"
    using assms sint64_range [of b] by (subst sint64_plus) simp_all
  then show "checkedSub a b = (if - (2 ^ 63) \<le> sint a - sint b then (a - b, True) else (0, False))"
    using assms sint64_range [of a] by (auto simp: checkedSub_def)
  show "sint (a - b) = sint a - sint b" if "- (2 ^ 63) \<le> sint a - sint b"
    using that assms sint64_range [of a] by (intro sint64_minus) simp_all
qed

section \<open>The assessment\<close>

record QuotaRow =
  qr_BaselineBytes :: int64
  qr_HeadroomBytes :: int64
  qr_LatestReportedBytes :: int64

record FleetQuotaInput =
  fq_LimitBytes :: int64
  fq_Rows :: "QuotaRow list"
  fq_NumeratorAsOfMS :: int64
  fq_OldestReportAgeMS :: int64

definition ReportedAtOrBelowLimit :: string where
  "ReportedAtOrBelowLimit = ''reported_at_or_below_limit''"
definition ReportedAboveLimit :: string where
  "ReportedAboveLimit = ''reported_above_limit''"

record FleetQuotaAssessment =
  fa_LatestReportedBytes :: int64
  fa_OverburnHeadroomBytes :: int64
  fa_NumeratorAsOfMS :: int64
  fa_OldestReportAgeMS :: int64
  fa_ReportedLimitPosition :: string

datatype quota_error =
    NegativeQuotaInput
  | NegativeQuotaRow nat
  | RowCeilingOverflow nat
  | FleetCeilingOverflow
  | FleetReportedOverflow
  | FleetResidualOverflow

definition AssessFleetQuota_step :: "int64 \<times> int64 \<Rightarrow> nat \<times> QuotaRow \<Rightarrow> quota_error + (int64 \<times> int64)" where
  "AssessFleetQuota_step st ir =
     (let (ceilings, reported) = st; (i, row) = ir;
          (ceiling, ok) = checkedAdd (qr_BaselineBytes row) (qr_HeadroomBytes row);
          (ceilings', ok') = checkedAdd ceilings ceiling;
          (reported', ok'') = checkedAdd reported (qr_LatestReportedBytes row)
      in after_checks
        [check (sint (qr_BaselineBytes row) < 0 \<or> sint (qr_HeadroomBytes row) < 0 \<or>
           sint (qr_LatestReportedBytes row) < 0) (NegativeQuotaRow i),
         check (\<not> ok) (RowCeilingOverflow i),
         check (\<not> ok') FleetCeilingOverflow,
         check (\<not> ok'') FleetReportedOverflow]
        (ceilings', reported'))"

definition AssessFleetQuota :: "FleetQuotaInput \<Rightarrow> quota_error + FleetQuotaAssessment" where
  "AssessFleetQuota inp =
     (if sint (fq_LimitBytes inp) < 0 \<or> sint (fq_NumeratorAsOfMS inp) < 0 \<or>
         sint (fq_OldestReportAgeMS inp) < 0 then Inl NegativeQuotaInput
      else case for_range AssessFleetQuota_step (0, 0) (enumerate 0 (fq_Rows inp)) of
        Inl e \<Rightarrow> Inl e
      | Inr (ceilings, reported) \<Rightarrow>
          (let (residual, ok) = checkedSub ceilings reported;
               position = (if sint reported > sint (fq_LimitBytes inp) then ReportedAboveLimit
                 else ReportedAtOrBelowLimit)
           in if \<not> ok then Inl FleetResidualOverflow
              else Inr \<lparr>fa_LatestReportedBytes = reported, fa_OverburnHeadroomBytes = residual,
                fa_NumeratorAsOfMS = fq_NumeratorAsOfMS inp, fa_OldestReportAgeMS = fq_OldestReportAgeMS inp,
                fa_ReportedLimitPosition = position\<rparr>))"

section \<open>The sums over the integers\<close>

definition row_ok :: "QuotaRow \<Rightarrow> bool" where
  "row_ok r \<longleftrightarrow> 0 \<le> sint (qr_BaselineBytes r) \<and> 0 \<le> sint (qr_HeadroomBytes r) \<and>
     0 \<le> sint (qr_LatestReportedBytes r)"

definition ceiling_of :: "QuotaRow \<Rightarrow> int" where
  "ceiling_of r = sint (qr_BaselineBytes r) + sint (qr_HeadroomBytes r)"

definition fleet_ceiling :: "QuotaRow list \<Rightarrow> int" where
  "fleet_ceiling rows = sum_list (map ceiling_of rows)"

definition fleet_reported :: "QuotaRow list \<Rightarrow> int" where
  "fleet_reported rows = sum_list (map (\<lambda>r. sint (qr_LatestReportedBytes r)) rows)"

lemma fleet_simps [simp]:
  "fleet_ceiling [] = 0" "fleet_ceiling (r # rs) = ceiling_of r + fleet_ceiling rs"
  "fleet_reported [] = 0" "fleet_reported (r # rs) = sint (qr_LatestReportedBytes r) + fleet_reported rs"
  by (simp_all add: fleet_ceiling_def fleet_reported_def)

lemma fleet_nonneg: "list_all row_ok rows \<Longrightarrow> 0 \<le> fleet_ceiling rows \<and> 0 \<le> fleet_reported rows"
  by (induction rows) (auto simp: row_ok_def ceiling_of_def)

lemma AssessFleetQuota_step_accepts:
  assumes "0 \<le> sint c" "0 \<le> sint d"
  shows "(\<exists>st. AssessFleetQuota_step (c, d) (i, r) = Inr st) \<longleftrightarrow>
      row_ok r \<and> sint c + ceiling_of r < 2 ^ 63 \<and> sint d + sint (qr_LatestReportedBytes r) < 2 ^ 63"
    and "AssessFleetQuota_step (c, d) (i, r) = Inr (c', d') \<Longrightarrow>
      sint c' = sint c + ceiling_of r \<and> sint d' = sint d + sint (qr_LatestReportedBytes r)"
proof -
  let ?b = "qr_BaselineBytes r" and ?h = "qr_HeadroomBytes r" and ?l = "qr_LatestReportedBytes r"
  have "(AssessFleetQuota_step (c, d) (i, r) = Inr (c', d') \<longleftrightarrow>
      row_ok r \<and> sint c + ceiling_of r < 2 ^ 63 \<and> sint d + sint ?l < 2 ^ 63 \<and>
      c' = c + (?b + ?h) \<and> d' = d + ?l) \<and>
    (row_ok r \<and> sint c + ceiling_of r < 2 ^ 63 \<and> sint d + sint ?l < 2 ^ 63 \<longrightarrow>
      sint (c + (?b + ?h)) = sint c + ceiling_of r \<and> sint (d + ?l) = sint d + sint ?l)" for c' d'
  proof (cases "row_ok r")
    case False
    then show ?thesis by (auto simp: AssessFleetQuota_step_def row_ok_def split: prod.splits)
  next
    case True
    then have nn: "0 \<le> sint ?b" "0 \<le> sint ?h" "0 \<le> sint ?l" by (simp_all add: row_ok_def)
    show ?thesis
    proof (cases "sint ?b + sint ?h < 2 ^ 63")
      case False
      then show ?thesis using True nn assms
        by (auto simp: AssessFleetQuota_step_def checkedAdd_nonneg(1) ceiling_of_def split: prod.splits)
    next
      case fits: True
      then have "sint (?b + ?h) = sint ?b + sint ?h" using checkedAdd_nonneg(2) nn by blast
      then show ?thesis using True nn fits assms
        checkedAdd_nonneg(2) [of "?b + ?h" c] checkedAdd_nonneg(2) [of ?l d]
        by (auto simp: AssessFleetQuota_step_def checkedAdd_nonneg(1) ceiling_of_def row_ok_def
            split: prod.splits)
    qed
  qed
  then show "(\<exists>st. AssessFleetQuota_step (c, d) (i, r) = Inr st) \<longleftrightarrow>
      row_ok r \<and> sint c + ceiling_of r < 2 ^ 63 \<and> sint d + sint ?l < 2 ^ 63"
    and "AssessFleetQuota_step (c, d) (i, r) = Inr (c', d') \<Longrightarrow>
      sint c' = sint c + ceiling_of r \<and> sint d' = sint d + sint ?l"
    by auto
qed


lemma quota_loop_value:
  "0 \<le> sint c \<Longrightarrow> 0 \<le> sint d \<Longrightarrow>
    for_range AssessFleetQuota_step (c, d) (enumerate i rows) = Inr (c', d') \<Longrightarrow>
    list_all row_ok rows \<and> sint c' = sint c + fleet_ceiling rows \<and> sint d' = sint d + fleet_reported rows"
proof (induction rows arbitrary: c d i)
  case Nil
  then show ?case by simp
next
  case (Cons r rows)
  from Cons.prems obtain c1 d1 where
    step: "AssessFleetQuota_step (c, d) (i, r) = Inr (c1, d1)" and
    loop: "for_range AssessFleetQuota_step (c1, d1) (enumerate (Suc i) rows) = Inr (c', d')"
    by (auto split: sum.splits)
  note this1 = AssessFleetQuota_step_accepts [OF Cons.prems(1,2), of i r]
  have "row_ok r" "sint c1 = sint c + ceiling_of r" "sint d1 = sint d + sint (qr_LatestReportedBytes r)"
    using this1 step by auto
  moreover from this have "0 \<le> sint c1" "0 \<le> sint d1"
    using Cons.prems by (auto simp: row_ok_def ceiling_of_def)
  ultimately show ?case using Cons.IH [OF _ _ loop] by auto
qed

lemma quota_loop_accepts:
  "0 \<le> sint c \<Longrightarrow> 0 \<le> sint d \<Longrightarrow>
    (\<exists>st. for_range AssessFleetQuota_step (c, d) (enumerate i rows) = Inr st) \<longleftrightarrow>
      list_all row_ok rows \<and> sint c + fleet_ceiling rows < 2 ^ 63 \<and> sint d + fleet_reported rows < 2 ^ 63"
proof (induction rows arbitrary: c d i)
  case Nil
  then show ?case using sint64_bounds [of c] sint64_bounds [of d] by simp
next
  case (Cons r rows)
  note acc = AssessFleetQuota_step_accepts [OF Cons.prems, of i r]
  show ?case
  proof (cases "AssessFleetQuota_step (c, d) (i, r)")
    case (Inl e)
    then have "\<not> (row_ok r \<and> sint c + ceiling_of r < 2 ^ 63 \<and> sint d + sint (qr_LatestReportedBytes r) < 2 ^ 63)"
      using acc(1) by auto
    with Inl show ?thesis using fleet_nonneg [of rows] by auto
  next
    case (Inr st)
    obtain c1 d1 where st: "st = (c1, d1)" by fastforce
    with Inr acc have *: "row_ok r" "sint c1 = sint c + ceiling_of r"
      "sint d1 = sint d + sint (qr_LatestReportedBytes r)" by auto
    then have "0 \<le> sint c1" "0 \<le> sint d1"
      using Cons.prems by (auto simp: row_ok_def ceiling_of_def)
    with Inr st * Cons.IH [of c1 d1 "Suc i"] show ?thesis by (simp add: add.assoc)
  qed
qed

definition quota_input_ok :: "FleetQuotaInput \<Rightarrow> bool" where
  "quota_input_ok inp \<longleftrightarrow>
     0 \<le> sint (fq_LimitBytes inp) \<and> 0 \<le> sint (fq_NumeratorAsOfMS inp) \<and>
     0 \<le> sint (fq_OldestReportAgeMS inp) \<and> list_all row_ok (fq_Rows inp) \<and>
     fleet_ceiling (fq_Rows inp) < 2 ^ 63 \<and> fleet_reported (fq_Rows inp) < 2 ^ 63"

definition assessment_exact :: "FleetQuotaInput \<Rightarrow> FleetQuotaAssessment \<Rightarrow> bool" where
  "assessment_exact inp a \<longleftrightarrow>
     sint (fa_LatestReportedBytes a) = fleet_reported (fq_Rows inp) \<and>
     sint (fa_OverburnHeadroomBytes a) = fleet_ceiling (fq_Rows inp) - fleet_reported (fq_Rows inp) \<and>
     fa_NumeratorAsOfMS a = fq_NumeratorAsOfMS inp \<and> fa_OldestReportAgeMS a = fq_OldestReportAgeMS inp \<and>
     fa_ReportedLimitPosition a =
       (if fleet_reported (fq_Rows inp) > sint (fq_LimitBytes inp) then ReportedAboveLimit
        else ReportedAtOrBelowLimit)"

lemma residual_never_overflows:
  assumes "0 \<le> sint c" "0 \<le> sint d"
  shows "checkedSub c d = (c - d, True)" "sint (c - d) = sint c - sint d"
proof -
  have "- (2 ^ 63) \<le> sint c - sint d" using assms sint64_range [of d] by simp
  then show "checkedSub c d = (c - d, True)" "sint (c - d) = sint c - sint d"
    using checkedSub_nonneg [OF assms(2), of c] by auto
qed

lemma AssessFleetQuota_exact:
  "(\<exists>a. AssessFleetQuota inp = Inr a) \<longleftrightarrow> quota_input_ok inp"
  "AssessFleetQuota inp = Inr a \<Longrightarrow> assessment_exact inp a"
proof -
  let ?loop = "for_range AssessFleetQuota_step (0, 0) (enumerate 0 (fq_Rows inp))"
  have acc: "(\<exists>st. ?loop = Inr st) \<longleftrightarrow> list_all row_ok (fq_Rows inp) \<and>
      fleet_ceiling (fq_Rows inp) < 2 ^ 63 \<and> fleet_reported (fq_Rows inp) < 2 ^ 63"
    using quota_loop_accepts [of 0 0 0 "fq_Rows inp"] by simp
  have val: "0 \<le> sint c \<and> 0 \<le> sint d \<and> sint c = fleet_ceiling (fq_Rows inp) \<and>
      sint d = fleet_reported (fq_Rows inp)" if "?loop = Inr (c, d)" for c d
    using quota_loop_value [OF _ _ that] fleet_nonneg [of "fq_Rows inp"] by auto
  show "(\<exists>a. AssessFleetQuota inp = Inr a) \<longleftrightarrow> quota_input_ok inp"
    using acc val by (cases ?loop)
      (auto simp: AssessFleetQuota_def quota_input_ok_def residual_never_overflows split: prod.splits)
  show "assessment_exact inp a" if "AssessFleetQuota inp = Inr a"
    using that val by (cases ?loop)
      (auto simp: AssessFleetQuota_def assessment_exact_def residual_never_overflows
        split: prod.splits if_splits)
qed

lemma fleet_sums_mset:
  assumes "mset rows = mset rows'"
  shows "fleet_ceiling rows = fleet_ceiling rows'" "fleet_reported rows = fleet_reported rows'"
    "list_all row_ok rows = list_all row_ok rows'"
  using assms mset_eq_setD [OF assms]
  by (auto simp: fleet_ceiling_def fleet_reported_def list_all_iff
      simp flip: sum_mset_sum_list)

lemma assessment_unique: "assessment_exact inp a \<Longrightarrow> assessment_exact inp b \<Longrightarrow> a = b"
proof -
  assume "assessment_exact inp a" "assessment_exact inp b"
  then have "fa_LatestReportedBytes a = fa_LatestReportedBytes b"
    "fa_OverburnHeadroomBytes a = fa_OverburnHeadroomBytes b"
    by (auto simp: assessment_exact_def intro!: sint64_eqI)
  with \<open>assessment_exact inp a\<close> \<open>assessment_exact inp b\<close> show "a = b"
    by (auto simp: assessment_exact_def)
qed

section \<open>Properties\<close>

text \<open>
  C11. The residual is computed exactly or not at all: an assessment is returned precisely
  when nothing in the input is negative and neither fleet total leaves 64 bits (so no
  individual step reports a spurious overflow), and never because the residual itself
  overflows; the returned residual is the integer difference of the two sums, unclamped
  and possibly negative, and the position compares the reported sum with the limit.
\<close>

theorem AssessFleetQuota_exact_or_error:
  "((\<exists>a. AssessFleetQuota inp = Inr a) \<longleftrightarrow> quota_input_ok inp) \<and>
   (\<forall>a. AssessFleetQuota inp = Inr a \<longrightarrow> assessment_exact inp a) \<and>
   AssessFleetQuota inp \<noteq> Inl FleetResidualOverflow"
proof -
  have "AssessFleetQuota_step st ir \<noteq> Inl FleetResidualOverflow" for st ir
    by (auto simp: AssessFleetQuota_step_def Let_def split: prod.splits dest!: first_error_in)
  then have "for_range AssessFleetQuota_step s xs \<noteq> Inl FleetResidualOverflow" for s xs
    by (auto dest: for_range_errorD)
  then have "AssessFleetQuota inp \<noteq> Inl FleetResidualOverflow"
    using quota_loop_value [of 0 0 0 "fq_Rows inp"] fleet_nonneg [of "fq_Rows inp"]
    by (auto simp: AssessFleetQuota_def residual_never_overflows split: sum.splits prod.splits)
  then show ?thesis using AssessFleetQuota_exact by blast
qed

definition overburned_fleet :: FleetQuotaInput where
  "overburned_fleet = \<lparr>fq_LimitBytes = 100,
     fq_Rows = [\<lparr>qr_BaselineBytes = 10, qr_HeadroomBytes = 5, qr_LatestReportedBytes = 40\<rparr>,
       \<lparr>qr_BaselineBytes = 20, qr_HeadroomBytes = 0, qr_LatestReportedBytes = 65\<rparr>],
     fq_NumeratorAsOfMS = 1, fq_OldestReportAgeMS = 2\<rparr>"

lemma overburned_fleet_ok:
  "quota_input_ok overburned_fleet" "quota_input_ok (overburned_fleet\<lparr>fq_Rows := rev (fq_Rows overburned_fleet)\<rparr>)"
  by (simp_all add: quota_input_ok_def overburned_fleet_def row_ok_def ceiling_of_def)

theorem AssessFleetQuota_exact_or_error_witness:
  "\<exists>a. AssessFleetQuota overburned_fleet = Inr a \<and> sint (fa_OverburnHeadroomBytes a) = -70 \<and>
    fa_ReportedLimitPosition a = ReportedAboveLimit"
proof -
  obtain a where a: "AssessFleetQuota overburned_fleet = Inr a"
    using AssessFleetQuota_exact_or_error [of overburned_fleet] overburned_fleet_ok by blast
  then have "assessment_exact overburned_fleet a"
    using AssessFleetQuota_exact_or_error [of overburned_fleet] by blast
  with a show ?thesis
    by (auto simp: assessment_exact_def overburned_fleet_def ceiling_of_def)
qed

text \<open>
  The assessment does not depend on the order in which the fleet's rows are
  enumerated: permuting them neither changes whether it succeeds nor any of its fields.
\<close>

theorem AssessFleetQuota_order_independent:
  assumes "mset rows = mset (fq_Rows inp)" "AssessFleetQuota inp = Inr a"
  shows "AssessFleetQuota (inp\<lparr>fq_Rows := rows\<rparr>) = Inr a"
proof -
  have "quota_input_ok inp" "assessment_exact inp a"
    using AssessFleetQuota_exact assms(2) by blast+
  then have ok: "quota_input_ok (inp\<lparr>fq_Rows := rows\<rparr>)" "assessment_exact (inp\<lparr>fq_Rows := rows\<rparr>) a"
    using fleet_sums_mset [OF assms(1)] by (simp_all add: quota_input_ok_def assessment_exact_def)
  then obtain b where "AssessFleetQuota (inp\<lparr>fq_Rows := rows\<rparr>) = Inr b"
    using AssessFleetQuota_exact(1) by blast
  then show ?thesis
    using AssessFleetQuota_exact(2) assessment_unique ok(2) by blast
qed

theorem AssessFleetQuota_order_independent_witness:
  "AssessFleetQuota (overburned_fleet\<lparr>fq_Rows := rev (fq_Rows overburned_fleet)\<rparr>) =
   AssessFleetQuota overburned_fleet"
proof -
  obtain a where "AssessFleetQuota overburned_fleet = Inr a"
    using AssessFleetQuota_exact(1) overburned_fleet_ok by blast
  with AssessFleetQuota_order_independent [of "rev (fq_Rows overburned_fleet)" overburned_fleet a]
  show ?thesis by simp
qed

end
