(* ===== verification/Report.thy ===== *)
theory Report
  imports Segments Scalars
begin

text \<open>
  The observation half of the contract, \<open>protocol/report.go\<close>: the states of streams and
  objects, counters and issues, with the checks of \<open>protocol/validate.go\<close> on one stream
  state and one reported object. An accepted object status is one of four shapes, the
  datatype \<open>convergence\<close>.
\<close>

section \<open>Observations\<close>

record StreamState =
  st_Applied :: Version
  st_ETag :: ETag

type_synonym ObjectState = string

definition ObjectApplied :: ObjectState where "ObjectApplied = ''applied''"
definition ObjectPending :: ObjectState where "ObjectPending = ''pending''"
definition ObjectRejected :: ObjectState where "ObjectRejected = ''rejected''"
definition ObjectBlocked :: ObjectState where "ObjectBlocked = ''blocked''"

lemmas object_states = ObjectApplied_def ObjectPending_def ObjectRejected_def ObjectBlocked_def

record ObjectStatus =
  os_Stream :: string
  os_Key :: string
  os_State :: ObjectState
  os_SinceVersion :: Version
  os_FirstFailedAtMS :: int64
  os_IssueCode :: string
  os_BlockedOn :: string

type_synonym GateState = string

definition GateUnconfigured :: GateState where "GateUnconfigured = ''unconfigured''"
definition GateArmed :: GateState where "GateArmed = ''armed''"
definition GateClosed :: GateState where "GateClosed = ''closed''"

lemmas gate_states = GateUnconfigured_def GateArmed_def GateClosed_def

record ClientCounters =
  cc_Key :: ClientKey
  cc_Present :: bool
  cc_UpBytes :: int64
  cc_DownBytes :: int64
  cc_CounterEpoch :: uint64
  cc_Gate :: GateState
  cc_LiveIPs :: "string list"

record ListenerCounters =
  lc_Key :: ListenerKey
  lc_Present :: bool
  lc_UpBytes :: int64
  lc_DownBytes :: int64
  lc_CounterEpoch :: uint64

record SubjectObservation =
  so_Subject :: SubjectKey
  so_IPLocalCount :: goint
  so_IPWouldDenySinceLastReport :: goint

record Issue =
  i_Code :: string
  i_Key :: string
  i_Detail :: string

definition IssueRosterAheadOfConfig :: string where
  "IssueRosterAheadOfConfig = ''roster_ahead_of_config''"
definition IssueAttachmentUnknownListener :: string where
  "IssueAttachmentUnknownListener = ''attachment_unknown_listener''"
definition IssueObjectPendingTimeout :: string where
  "IssueObjectPendingTimeout = ''object_pending_timeout''"
definition IssueObjectRejectedTimeout :: string where
  "IssueObjectRejectedTimeout = ''object_rejected_timeout''"

lemmas issue_codes = IssueRosterAheadOfConfig_def IssueAttachmentUnknownListener_def
  IssueObjectPendingTimeout_def IssueObjectRejectedTimeout_def

section \<open>One stream's state\<close>

datatype stream_error =
    AppliedWithoutETag string
  | ETagNotDigest string
  | ETagNotLowercase string
  | ETagWithoutApplied string

definition validateStreamState :: "string \<Rightarrow> StreamState \<Rightarrow> stream_error option" where
  "validateStreamState stream state =
     (if st_ETag state = [] then
        (if \<not> Zero (st_Applied state) then Some (AppliedWithoutETag stream) else None)
      else case DecodeString (st_ETag state) of
        None \<Rightarrow> Some (ETagNotDigest stream)
      | Some decoded \<Rightarrow>
          if length decoded \<noteq> 32 then Some (ETagNotDigest stream)
          else if EncodeToString decoded \<noteq> st_ETag state then Some (ETagNotLowercase stream)
          else if \<not> Committed (st_Applied state) then Some (ETagWithoutApplied stream)
          else None)"

text \<open>Either nothing was ever applied, or a committed version with the digest of its bytes.\<close>

definition stream_state_ok :: "StreamState \<Rightarrow> bool" where
  "stream_state_ok s \<longleftrightarrow>
     st_ETag s = [] \<and> st_Applied s = zero_version \<or> sha256_hex (st_ETag s) \<and> Committed (st_Applied s)"

lemma validateStreamState_iff [accepts]: "validateStreamState n s = None \<longleftrightarrow> stream_state_ok s"
  using canonical_hex [of "st_ETag s" 32]
  by (auto simp: validateStreamState_def stream_state_ok_def Zero_iff sha256_hex_def split: option.split)

section \<open>One object's status\<close>

datatype object_error =
    ObjectKeyError key_error
  | InvalidObjectStream string string
  | ZeroSinceVersion string string
  | NegativeFailureTime string
  | BadIssueCode string
  | BadBlockedOn string
  | BlockedOnKeyError string key_error
  | AppliedRetainsFailure string
  | PendingNeedsStartOnly string
  | RejectedNeedsStartAndCode string
  | BlockedNeedsStartAndTarget string
  | InvalidObjectState string string

definition validateReportedObject :: "ObjectStatus \<Rightarrow> object_error option" where
  "validateReportedObject status = first_error
     [(if os_Stream status = StreamConfig
         then wrap_error ObjectKeyError (error_of (ListenerKey_RowID (ListenerKey (os_Key status))))
       else if os_Stream status = StreamRoster
         then wrap_error ObjectKeyError (error_of (ClientKey_RowID (ClientKey (os_Key status))))
       else Some (InvalidObjectStream (os_Key status) (os_Stream status))),
      check (\<not> Committed (os_SinceVersion status)) (ZeroSinceVersion (os_Stream status) (os_Key status)),
      check (sint (os_FirstFailedAtMS status) < 0) (NegativeFailureTime (os_Key status)),
      check (\<not> ValidString (os_IssueCode status) \<or> length (os_IssueCode status) > MaxIssueCodeBytes)
        (BadIssueCode (os_Key status)),
      (if os_BlockedOn status \<noteq> [] then first_error
         [check (\<not> ValidString (os_BlockedOn status) \<or> length (os_BlockedOn status) > MaxIssueKeyBytes)
            (BadBlockedOn (os_Key status)),
          wrap_error (BlockedOnKeyError (os_Key status))
            (error_of (ListenerKey_RowID (ListenerKey (os_BlockedOn status))))]
       else None),
      (if os_State status = ObjectApplied then
         check (os_FirstFailedAtMS status \<noteq> 0 \<or> os_IssueCode status \<noteq> [] \<or> os_BlockedOn status \<noteq> [])
           (AppliedRetainsFailure (os_Key status))
       else if os_State status = ObjectPending then
         check (os_FirstFailedAtMS status = 0 \<or> os_IssueCode status \<noteq> [] \<or> os_BlockedOn status \<noteq> [])
           (PendingNeedsStartOnly (os_Key status))
       else if os_State status = ObjectRejected then
         check (os_FirstFailedAtMS status = 0 \<or> os_IssueCode status = [] \<or> os_BlockedOn status \<noteq> [])
           (RejectedNeedsStartAndCode (os_Key status))
       else if os_State status = ObjectBlocked then
         check (os_FirstFailedAtMS status = 0 \<or> os_IssueCode status \<noteq> [] \<or> os_BlockedOn status = [])
           (BlockedNeedsStartAndTarget (os_Key status))
       else Some (InvalidObjectState (os_Key status) (os_State status)))]"

text \<open>How far an object got, and the four shapes an accepted status may have.\<close>

datatype convergence =
    Applied
  | Pending int64
  | Rejected int64 string
  | Blocked int64 ListenerKey

definition convergence_of :: "ObjectStatus \<Rightarrow> convergence option" where
  "convergence_of s =
     (if os_State s = ObjectApplied \<and> os_FirstFailedAtMS s = 0 \<and> os_IssueCode s = [] \<and> os_BlockedOn s = []
        then Some Applied
      else if os_State s = ObjectPending \<and> os_FirstFailedAtMS s \<noteq> 0 \<and> os_IssueCode s = [] \<and> os_BlockedOn s = []
        then Some (Pending (os_FirstFailedAtMS s))
      else if os_State s = ObjectRejected \<and> os_FirstFailedAtMS s \<noteq> 0 \<and> os_IssueCode s \<noteq> [] \<and> os_BlockedOn s = []
        then Some (Rejected (os_FirstFailedAtMS s) (os_IssueCode s))
      else if os_State s = ObjectBlocked \<and> os_FirstFailedAtMS s \<noteq> 0 \<and> os_IssueCode s = [] \<and> os_BlockedOn s \<noteq> []
        then Some (Blocked (os_FirstFailedAtMS s) (ListenerKey (os_BlockedOn s)))
      else None)"

definition issue_code_ok :: "string \<Rightarrow> bool" where
  "issue_code_ok c \<longleftrightarrow> ValidString c \<and> length c \<le> 128"

fun convergence_ok :: "convergence \<Rightarrow> bool" where
  "convergence_ok Applied \<longleftrightarrow> True"
| "convergence_ok (Pending t) \<longleftrightarrow> 0 < sint t"
| "convergence_ok (Rejected t code) \<longleftrightarrow> 0 < sint t \<and> code \<noteq> [] \<and> issue_code_ok code"
| "convergence_ok (Blocked t l) \<longleftrightarrow> 0 < sint t \<and> listener_key_ok l"

definition object_identity_ok :: "string \<Rightarrow> string \<Rightarrow> bool" where
  "object_identity_ok stream key \<longleftrightarrow>
     stream = StreamConfig \<and> listener_key_ok (ListenerKey key) \<or>
     stream = StreamRoster \<and> client_key_ok (ClientKey key)"

definition object_ok :: "ObjectStatus \<Rightarrow> bool" where
  "object_ok s \<longleftrightarrow>
     object_identity_ok (os_Stream s) (os_Key s) \<and> Committed (os_SinceVersion s) \<and>
     (case convergence_of s of None \<Rightarrow> False | Some c \<Rightarrow> convergence_ok c)"

text \<open>A key that names a row is short ASCII, so the text bounds on it are implied.\<close>

lemma minted_key_text:
  "listener_key_ok (ListenerKey s) \<Longrightarrow> ascii s \<and> s \<noteq> [] \<and> length s \<le> 24"
  "client_key_ok (ClientKey s) \<Longrightarrow> ascii s \<and> s \<noteq> [] \<and> length s \<le> 24"
  using length_FormatInt by (auto simp: key_ok_iff key_prefixes)

lemma nonneg_nonzero: "\<not> sint (t :: int64) < 0 \<and> t \<noteq> 0 \<longleftrightarrow> 0 < sint t"
  using sint64_eqI [of t 0] by (cases "sint t = 0") auto

lemma validateReportedObject_iff [accepts]: "validateReportedObject s = None \<longleftrightarrow> object_ok s"
proof -
  have key: "error_of (ListenerKey_RowID k) = None \<longleftrightarrow> listener_key_ok k"
    "error_of (ClientKey_RowID k') = None \<longleftrightarrow> client_key_ok k'" for k k'
    by (simp_all add: listener_key_ok_def client_key_ok_def)
  have pos: "0 < sint t \<longleftrightarrow> \<not> sint t < 0 \<and> t \<noteq> 0" for t :: int64
    using nonneg_nonzero by blast
  have target: "listener_key_ok (ListenerKey (os_BlockedOn s)) \<Longrightarrow>
      ValidString (os_BlockedOn s) \<and> length (os_BlockedOn s) \<le> 512"
    using minted_key_text(1) [of "os_BlockedOn s"] by (auto intro: ascii_ValidString)
  have identity: "object_identity_ok (os_Stream s) (os_Key s) \<longleftrightarrow>
      (if os_Stream s = StreamConfig then listener_key_ok (ListenerKey (os_Key s))
       else if os_Stream s = StreamRoster then client_key_ok (ClientKey (os_Key s)) else False)"
    by (auto simp: object_identity_ok_def stream_names)
  show ?thesis
    unfolding validateReportedObject_def object_ok_def identity convergence_of_def
    by (auto simp: key pos target object_states issue_code_ok_def MaxIssueCodeBytes_def
        MaxIssueKeyBytes_def not_less dest: target)
qed

section \<open>One issue\<close>

definition issue_ok :: "Issue \<Rightarrow> bool" where
  "issue_ok i \<longleftrightarrow>
     i_Code i \<noteq> [] \<and> ValidString (i_Code i) \<and> ValidString (i_Key i) \<and> ValidString (i_Detail i) \<and>
     length (i_Code i) \<le> 128 \<and> length (i_Key i) \<le> 512 \<and> length (i_Detail i) \<le> 4096"

section \<open>Properties\<close>

text \<open>
  An agent's claim to hold a stream is all or nothing: \<open>validateStreamState\<close> accepts
  exactly a state that has neither an etag nor an applied version, or a lowercase SHA-256
  etag together with a committed version.
\<close>

theorem validateStreamState_accepts_exactly:
  "validateStreamState stream s = None \<longleftrightarrow>
    st_ETag s = [] \<and> st_Applied s = zero_version \<or> sha256_hex (st_ETag s) \<and> Committed (st_Applied s)"
  by (simp add: validateStreamState_iff stream_state_ok_def)

text \<open>
  \<open>validateReportedObject\<close> accepts exactly the statuses that name an existing kind of
  row, carry a committed version and have one of the four shapes: applied with no failure
  metadata, pending since an instant, rejected since an instant with a bounded code, or
  blocked since an instant on a listener key that names a row.
\<close>

theorem validateReportedObject_accepts_exactly:
  "validateReportedObject s = None \<longleftrightarrow>
    object_identity_ok (os_Stream s) (os_Key s) \<and> Committed (os_SinceVersion s) \<and>
    (case convergence_of s of None \<Rightarrow> False | Some c \<Rightarrow> convergence_ok c)"
  by (simp add: validateReportedObject_iff object_ok_def)

end
