(* ===== verification/Attachment.thy ===== *)
theory Attachment
  imports Report
begin

text \<open>
  \<open>protocol/conformance/attachment.go\<close>: the ruling on one client-to-listener attachment.
  A version skew is waited out and reported only past the tolerated rounds; a listener
  missing once the versions are closed is a defect reported at once; otherwise the
  attachment follows its listener.
\<close>

section \<open>The ruling\<close>

type_synonym AttachmentDisposition = string

definition AttachmentReady :: AttachmentDisposition where
  "AttachmentReady = ''ready''"
definition AttachmentWaitingForConfig :: AttachmentDisposition where
  "AttachmentWaitingForConfig = ''waiting_for_config''"
definition AttachmentUnknownListener :: AttachmentDisposition where
  "AttachmentUnknownListener = ''unknown_listener''"
definition AttachmentWaitingForListener :: AttachmentDisposition where
  "AttachmentWaitingForListener = ''waiting_for_listener''"
definition AttachmentBlockedByListener :: AttachmentDisposition where
  "AttachmentBlockedByListener = ''blocked_by_listener''"

lemmas dispositions = AttachmentReady_def AttachmentWaitingForConfig_def AttachmentUnknownListener_def
  AttachmentWaitingForListener_def AttachmentBlockedByListener_def

record AttachmentInput =
  ai_ClientKey :: ClientKey
  ai_ListenerKey :: ListenerKey
  ai_RosterMinConfig :: Version
  ai_AppliedConfig :: Version
  ai_ListenerKnown :: bool
  ai_ListenerState :: ObjectState
  ai_AheadRounds :: goint
  ai_EscalateAfterRounds :: goint

record AttachmentDecision =
  ad_Disposition :: AttachmentDisposition
  ad_State :: ObjectState
  ad_Issue :: "Issue option"

datatype attachment_error =
    AttachmentKeysRequired
  | NegativeRounds
  | InvalidListenerState ListenerKey ObjectState

definition EvaluateAttachment :: "AttachmentInput \<Rightarrow> attachment_error + AttachmentDecision" where
  "EvaluateAttachment inp =
     (if client_key_string (ai_ClientKey inp) = [] \<or> listener_key_string (ai_ListenerKey inp) = []
        then Inl AttachmentKeysRequired
      else if sint (ai_AheadRounds inp) < 0 \<or> sint (ai_EscalateAfterRounds inp) < 0
        then Inl NegativeRounds
      else if Newer (ai_RosterMinConfig inp) (ai_AppliedConfig inp) then
        Inr \<lparr>ad_Disposition = AttachmentWaitingForConfig, ad_State = ObjectPending,
          ad_Issue =
            (if sint (ai_AheadRounds inp) > sint (ai_EscalateAfterRounds inp) then
               Some \<lparr>i_Code = IssueRosterAheadOfConfig, i_Key = client_key_string (ai_ClientKey inp),
                 i_Detail = ''listener '' @ listener_key_string (ai_ListenerKey inp) @
                   '' requires config '' @ Version_String (ai_RosterMinConfig inp) @
                   ''; agent has '' @ Version_String (ai_AppliedConfig inp) @
                   '' after '' @ FormatInt (sint (ai_AheadRounds inp)) @ '' rounds''\<rparr>
             else None)\<rparr>
      else if \<not> ai_ListenerKnown inp then
        Inr \<lparr>ad_Disposition = AttachmentUnknownListener, ad_State = ObjectRejected,
          ad_Issue = Some \<lparr>i_Code = IssueAttachmentUnknownListener,
            i_Key = client_key_string (ai_ClientKey inp),
            i_Detail = ''listener '' @ listener_key_string (ai_ListenerKey inp) @
              '' is absent after config versions closed''\<rparr>\<rparr>
      else if ai_ListenerState inp = ObjectApplied then
        Inr \<lparr>ad_Disposition = AttachmentReady, ad_State = ObjectApplied, ad_Issue = None\<rparr>
      else if ai_ListenerState inp = ObjectRejected then
        Inr \<lparr>ad_Disposition = AttachmentBlockedByListener, ad_State = ObjectBlocked, ad_Issue = None\<rparr>
      else if ai_ListenerState inp = ObjectPending \<or> ai_ListenerState inp = ObjectBlocked then
        Inr \<lparr>ad_Disposition = AttachmentWaitingForListener, ad_State = ObjectPending, ad_Issue = None\<rparr>
      else Inl (InvalidListenerState (ai_ListenerKey inp) (ai_ListenerState inp)))"

section \<open>The three questions it answers\<close>

definition skewed :: "AttachmentInput \<Rightarrow> bool" where
  "skewed inp \<longleftrightarrow> ai_AppliedConfig inp < ai_RosterMinConfig inp"

definition escalated :: "AttachmentInput \<Rightarrow> bool" where
  "escalated inp \<longleftrightarrow> sint (ai_EscalateAfterRounds inp) < sint (ai_AheadRounds inp)"

definition evidence_sound :: "AttachmentInput \<Rightarrow> bool" where
  "evidence_sound inp \<longleftrightarrow>
     client_key_string (ai_ClientKey inp) \<noteq> [] \<and> listener_key_string (ai_ListenerKey inp) \<noteq> [] \<and>
     0 \<le> sint (ai_AheadRounds inp) \<and> 0 \<le> sint (ai_EscalateAfterRounds inp) \<and>
     (\<not> skewed inp \<and> ai_ListenerKnown inp \<longrightarrow>
        ai_ListenerState inp \<in> {ObjectApplied, ObjectRejected, ObjectPending, ObjectBlocked})"

lemma EvaluateAttachment_total:
  "(\<exists>d. EvaluateAttachment inp = Inr d) \<longleftrightarrow> evidence_sound inp"
  by (auto simp: EvaluateAttachment_def evidence_sound_def skewed_def Newer_less)

lemma EvaluateAttachment_green:
  "EvaluateAttachment inp = Inr d \<Longrightarrow>
    ad_State d = ObjectApplied \<longleftrightarrow>
      \<not> skewed inp \<and> ai_ListenerKnown inp \<and> ai_ListenerState inp = ObjectApplied"
  by (auto simp: EvaluateAttachment_def skewed_def Newer_less object_states split: if_splits)

lemma EvaluateAttachment_issue:
  "EvaluateAttachment inp = Inr d \<Longrightarrow>
    map_option i_Code (ad_Issue d) =
      (if skewed inp then (if escalated inp then Some IssueRosterAheadOfConfig else None)
       else if ai_ListenerKnown inp then None else Some IssueAttachmentUnknownListener)"
  by (auto simp: EvaluateAttachment_def skewed_def escalated_def Newer_less split: if_splits)

lemma length_Version_String: "length (Version_String v) \<le> 41"
  using length_format_word [of "Epoch v"] length_format_word [of "VersionNo v"]
  by (simp add: Version_String_def)

lemma ascii_Version_String [simp]: "ascii (Version_String v)"
  by (simp add: Version_String_def)

lemma EvaluateAttachment_issue_ok:
  assumes "EvaluateAttachment inp = Inr d" "ad_Issue d = Some i"
    and "client_key_ok (ai_ClientKey inp)" "listener_key_ok (ai_ListenerKey inp)"
  shows "issue_ok i \<and> i_Key i = client_key_string (ai_ClientKey inp)"
proof -
  have keys: "ascii (client_key_string (ai_ClientKey inp))" "length (client_key_string (ai_ClientKey inp)) \<le> 24"
    "ascii (listener_key_string (ai_ListenerKey inp))" "length (listener_key_string (ai_ListenerKey inp)) \<le> 24"
    using minted_key_text(2) [of "client_key_string (ai_ClientKey inp)"] assms(3)
      minted_key_text(1) [of "listener_key_string (ai_ListenerKey inp)"] assms(4) by simp_all
  have "length (i_Detail i) \<le> 200 \<and> ascii (i_Detail i) \<and> i_Key i = client_key_string (ai_ClientKey inp) \<and>
      i_Code i \<in> {IssueRosterAheadOfConfig, IssueAttachmentUnknownListener}"
    using assms(1,2) keys length_Version_String [of "ai_RosterMinConfig inp"]
      length_Version_String [of "ai_AppliedConfig inp"] length_FormatInt [of "ai_AheadRounds inp"]
    by (auto simp: EvaluateAttachment_def split: if_splits)
  then show ?thesis using keys by (auto simp: issue_ok_def issue_codes ascii_ValidString)
qed

section \<open>Properties\<close>

text \<open>
  C25. An attachment is green only when a client can really be reached: a ruling is given
  for exactly the sound inputs, and it says applied exactly when the agent holds the
  config the roster requires, knows the listener, and the listener itself is applied;
  a rejected listener makes it blocked, and a skew makes it pending whatever the listener
  looks like.
\<close>

theorem attachment_green_only_when_reachable:
  "((\<exists>d. EvaluateAttachment inp = Inr d) \<longleftrightarrow> evidence_sound inp) \<and>
   (\<forall>d. EvaluateAttachment inp = Inr d \<longrightarrow>
      (ad_State d = ObjectApplied \<longleftrightarrow>
        \<not> skewed inp \<and> ai_ListenerKnown inp \<and> ai_ListenerState inp = ObjectApplied) \<and>
      (skewed inp \<longrightarrow> ad_State d = ObjectPending) \<and>
      (\<not> skewed inp \<and> ai_ListenerKnown inp \<and> ai_ListenerState inp = ObjectRejected \<longrightarrow>
        ad_State d = ObjectBlocked))"
proof (intro conjI allI impI)
  show "(\<exists>d. EvaluateAttachment inp = Inr d) \<longleftrightarrow> evidence_sound inp" by (rule EvaluateAttachment_total)
next
  fix d assume d: "EvaluateAttachment inp = Inr d"
  show "ad_State d = ObjectApplied \<longleftrightarrow>
      \<not> skewed inp \<and> ai_ListenerKnown inp \<and> ai_ListenerState inp = ObjectApplied"
    using d by (rule EvaluateAttachment_green)
  show "ad_State d = ObjectPending" if "skewed inp"
    using d that by (auto simp: EvaluateAttachment_def skewed_def Newer_less split: if_splits)
  show "ad_State d = ObjectBlocked"
    if "\<not> skewed inp \<and> ai_ListenerKnown inp \<and> ai_ListenerState inp = ObjectRejected"
    using d that by (auto simp: EvaluateAttachment_def skewed_def Newer_less object_states split: if_splits)
qed

definition skewed_attachment :: "int64 \<Rightarrow> AttachmentInput" where
  "skewed_attachment rounds = \<lparr>ai_ClientKey = NewClientKey 4, ai_ListenerKey = NewListenerKey 7,
     ai_RosterMinConfig = \<lparr>Epoch = 2, VersionNo = 1\<rparr>, ai_AppliedConfig = \<lparr>Epoch = 1, VersionNo = 9\<rparr>,
     ai_ListenerKnown = False, ai_ListenerState = ObjectApplied,
     ai_AheadRounds = rounds, ai_EscalateAfterRounds = 3\<rparr>"

lemma skewed_attachment_facts:
  "skewed (skewed_attachment r)" "0 \<le> sint r \<Longrightarrow> evidence_sound (skewed_attachment r)"
proof -
  show "skewed (skewed_attachment r)"
    by (simp add: skewed_def skewed_attachment_def less_Version_ext_def)
  then show "evidence_sound (skewed_attachment r)" if "0 \<le> sint r"
    using that by (simp add: evidence_sound_def)
      (simp add: skewed_attachment_def NewClientKey_def NewListenerKey_def key_prefixes)
qed

theorem attachment_green_only_when_reachable_witness:
  "\<exists>d. EvaluateAttachment (skewed_attachment 3) = Inr d \<and> ad_State d = ObjectPending"
  using attachment_green_only_when_reachable [of "skewed_attachment 3"] skewed_attachment_facts [of 3]
  by auto

text \<open>
  C26. The issue an attachment raises names the right party: a skew raises none for the
  tolerated rounds and roster-ahead-of-config from the next round on, a listener missing
  with the versions closed raises unknown-listener at once, and an attachment to a known
  listener raises nothing. An issue raised for minted keys is keyed by the client and
  meets every bound an outbox issue must meet.
\<close>

theorem attachment_issue_exactly:
  assumes "EvaluateAttachment inp = Inr d"
  shows "map_option i_Code (ad_Issue d) =
      (if skewed inp then (if escalated inp then Some IssueRosterAheadOfConfig else None)
       else if ai_ListenerKnown inp then None else Some IssueAttachmentUnknownListener) \<and>
    (client_key_ok (ai_ClientKey inp) \<and> listener_key_ok (ai_ListenerKey inp) \<longrightarrow>
      pred_option (\<lambda>i. issue_ok i \<and> i_Key i = client_key_string (ai_ClientKey inp)) (ad_Issue d))"
  using EvaluateAttachment_issue [OF assms] EvaluateAttachment_issue_ok [OF assms]
  by (cases "ad_Issue d") auto

theorem attachment_issue_exactly_witness:
  "\<exists>d i. EvaluateAttachment (skewed_attachment 4) = Inr d \<and> ad_Issue d = Some i \<and>
    i_Code i = IssueRosterAheadOfConfig \<and> issue_ok i"
proof -
  obtain d where d: "EvaluateAttachment (skewed_attachment 4) = Inr d"
    using EvaluateAttachment_total [of "skewed_attachment 4"] skewed_attachment_facts(2) [of 4] by auto
  have "escalated (skewed_attachment 4)" "client_key_ok (ai_ClientKey (skewed_attachment 4))"
    "listener_key_ok (ai_ListenerKey (skewed_attachment 4))"
    by (simp_all add: escalated_def skewed_attachment_def minted_keys_ok)
  with attachment_issue_exactly [OF d] d skewed_attachment_facts(1) [of 4]
  show ?thesis by (cases "ad_Issue d") auto
qed

end
