(* ===== verification/GoTime.thy ===== *)
theory GoTime
  imports GoStrings
begin

text \<open>
  What the contract uses of Go's \<open>time\<close> package. An instant is its number of nanoseconds
  since the Unix epoch, an integer; a \<open>Duration\<close> is a 64-bit count of nanoseconds, so the
  difference of two instants saturates. \<open>RFC3339\<close> is printed in UTC, for instants not
  before the epoch, with the proleptic Gregorian calendar.
\<close>

type_synonym instant = int
type_synonym duration = "64 word"

definition UnixMilli :: "int64 \<Rightarrow> instant" where
  "UnixMilli ms = sint ms * 1000000"

definition Sub :: "instant \<Rightarrow> instant \<Rightarrow> duration" where
  "Sub t u = word_of_int (max (- (2 ^ 63)) (min (2 ^ 63 - 1) (t - u)))"

lemma sint_Sub: "sint (Sub t u) = max (- (2 ^ 63)) (min (2 ^ 63 - 1) (t - u))"
  unfolding Sub_def by (rule sint64_of_int) auto

text \<open>Saturation cannot be seen by a comparison with a duration.\<close>

lemma Sub_less: "u \<le> t \<Longrightarrow> sint (Sub t u) < sint (d :: duration) \<longleftrightarrow> t - u < sint d"
  using sint64_bounds [of d] by (auto simp: sint_Sub)

text \<open>Year, month and day of a day number, by eras of 400 years that begin in March.\<close>

definition civil_from_days :: "nat \<Rightarrow> nat \<times> nat \<times> nat" where
  "civil_from_days days =
     (let z = days + 719468; era = z div 146097; doe = z mod 146097;
          yoe = (doe - doe div 1460 + doe div 36524 - doe div 146096) div 365;
          doy = doe - (365 * yoe + yoe div 4 - yoe div 100);
          mp = (5 * doy + 2) div 153;
          day = doy - (153 * mp + 2) div 5 + 1;
          month = (if mp < 10 then mp + 3 else mp - 9)
      in (yoe + era * 400 + (if month \<le> 2 then 1 else 0), month, day))"

definition pad :: "nat \<Rightarrow> nat \<Rightarrow> string" where
  "pad width n = replicate (width - length (format_nat n)) (CHR ''0'') @ format_nat n"

definition Format_RFC3339 :: "nat \<Rightarrow> string" where
  "Format_RFC3339 secs =
     (let (year, month, day) = civil_from_days (secs div 86400); s = secs mod 86400
      in pad 4 year @ ''-'' @ pad 2 month @ ''-'' @ pad 2 day @ ''T'' @
         pad 2 (s div 3600) @ '':'' @ pad 2 (s div 60 mod 60) @ '':'' @ pad 2 (s mod 60) @ ''Z'')"

lemma ascii_pad [simp]: "ascii (pad w n)"
  by (simp add: pad_def)

lemma ascii_Format_RFC3339 [simp]: "ascii (Format_RFC3339 secs)"
  by (simp add: Format_RFC3339_def Let_def split: prod.split)

lemma length_pad: "n < 10 ^ k \<Longrightarrow> length (pad w n) \<le> w + max 1 k"
  using length_format_nat [of n k] by (simp add: pad_def)

lemma div_le_add: "m - a + b - c \<le> m + (b :: nat)"
  by simp

lemma civil_from_days_bounds:
  assumes "civil_from_days days = (y, m, d)" "days < 10 ^ 12"
  shows "y < 10 ^ 10" "m < 10 ^ 10" "d < 10 ^ 10"
proof -
  define doe where "doe = (days + 719468) mod 146097"
  define yoe where "yoe = (doe - doe div 1460 + doe div 36524 - doe div 146096) div 365"
  define doy where "doy = doe - (365 * yoe + yoe div 4 - yoe div 100)"
  define mp where "mp = (5 * doy + 2) div 153"
  define month where "month = (if mp < 10 then mp + 3 else mp - 9)"
  have doe: "doe < 146097" by (simp add: doe_def)
  have "yoe \<le> doe - doe div 1460 + doe div 36524 - doe div 146096" unfolding yoe_def by (rule div_le_dividend)
  also have "\<dots> \<le> doe + doe div 36524" by (rule div_le_add)
  also have "\<dots> \<le> doe + doe" by simp
  finally have yoe: "yoe \<le> 2 * doe" by simp
  have doy: "doy \<le> doe" unfolding doy_def by (rule diff_le_self)
  have "mp \<le> 5 * doy + 2" unfolding mp_def by (rule div_le_dividend)
  then have month: "month \<le> 5 * doy + 5" by (auto simp: month_def)
  have "(days + 719468) div 146097 \<le> 10000000"
    using assms(2) div_le_mono [of "days + 719468" 1460970000000 146097] by simp
  moreover have "y \<le> yoe + (days + 719468) div 146097 * 400 + 1" "m = month" "d \<le> doy + 1"
    using assms(1) unfolding civil_from_days_def Let_def doe_def [symmetric] yoe_def [symmetric]
      doy_def [symmetric] mp_def [symmetric] month_def [symmetric] by auto
  ultimately show "y < 10 ^ 10" "m < 10 ^ 10" "d < 10 ^ 10"
    using doe yoe doy month by simp_all
qed

lemma length_Format_RFC3339:
  assumes "secs < 10 ^ 16"
  shows "length (Format_RFC3339 secs) \<le> 100"
proof -
  obtain y m d where ymd: "civil_from_days (secs div 86400) = (y, m, d)" by (metis prod_cases3)
  have "secs div 86400 < 10 ^ 12" using assms by simp
  note b = civil_from_days_bounds [OF ymd this]
  have "secs mod 86400 div 3600 < 10 ^ 2" "secs mod 86400 div 60 mod 60 < 10 ^ 2"
    "secs mod 86400 mod 60 < 10 ^ 2" by (simp_all add: less_mult_imp_div_less)
  then show ?thesis
    using length_pad [OF b(1), of 4] length_pad [OF b(2), of 2] length_pad [OF b(3), of 2]
      length_pad [of "secs mod 86400 div 3600" 2 2] length_pad [of "secs mod 86400 div 60 mod 60" 2 2]
      length_pad [of "secs mod 86400 mod 60" 2 2]
    by (simp add: Format_RFC3339_def Let_def ymd)
qed

end
