(* ===== verification/ObjectMachine.thy ===== *)
theory ObjectMachine
  imports Report GoTime
begin

text \<open>
  \<open>protocol/conformance/object_state.go\<close>: the transition function of one object's
  convergence, and the promotion of a long failure into an issue. The transition function
  is proved to implement an abstract machine on the four shapes of \<open>convergence\<close>.
\<close>

section \<open>The transition function\<close>

type_synonym ObjectEvent = string

definition EventAccepted :: ObjectEvent where "EventAccepted = ''accepted''"
definition EventApplied :: ObjectEvent where "EventApplied = ''applied''"
definition EventRetryableFailure :: ObjectEvent where "EventRetryableFailure = ''retryable_failure''"
definition EventRejected :: ObjectEvent where "EventRejected = ''rejected''"
definition EventDependencyBlocked :: ObjectEvent where "EventDependencyBlocked = ''dependency_blocked''"
definition EventDependencyReady :: ObjectEvent where "EventDependencyReady = ''dependency_ready''"

lemmas object_events = EventAccepted_def EventApplied_def EventRetryableFailure_def
  EventRejected_def EventDependencyBlocked_def EventDependencyReady_def

record Transition =
  tn_Event :: ObjectEvent
  tn_Version :: Version
  tn_AtMS :: int64
  tn_IssueCode :: string
  tn_BlockedOn :: string

datatype advance_error =
    VersionNotCommitted
  | VersionOlder Version Version
  | RejectedCannotApply
  | CannotApplyFrom ObjectState
  | RetryCannotReplace ObjectState
  | RejectionNeedsContent ObjectState
  | RejectionNeedsCode
  | BlockCannotReplace ObjectState
  | BlockNeedsTarget
  | ReadyNeedsBlocked ObjectState
  | UnknownEvent ObjectEvent

definition firstNonZero :: "int64 \<Rightarrow> int64 \<Rightarrow> int64" where
  "firstNonZero current candidate = (if current \<noteq> 0 then current else candidate)"

text \<open>As in the source, the status is returned with the error, too.\<close>

definition acceptVersion :: "ObjectStatus \<Rightarrow> Transition \<Rightarrow> ObjectStatus \<times> advance_error option" where
  "acceptVersion current tr =
     (if \<not> Committed (tn_Version tr) then (current, Some VersionNotCommitted)
      else if os_SinceVersion current = tn_Version tr then (current, None)
      else if \<not> Zero (os_SinceVersion current) \<and> \<not> Newer (tn_Version tr) (os_SinceVersion current)
        then (current, Some (VersionOlder (tn_Version tr) (os_SinceVersion current)))
      else (current\<lparr>os_State := ObjectPending, os_SinceVersion := tn_Version tr,
          os_FirstFailedAtMS := tn_AtMS tr, os_IssueCode := [], os_BlockedOn := []\<rparr>, None))"

definition AdvanceObject :: "ObjectStatus \<Rightarrow> Transition \<Rightarrow> ObjectStatus \<times> advance_error option" where
  "AdvanceObject current tr =
     (if tn_Event tr = EventAccepted then acceptVersion current tr
      else if tn_Event tr = EventApplied then
        (if os_State current = ObjectRejected then (current, Some RejectedCannotApply)
         else if os_State current \<noteq> ObjectPending \<and> os_State current \<noteq> ObjectBlocked \<and>
             os_State current \<noteq> ObjectApplied
           then (current, Some (CannotApplyFrom (os_State current)))
         else (current\<lparr>os_State := ObjectApplied, os_FirstFailedAtMS := 0, os_IssueCode := [],
             os_BlockedOn := []\<rparr>, None))
      else if tn_Event tr = EventRetryableFailure then
        (if os_State current = ObjectRejected \<or> os_State current = []
           then (current, Some (RetryCannotReplace (os_State current)))
         else (current\<lparr>os_State := ObjectPending, os_BlockedOn := [],
             os_FirstFailedAtMS := firstNonZero (os_FirstFailedAtMS current) (tn_AtMS tr)\<rparr>, None))
      else if tn_Event tr = EventRejected then
        (if os_State current \<noteq> ObjectPending \<and> os_State current \<noteq> ObjectRejected \<and>
            os_State current \<noteq> ObjectApplied
           then (current, Some (RejectionNeedsContent (os_State current)))
         else if tn_IssueCode tr = [] then (current, Some RejectionNeedsCode)
         else (current\<lparr>os_State := ObjectRejected,
             os_FirstFailedAtMS := firstNonZero (os_FirstFailedAtMS current) (tn_AtMS tr),
             os_IssueCode := tn_IssueCode tr, os_BlockedOn := []\<rparr>, None))
      else if tn_Event tr = EventDependencyBlocked then
        (if os_State current \<noteq> ObjectPending \<and> os_State current \<noteq> ObjectApplied \<and>
            os_State current \<noteq> ObjectBlocked
           then (current, Some (BlockCannotReplace (os_State current)))
         else if tn_BlockedOn tr = [] then (current, Some BlockNeedsTarget)
         else (current\<lparr>os_State := ObjectBlocked,
             os_FirstFailedAtMS := firstNonZero (os_FirstFailedAtMS current) (tn_AtMS tr),
             os_IssueCode := [], os_BlockedOn := tn_BlockedOn tr\<rparr>, None))
      else if tn_Event tr = EventDependencyReady then
        (if os_State current \<noteq> ObjectBlocked then (current, Some (ReadyNeedsBlocked (os_State current)))
         else (current\<lparr>os_State := ObjectPending, os_BlockedOn := []\<rparr>, None))
      else (current, Some (UnknownEvent (tn_Event tr))))"

text \<open>The arm each event selects; an event that is none of the six is refused.\<close>

lemma AdvanceObject_arms:
  "tn_Event tr = EventAccepted \<Longrightarrow> AdvanceObject s tr = acceptVersion s tr"
  "tn_Event tr = EventApplied \<Longrightarrow> AdvanceObject s tr =
    (if os_State s = ObjectRejected then (s, Some RejectedCannotApply)
     else if os_State s \<notin> {ObjectPending, ObjectBlocked, ObjectApplied} then (s, Some (CannotApplyFrom (os_State s)))
     else (s\<lparr>os_State := ObjectApplied, os_FirstFailedAtMS := 0, os_IssueCode := [], os_BlockedOn := []\<rparr>, None))"
  "tn_Event tr = EventRetryableFailure \<Longrightarrow> AdvanceObject s tr =
    (if os_State s \<in> {ObjectRejected, []} then (s, Some (RetryCannotReplace (os_State s)))
     else (s\<lparr>os_State := ObjectPending, os_BlockedOn := [],
         os_FirstFailedAtMS := firstNonZero (os_FirstFailedAtMS s) (tn_AtMS tr)\<rparr>, None))"
  "tn_Event tr = EventRejected \<Longrightarrow> AdvanceObject s tr =
    (if os_State s \<notin> {ObjectPending, ObjectRejected, ObjectApplied} then (s, Some (RejectionNeedsContent (os_State s)))
     else if tn_IssueCode tr = [] then (s, Some RejectionNeedsCode)
     else (s\<lparr>os_State := ObjectRejected, os_FirstFailedAtMS := firstNonZero (os_FirstFailedAtMS s) (tn_AtMS tr),
         os_IssueCode := tn_IssueCode tr, os_BlockedOn := []\<rparr>, None))"
  "tn_Event tr = EventDependencyBlocked \<Longrightarrow> AdvanceObject s tr =
    (if os_State s \<notin> {ObjectPending, ObjectApplied, ObjectBlocked} then (s, Some (BlockCannotReplace (os_State s)))
     else if tn_BlockedOn tr = [] then (s, Some BlockNeedsTarget)
     else (s\<lparr>os_State := ObjectBlocked, os_FirstFailedAtMS := firstNonZero (os_FirstFailedAtMS s) (tn_AtMS tr),
         os_IssueCode := [], os_BlockedOn := tn_BlockedOn tr\<rparr>, None))"
  "tn_Event tr = EventDependencyReady \<Longrightarrow> AdvanceObject s tr =
    (if os_State s \<noteq> ObjectBlocked then (s, Some (ReadyNeedsBlocked (os_State s)))
     else (s\<lparr>os_State := ObjectPending, os_BlockedOn := []\<rparr>, None))"
  "tn_Event tr \<notin> {EventAccepted, EventApplied, EventRetryableFailure, EventRejected,
      EventDependencyBlocked, EventDependencyReady} \<Longrightarrow>
    AdvanceObject s tr = (s, Some (UnknownEvent (tn_Event tr)))"
  by (simp_all add: AdvanceObject_def object_events)

lemma event_cases:
  obtains "tn_Event tr = EventAccepted" | "tn_Event tr = EventApplied"
  | "tn_Event tr = EventRetryableFailure" | "tn_Event tr = EventRejected"
  | "tn_Event tr = EventDependencyBlocked" | "tn_Event tr = EventDependencyReady"
  | "tn_Event tr \<notin> {EventAccepted, EventApplied, EventRetryableFailure, EventRejected,
      EventDependencyBlocked, EventDependencyReady}"
  by blast

lemma AdvanceObject_error_unchanged: "AdvanceObject s tr = (s', Some e) \<Longrightarrow> s' = s"
  by (cases rule: event_cases [of tr]) (auto simp: AdvanceObject_arms acceptVersion_def split: if_splits)

lemma AdvanceObject_identity:
  "os_Stream (fst (AdvanceObject s tr)) = os_Stream s \<and> os_Key (fst (AdvanceObject s tr)) = os_Key s"
  by (cases rule: event_cases [of tr]) (simp_all add: AdvanceObject_arms acceptVersion_def)

section \<open>The abstract machine\<close>

datatype observation =
    Accept Version int64
  | Apply
  | Retry int64
  | Reject int64 string
  | Block int64 ListenerKey
  | Ready

text \<open>A transition with its required evidence is an observation; without it, it is none.\<close>

definition observation_of :: "Transition \<Rightarrow> observation option" where
  "observation_of tr =
     (if tn_Event tr = EventAccepted then
        (if Committed (tn_Version tr) then Some (Accept (tn_Version tr) (tn_AtMS tr)) else None)
      else if tn_Event tr = EventApplied then Some Apply
      else if tn_Event tr = EventRetryableFailure then Some (Retry (tn_AtMS tr))
      else if tn_Event tr = EventRejected then
        (if tn_IssueCode tr \<noteq> [] then Some (Reject (tn_AtMS tr) (tn_IssueCode tr)) else None)
      else if tn_Event tr = EventDependencyBlocked then
        (if tn_BlockedOn tr \<noteq> [] then Some (Block (tn_AtMS tr) (ListenerKey (tn_BlockedOn tr))) else None)
      else if tn_Event tr = EventDependencyReady then Some Ready
      else None)"

text \<open>
  The first failure instant is the state's own, once it has one. Rejected content is
  final: only another rejection or a newer version is possible. Blocked content must be
  released before it can be rejected.
\<close>

fun converge :: "observation \<Rightarrow> Version \<times> convergence \<Rightarrow> (Version \<times> convergence) option" where
  "converge (Accept v t) (since, c) =
     (if v = since then Some (since, c) else if since < v then Some (v, Pending t) else None)"
| "converge Apply (since, c) =
     (case c of Rejected _ _ \<Rightarrow> None | _ \<Rightarrow> Some (since, Applied))"
| "converge (Retry t) (since, c) =
     (case c of Rejected _ _ \<Rightarrow> None | Applied \<Rightarrow> Some (since, Pending t)
      | Pending f \<Rightarrow> Some (since, Pending f) | Blocked f _ \<Rightarrow> Some (since, Pending f))"
| "converge (Reject t code) (since, c) =
     (case c of Blocked _ _ \<Rightarrow> None | Applied \<Rightarrow> Some (since, Rejected t code)
      | Pending f \<Rightarrow> Some (since, Rejected f code) | Rejected f _ \<Rightarrow> Some (since, Rejected f code))"
| "converge (Block t l) (since, c) =
     (case c of Rejected _ _ \<Rightarrow> None | Applied \<Rightarrow> Some (since, Blocked t l)
      | Pending f \<Rightarrow> Some (since, Blocked f l) | Blocked f _ \<Rightarrow> Some (since, Blocked f l))"
| "converge Ready (since, c) =
     (case c of Blocked f _ \<Rightarrow> Some (since, Pending f) | _ \<Rightarrow> None)"

text \<open>
  When a result of the code is the answer of the abstract machine: a refusal is an error
  that comes with the status as it was, a move is a success that shows the new version and
  shape, for the same object. A status has no other fields.
\<close>

definition implements :: "ObjectStatus \<Rightarrow> ObjectStatus \<times> advance_error option \<Rightarrow> (Version \<times> convergence) option \<Rightarrow> bool" where
  "implements s r answer =
     (case answer of
        None \<Rightarrow> fst r = s \<and> snd r \<noteq> None
      | Some (since, c) \<Rightarrow> snd r = None \<and> os_SinceVersion (fst r) = since \<and> convergence_of (fst r) = Some c \<and>
          os_Stream (fst r) = os_Stream s \<and> os_Key (fst r) = os_Key s)"

lemma convergence_of_cases:
  "convergence_of s = Some c \<longleftrightarrow>
    (case c of
       Applied \<Rightarrow> os_State s = ObjectApplied \<and> os_FirstFailedAtMS s = 0 \<and> os_IssueCode s = [] \<and> os_BlockedOn s = []
     | Pending t \<Rightarrow> os_State s = ObjectPending \<and> os_FirstFailedAtMS s = t \<and> t \<noteq> 0 \<and> os_IssueCode s = [] \<and> os_BlockedOn s = []
     | Rejected t code \<Rightarrow> os_State s = ObjectRejected \<and> os_FirstFailedAtMS s = t \<and> t \<noteq> 0 \<and> os_IssueCode s = code \<and> code \<noteq> [] \<and> os_BlockedOn s = []
     | Blocked t l \<Rightarrow> os_State s = ObjectBlocked \<and> os_FirstFailedAtMS s = t \<and> t \<noteq> 0 \<and> os_IssueCode s = [] \<and>
         os_BlockedOn s \<noteq> [] \<and> l = ListenerKey (os_BlockedOn s))"
  by (auto simp: convergence_of_def object_states split: convergence.splits)

lemma observation_arms:
  "tn_Event tr = EventAccepted \<Longrightarrow> observation_of tr =
    (if Committed (tn_Version tr) then Some (Accept (tn_Version tr) (tn_AtMS tr)) else None)"
  "tn_Event tr = EventApplied \<Longrightarrow> observation_of tr = Some Apply"
  "tn_Event tr = EventRetryableFailure \<Longrightarrow> observation_of tr = Some (Retry (tn_AtMS tr))"
  "tn_Event tr = EventRejected \<Longrightarrow> observation_of tr =
    (if tn_IssueCode tr \<noteq> [] then Some (Reject (tn_AtMS tr) (tn_IssueCode tr)) else None)"
  "tn_Event tr = EventDependencyBlocked \<Longrightarrow> observation_of tr =
    (if tn_BlockedOn tr \<noteq> [] then Some (Block (tn_AtMS tr) (ListenerKey (tn_BlockedOn tr))) else None)"
  "tn_Event tr = EventDependencyReady \<Longrightarrow> observation_of tr = Some Ready"
  "tn_Event tr \<notin> {EventAccepted, EventApplied, EventRetryableFailure, EventRejected,
      EventDependencyBlocked, EventDependencyReady} \<Longrightarrow> observation_of tr = None"
  by (simp_all add: observation_of_def object_events)

lemma AdvanceObject_refines:
  assumes "Committed (os_SinceVersion s)" "convergence_of s = Some c" "tn_AtMS tr \<noteq> 0"
  shows "implements s (AdvanceObject s tr)
    (Option.bind (observation_of tr) (\<lambda>obs. converge obs (os_SinceVersion s, c)))"
proof -
  have "\<not> Zero (os_SinceVersion s)" using assms(1) by (rule Committed_not_Zero)
  then show ?thesis
    using assms(2) [unfolded convergence_of_cases] assms(3)
    by (cases rule: event_cases [of tr]; cases c)
      (auto simp: AdvanceObject_arms observation_arms implements_def acceptVersion_def
        convergence_of_def object_states firstNonZero_def Newer_less)
qed

section \<open>Reachable statuses\<close>

text \<open>The evidence a caller must bring: an instant, a bounded code, a key that names a listener.\<close>

definition evidence_ok :: "Transition \<Rightarrow> bool" where
  "evidence_ok tr \<longleftrightarrow>
     0 < sint (tn_AtMS tr) \<and>
     (tn_Event tr = EventRejected \<longrightarrow> issue_code_ok (tn_IssueCode tr)) \<and>
     (tn_Event tr = EventDependencyBlocked \<longrightarrow> listener_key_ok (ListenerKey (tn_BlockedOn tr)))"

definition new_object :: "string \<Rightarrow> string \<Rightarrow> ObjectStatus" where
  "new_object stream key = \<lparr>os_Stream = stream, os_Key = key, os_State = [],
     os_SinceVersion = zero_version, os_FirstFailedAtMS = 0, os_IssueCode = [], os_BlockedOn = []\<rparr>"

inductive object_step :: "ObjectStatus \<Rightarrow> Transition \<Rightarrow> ObjectStatus \<Rightarrow> bool" where
  step: "AdvanceObject s tr = (s', None) \<Longrightarrow> evidence_ok tr \<Longrightarrow> object_step s tr s'"

inductive object_reachable :: "string \<Rightarrow> string \<Rightarrow> ObjectStatus \<Rightarrow> bool" where
  fresh: "object_reachable stream key (new_object stream key)"
| advance: "object_reachable stream key s \<Longrightarrow> object_step s tr s' \<Longrightarrow> object_reachable stream key s'"

inductive_cases object_stepE: "object_step s tr s'"
inductive_simps object_step_iff: "object_step s tr s'"

lemma observation_evidence:
  assumes "evidence_ok tr" "observation_of tr = Some obs"
  shows "case obs of Accept v t \<Rightarrow> 0 < sint t \<and> Committed v | Apply \<Rightarrow> True | Retry t \<Rightarrow> 0 < sint t
    | Reject t code \<Rightarrow> 0 < sint t \<and> code \<noteq> [] \<and> issue_code_ok code
    | Block t l \<Rightarrow> 0 < sint t \<and> listener_key_ok l | Ready \<Rightarrow> True"
  using assms
  by (cases rule: event_cases [of tr]) (auto simp: observation_arms evidence_ok_def split: if_splits)

lemma converge_keeps_ok:
  assumes "converge obs (since, c) = Some (since', c')" "convergence_ok c" "Committed since"
    and "case obs of Accept v t \<Rightarrow> 0 < sint t \<and> Committed v | Apply \<Rightarrow> True | Retry t \<Rightarrow> 0 < sint t
      | Reject t code \<Rightarrow> 0 < sint t \<and> code \<noteq> [] \<and> issue_code_ok code
      | Block t l \<Rightarrow> 0 < sint t \<and> listener_key_ok l | Ready \<Rightarrow> True"
  shows "convergence_ok c' \<and> Committed since' \<and> since \<le> since'"
  using assms by (cases obs; cases c) (auto split: if_splits)

lemma object_step_keeps_ok:
  assumes "object_step s tr s'" "object_ok s"
  shows "object_ok s' \<and> os_SinceVersion s \<le> os_SinceVersion s'"
proof -
  from assms(1) have adv: "AdvanceObject s tr = (s', None)" and ev: "evidence_ok tr"
    by (auto simp: object_step_iff)
  from assms(2) obtain c where c: "convergence_of s = Some c" "convergence_ok c" "Committed (os_SinceVersion s)"
    by (auto simp: object_ok_def split: option.splits)
  have "tn_AtMS tr \<noteq> 0" using ev by (auto simp: evidence_ok_def)
  then have impl: "implements s (s', None) (Option.bind (observation_of tr) (\<lambda>obs. converge obs (os_SinceVersion s, c)))"
    using AdvanceObject_refines [OF c(3,1)] adv by metis
  then obtain obs where obs: "observation_of tr = Some obs" "converge obs (os_SinceVersion s, c) \<noteq> None"
    by (auto simp: implements_def split: option.splits bind_splits)
  then obtain c' where c': "converge obs (os_SinceVersion s, c) = Some (os_SinceVersion s', c')"
    "convergence_of s' = Some c'"
    using impl by (auto simp: implements_def)
  have "convergence_ok c' \<and> Committed (os_SinceVersion s') \<and> os_SinceVersion s \<le> os_SinceVersion s'"
    using converge_keeps_ok [OF c'(1) c(2,3) observation_evidence [OF ev obs(1)]] .
  moreover have "os_Stream s' = os_Stream s" "os_Key s' = os_Key s"
    using AdvanceObject_identity [of s tr] adv by simp_all
  ultimately show ?thesis using assms(2) c'(2) by (simp add: object_ok_def)
qed

text \<open>A fresh object can only be accepted.\<close>

lemma fresh_object_step:
  assumes "object_step (new_object stream key) tr s'" "object_identity_ok stream key"
  shows "object_ok s'"
proof -
  let ?s = "new_object stream key"
  have adv: "AdvanceObject ?s tr = (s', None)" and ev: "0 < sint (tn_AtMS tr)"
    using assms(1) by (auto simp: object_step_iff evidence_ok_def)
  have fields: "os_State ?s = []" "os_SinceVersion ?s = zero_version" by (simp_all add: new_object_def)
  have acc: "tn_Event tr = EventAccepted"
    using adv by (cases rule: event_cases [of tr]) (simp_all add: AdvanceObject_arms fields object_states)
  have zero: "Zero zero_version" by (simp add: Zero_iff)
  have "Committed (tn_Version tr)"
    using adv acc by (simp add: AdvanceObject_arms acceptVersion_def split: if_split_asm)
  moreover from this have "tn_Version tr \<noteq> zero_version" using Committed_not_Zero zero by metis
  ultimately have "s' = ?s\<lparr>os_State := ObjectPending, os_SinceVersion := tn_Version tr,
      os_FirstFailedAtMS := tn_AtMS tr, os_IssueCode := [], os_BlockedOn := []\<rparr>"
    using adv acc by (auto simp: AdvanceObject_arms acceptVersion_def fields zero)
  moreover have "tn_AtMS tr \<noteq> 0" using ev by auto
  ultimately show ?thesis using \<open>Committed (tn_Version tr)\<close> assms(2) ev
    by (simp add: object_ok_def convergence_of_def object_states new_object_def)
qed

lemma reachable_ok:
  "object_reachable stream key s \<Longrightarrow> object_identity_ok stream key \<Longrightarrow>
    s = new_object stream key \<or> object_ok s"
proof (induction rule: object_reachable.induct)
  case (advance stream key s tr s')
  then show ?case using fresh_object_step object_step_keeps_ok by blast
qed simp

section \<open>Runs\<close>

text \<open>The status after a sequence of transitions; a refused one leaves it as it was.\<close>

definition run :: "ObjectStatus \<Rightarrow> Transition list \<Rightarrow> ObjectStatus" where
  "run s trs = foldl (\<lambda>s tr. fst (AdvanceObject s tr)) s trs"

lemma run_simps [simp]: "run s [] = s" "run s (tr # trs) = run (fst (AdvanceObject s tr)) trs"
  by (simp_all add: run_def)

definition supersedes :: "Transition \<Rightarrow> ObjectStatus \<Rightarrow> bool" where
  "supersedes tr s \<longleftrightarrow> tn_Event tr = EventAccepted \<and> Newer (tn_Version tr) (os_SinceVersion s)"

lemma rejected_step:
  assumes "os_State s = ObjectRejected" "os_FirstFailedAtMS s \<noteq> 0" "Committed (os_SinceVersion s)"
    and "\<not> supersedes tr s"
  shows "os_State (fst (AdvanceObject s tr)) = ObjectRejected \<and>
    os_FirstFailedAtMS (fst (AdvanceObject s tr)) = os_FirstFailedAtMS s \<and>
    os_SinceVersion (fst (AdvanceObject s tr)) = os_SinceVersion s"
proof -
  have "\<not> Zero (os_SinceVersion s)" using assms(3) by (rule Committed_not_Zero)
  then show ?thesis using assms
    by (cases rule: event_cases [of tr])
      (simp_all add: AdvanceObject_arms acceptVersion_def firstNonZero_def supersedes_def object_states)
qed

lemma rejected_run:
  "os_State s = ObjectRejected \<Longrightarrow> os_FirstFailedAtMS s \<noteq> 0 \<Longrightarrow> Committed (os_SinceVersion s) \<Longrightarrow>
    list_all (\<lambda>tr. \<not> supersedes tr s) trs \<Longrightarrow>
    os_State (run s trs) = ObjectRejected \<and> os_FirstFailedAtMS (run s trs) = os_FirstFailedAtMS s \<and>
    os_SinceVersion (run s trs) = os_SinceVersion s"
proof (induction trs arbitrary: s)
  case (Cons tr trs)
  let ?t = "fst (AdvanceObject s tr)"
  have t: "os_State ?t = ObjectRejected" "os_FirstFailedAtMS ?t = os_FirstFailedAtMS s"
    "os_SinceVersion ?t = os_SinceVersion s"
    using rejected_step [OF Cons.prems(1-3)] Cons.prems(4) by simp_all
  then have "list_all (\<lambda>tr. \<not> supersedes tr ?t) trs"
    using Cons.prems(4) by (simp add: supersedes_def)
  with Cons.IH [of ?t] t Cons.prems show ?case by simp
qed simp

lemma AdvanceObject_version_mono: "os_SinceVersion s \<le> os_SinceVersion (fst (AdvanceObject s tr))"
proof (cases "tn_Event tr = EventAccepted")
  case True
  have "os_SinceVersion s \<le> tn_Version tr"
    if "Committed (tn_Version tr)" "Zero (os_SinceVersion s) \<or> Newer (tn_Version tr) (os_SinceVersion s)"
    using that Committed_Newer_zero by (auto simp: Zero_iff Newer_less intro: less_imp_le)
  then show ?thesis using True by (auto simp: AdvanceObject_arms acceptVersion_def)
next
  case False
  then show ?thesis by (cases rule: event_cases [of tr]) (simp_all add: AdvanceObject_arms)
qed

lemma run_mono:
  "os_SinceVersion s \<le> os_SinceVersion (run s trs) \<and> os_Stream (run s trs) = os_Stream s \<and>
    os_Key (run s trs) = os_Key s"
proof (induction trs arbitrary: s)
  case (Cons tr trs)
  have "os_SinceVersion s \<le> os_SinceVersion (fst (AdvanceObject s tr))" by (rule AdvanceObject_version_mono)
  also have "\<dots> \<le> os_SinceVersion (run s (tr # trs))" using Cons.IH by simp
  finally show ?case using Cons.IH [of "fst (AdvanceObject s tr)"] AdvanceObject_identity [of s tr] by simp
qed simp

section \<open>Timeouts\<close>

datatype timeout_error = TimeoutNotPositive

definition TimeoutIssue :: "ObjectStatus \<Rightarrow> instant \<Rightarrow> duration \<Rightarrow> timeout_error + Issue option" where
  "TimeoutIssue status now timeout =
     (if sint timeout \<le> 0 then Inl TimeoutNotPositive
      else if os_State status \<noteq> ObjectPending \<and> os_State status \<noteq> ObjectRejected then Inr None
      else if sint (os_FirstFailedAtMS status) \<le> 0 then Inr None
      else let first = UnixMilli (os_FirstFailedAtMS status) in
        if now < first \<or> sint (Sub now first) < sint timeout then Inr None
        else let code = (if os_State status = ObjectRejected then IssueObjectRejectedTimeout
            else IssueObjectPendingTimeout)
          in Inr (Some \<lparr>i_Code = code, i_Key = os_Key status,
            i_Detail = os_Stream status @ '' object has remained '' @ os_State status @ '' since '' @
              Format_RFC3339 (nat (first div 1000000000))\<rparr>))"

definition overdue :: "ObjectStatus \<Rightarrow> instant \<Rightarrow> duration \<Rightarrow> bool" where
  "overdue s now timeout \<longleftrightarrow>
     os_State s \<in> {ObjectPending, ObjectRejected} \<and> 0 < sint (os_FirstFailedAtMS s) \<and>
     UnixMilli (os_FirstFailedAtMS s) + sint timeout \<le> now"

definition timeout_issue :: "ObjectStatus \<Rightarrow> Issue" where
  "timeout_issue s =
     \<lparr>i_Code = (if os_State s = ObjectRejected then IssueObjectRejectedTimeout else IssueObjectPendingTimeout),
      i_Key = os_Key s,
      i_Detail = os_Stream s @ '' object has remained '' @ os_State s @ '' since '' @
        Format_RFC3339 (nat (UnixMilli (os_FirstFailedAtMS s) div 1000000000))\<rparr>"

lemma TimeoutIssue_exact:
  "0 < sint timeout \<Longrightarrow>
    TimeoutIssue s now timeout = Inr (if overdue s now timeout then Some (timeout_issue s) else None)"
proof -
  assume pos: "0 < sint timeout"
  let ?first = "UnixMilli (os_FirstFailedAtMS s)"
  have "now < ?first \<or> sint (Sub now ?first) < sint timeout \<longleftrightarrow> \<not> ?first + sint timeout \<le> now"
    using Sub_less [of ?first now timeout] pos by linarith
  then show ?thesis using pos
    by (simp add: TimeoutIssue_def overdue_def timeout_issue_def Let_def not_le)
qed

lemma timeout_issue_ok:
  assumes "object_ok s" "os_State s \<in> {ObjectPending, ObjectRejected}"
  shows "issue_ok (timeout_issue s)"
proof -
  have "object_identity_ok (os_Stream s) (os_Key s)" using assms(1) by (simp add: object_ok_def)
  then have k: "ascii (os_Key s) \<and> length (os_Key s) \<le> 24" "ascii (os_Stream s) \<and> length (os_Stream s) \<le> 6"
    using minted_key_text by (auto simp: object_identity_ok_def stream_names)
  have "ascii (os_State s) \<and> length (os_State s) \<le> 8" using assms(2) by (auto simp: object_states)
  moreover have "UnixMilli (os_FirstFailedAtMS s) div 1000000000 < 10000000000000000"
    using sint64_bounds [of "os_FirstFailedAtMS s"]
      zdiv_mono1 [of "sint (os_FirstFailedAtMS s)" 9223372036854775808 1000]
    by (simp add: UnixMilli_def)
  then have "nat (UnixMilli (os_FirstFailedAtMS s) div 1000000000) < 10000000000000000" by arith
  then have "length (Format_RFC3339 (nat (UnixMilli (os_FirstFailedAtMS s) div 1000000000))) \<le> 100"
    by (intro length_Format_RFC3339) simp
  ultimately show ?thesis using k
    by (simp add: issue_ok_def timeout_issue_def issue_codes ascii_ValidString)
qed

section \<open>Properties\<close>

text \<open>
  C2. \<open>AdvanceObject\<close> implements the abstract convergence machine. Take any reportable status,
  which has a committed version and one of the four shapes, and any transition dated after
  the epoch. If the transition carries its required evidence and the machine admits the
  observation, the code succeeds, and the new version and shape are the machine's, for the
  same stream and key. In every other case the code returns an error, and the status
  unchanged.
\<close>

theorem AdvanceObject_implements_machine:
  assumes "validateReportedObject s = None" "0 < sint (tn_AtMS tr)"
  shows "\<exists>c. convergence_of s = Some c \<and>
    (case Option.bind (observation_of tr) (\<lambda>obs. converge obs (os_SinceVersion s, c)) of
       None \<Rightarrow> \<exists>e. AdvanceObject s tr = (s, Some e)
     | Some (since, c') \<Rightarrow> \<exists>s'. AdvanceObject s tr = (s', None) \<and>
         os_SinceVersion s' = since \<and> convergence_of s' = Some c' \<and>
         os_Stream s' = os_Stream s \<and> os_Key s' = os_Key s)"
proof -
  obtain c where c: "convergence_of s = Some c" "Committed (os_SinceVersion s)"
    using assms(1) by (auto simp: validateReportedObject_iff object_ok_def split: option.splits)
  moreover have "tn_AtMS tr \<noteq> 0" using assms(2) by auto
  ultimately have "implements s (AdvanceObject s tr)
      (Option.bind (observation_of tr) (\<lambda>obs. converge obs (os_SinceVersion s, c)))"
    using AdvanceObject_refines by blast
  then show ?thesis
    using c(1) by (cases "AdvanceObject s tr") (auto simp: implements_def split: option.splits)
qed

definition rejected_listener :: ObjectStatus where
  "rejected_listener = \<lparr>os_Stream = ''config'', os_Key = listener_key_string (NewListenerKey 7),
     os_State = ''rejected'', os_SinceVersion = \<lparr>Epoch = 1, VersionNo = 3\<rparr>,
     os_FirstFailedAtMS = 5000, os_IssueCode = ''bad_tls'', os_BlockedOn = []\<rparr>"

lemma rejected_listener_ok: "validateReportedObject rejected_listener = None"
  by (simp add: validateReportedObject_iff object_ok_def object_identity_ok_def rejected_listener_def
      convergence_of_def object_states StreamConfig_def minted_keys_ok Committed_iff issue_code_ok_def)

theorem AdvanceObject_implements_machine_witness:
  "\<exists>e. AdvanceObject rejected_listener
     \<lparr>tn_Event = EventApplied, tn_Version = zero_version, tn_AtMS = 6000, tn_IssueCode = [], tn_BlockedOn = []\<rparr>
   = (rejected_listener, Some e)"
  using AdvanceObject_implements_machine [OF rejected_listener_ok, of
      "\<lparr>tn_Event = EventApplied, tn_Version = zero_version, tn_AtMS = 6000, tn_IssueCode = [], tn_BlockedOn = []\<rparr>"]
  by (auto simp: observation_arms rejected_listener_def convergence_of_def object_states)

text \<open>
  C3. Every status a caller can reach from a fresh object with sound evidence, for a stream and
  a key that identify an object, is either still that fresh object or passes
  \<open>validateReportedObject\<close>: the agent never produces a status its own report would be refused
  for.
\<close>

theorem reachable_status_is_reportable:
  assumes "object_reachable stream key s" "object_identity_ok stream key"
  shows "s = new_object stream key \<or> validateReportedObject s = None"
  using reachable_ok [OF assms] by (simp add: validateReportedObject_iff)

theorem reachable_status_is_reportable_witness:
  "validateReportedObject (fst (AdvanceObject (new_object ''config'' (listener_key_string (NewListenerKey 7)))
     \<lparr>tn_Event = EventAccepted, tn_Version = \<lparr>Epoch = 1, VersionNo = 3\<rparr>, tn_AtMS = 6000,
      tn_IssueCode = [], tn_BlockedOn = []\<rparr>)) = None"
proof -
  let ?key = "listener_key_string (NewListenerKey 7)"
  let ?tr = "\<lparr>tn_Event = EventAccepted, tn_Version = \<lparr>Epoch = 1, VersionNo = 3\<rparr>, tn_AtMS = 6000,
      tn_IssueCode = [], tn_BlockedOn = []\<rparr>"
  let ?s = "(new_object ''config'' ?key)\<lparr>os_State := ObjectPending,
      os_SinceVersion := \<lparr>Epoch = 1, VersionNo = 3\<rparr>, os_FirstFailedAtMS := 6000\<rparr>"
  have adv: "AdvanceObject (new_object ''config'' ?key) ?tr = (?s, None)"
    by (simp add: AdvanceObject_arms acceptVersion_def Committed_iff Zero_def new_object_def zero_version_def)
  have "object_reachable ''config'' ?key ?s"
    by (rule object_reachable.advance [OF object_reachable.fresh step [OF adv]])
      (simp add: evidence_ok_def object_events)
  moreover have "object_identity_ok ''config'' ?key"
    by (simp add: object_identity_ok_def StreamConfig_def minted_keys_ok)
  ultimately show ?thesis
    using reachable_status_is_reportable [of "''config''" ?key ?s] adv
    by (simp add: new_object_def object_states)
qed

definition timeless_acceptance :: Transition where
  "timeless_acceptance = \<lparr>tn_Event = EventAccepted, tn_Version = \<lparr>Epoch = 1, VersionNo = 3\<rparr>, tn_AtMS = 0,
     tn_IssueCode = [], tn_BlockedOn = []\<rparr>"

text \<open>
  The instant is evidence as well, though the transition function does not ask for it: an
  acceptance without one succeeds, and its status is refused by the wire and never times
  out.
\<close>

theorem zero_instant_unreportable:
  "\<exists>s. AdvanceObject (new_object ''config'' (listener_key_string (NewListenerKey 7))) timeless_acceptance = (s, None) \<and>
    validateReportedObject s \<noteq> None \<and> (\<forall>now timeout. TimeoutIssue s now timeout \<in> {Inl TimeoutNotPositive, Inr None})"
proof -
  have "AdvanceObject (new_object ''config'' (listener_key_string (NewListenerKey 7))) timeless_acceptance =
      ((new_object ''config'' (listener_key_string (NewListenerKey 7)))
        \<lparr>os_State := ObjectPending, os_SinceVersion := \<lparr>Epoch = 1, VersionNo = 3\<rparr>\<rparr>, None)"
    by (simp add: AdvanceObject_arms acceptVersion_def Committed_iff Zero_def new_object_def
        zero_version_def timeless_acceptance_def)
  then show ?thesis
    by (simp add: validateReportedObject_iff object_ok_def convergence_of_def new_object_def object_states
        TimeoutIssue_def)
qed

text \<open>
  C28. No sequence of transitions, accepted or refused, rolls an object back: its version
  after the sequence is at least the version before, and it keeps its stream and key.
\<close>

theorem versions_never_roll_back:
  "os_SinceVersion s \<le> os_SinceVersion (run s trs) \<and>
   \<not> Newer (os_SinceVersion s) (os_SinceVersion (run s trs)) \<and>
   os_Stream (run s trs) = os_Stream s \<and> os_Key (run s trs) = os_Key s"
  using run_mono [of s trs] by (auto simp: Newer_less not_less)

text \<open>
  C7. Rejected content cannot go quiet: take a reportable status that is rejected. As long as
  no newer version is accepted, whatever else is observed, in any order, the object stays
  rejected, with the version and since the very instant it had, and at every time from a
  positive \<open>timeout\<close> after that instant on, \<open>TimeoutIssue\<close> raises the rejected-timeout issue
  for it.
\<close>

theorem rejected_content_surfaces:
  assumes "validateReportedObject s = None" "os_State s = ObjectRejected"
    and "list_all (\<lambda>tr. \<not> supersedes tr s) trs"
    and "0 < sint timeout" "UnixMilli (os_FirstFailedAtMS s) + sint timeout \<le> now"
  shows "os_State (run s trs) = ObjectRejected \<and>
    os_FirstFailedAtMS (run s trs) = os_FirstFailedAtMS s \<and> os_SinceVersion (run s trs) = os_SinceVersion s \<and>
    (\<exists>i. TimeoutIssue (run s trs) now timeout = Inr (Some i) \<and>
      i_Code i = IssueObjectRejectedTimeout \<and> i_Key i = os_Key s)"
proof -
  have ok: "Committed (os_SinceVersion s)" "0 < sint (os_FirstFailedAtMS s)"
    using assms(1,2) by (auto simp: validateReportedObject_iff object_ok_def convergence_of_cases
        object_states split: option.splits convergence.splits)
  then have "os_FirstFailedAtMS s \<noteq> 0" by auto
  from rejected_run [OF assms(2) this ok(1) assms(3)] run_mono [of s trs] ok(2) assms(4,5)
  show ?thesis by (simp add: TimeoutIssue_exact overdue_def timeout_issue_def)
qed

theorem rejected_content_surfaces_witness:
  "let later = run rejected_listener [\<lparr>tn_Event = EventApplied, tn_Version = zero_version,
      tn_AtMS = 6000, tn_IssueCode = [], tn_BlockedOn = []\<rparr>]
   in os_FirstFailedAtMS later = 5000 \<and>
     (\<exists>i. TimeoutIssue later 65000000000 60000000000 = Inr (Some i) \<and> i_Code i = IssueObjectRejectedTimeout)"
  using rejected_content_surfaces [OF rejected_listener_ok, of
      "[\<lparr>tn_Event = EventApplied, tn_Version = zero_version,
      tn_AtMS = 6000, tn_IssueCode = [], tn_BlockedOn = []\<rparr>]" 60000000000 65000000000]
  by (auto simp: supersedes_def object_events rejected_listener_def object_states UnixMilli_def Let_def)

text \<open>
  C27. \<open>TimeoutIssue\<close> is exact for every status, reportable or not. A timeout that is not
  positive is an error; with a positive one, an issue is raised exactly when the state is
  pending or rejected, the first failure is dated after the epoch and the timeout has elapsed
  since (the saturation of \<open>time.Duration\<close> never shows); the issue has the state's code and the
  object's key, and its detail names stream, state and instant. Raised for a reportable status, it is within the bounds
  an outbox issue must meet.
\<close>

theorem TimeoutIssue_fires_exactly:
  "TimeoutIssue s now timeout =
     (if sint timeout \<le> 0 then Inl TimeoutNotPositive
      else if os_State s \<in> {''pending'', ''rejected''} \<and> 0 < sint (os_FirstFailedAtMS s) \<and>
        sint (os_FirstFailedAtMS s) * 1000000 + sint timeout \<le> now
      then Inr (Some (timeout_issue s)) else Inr None) \<and>
   i_Code (timeout_issue s) =
     (if os_State s = ''rejected'' then ''object_rejected_timeout'' else ''object_pending_timeout'') \<and>
   i_Key (timeout_issue s) = os_Key s \<and>
   i_Detail (timeout_issue s) = os_Stream s @ '' object has remained '' @ os_State s @ '' since '' @
     Format_RFC3339 (nat (sint (os_FirstFailedAtMS s) * 1000000 div 1000000000)) \<and>
   (validateReportedObject s = None \<and> os_State s \<in> {''pending'', ''rejected''} \<longrightarrow> issue_ok (timeout_issue s))"
proof (intro conjI)
  show "TimeoutIssue s now timeout =
     (if sint timeout \<le> 0 then Inl TimeoutNotPositive
      else if os_State s \<in> {''pending'', ''rejected''} \<and> 0 < sint (os_FirstFailedAtMS s) \<and>
        sint (os_FirstFailedAtMS s) * 1000000 + sint timeout \<le> now
      then Inr (Some (timeout_issue s)) else Inr None)"
    using TimeoutIssue_exact [of timeout s now]
    by (cases "sint timeout \<le> 0") (simp_all add: overdue_def UnixMilli_def object_states TimeoutIssue_def)
  show "validateReportedObject s = None \<and> os_State s \<in> {''pending'', ''rejected''} \<longrightarrow> issue_ok (timeout_issue s)"
    using timeout_issue_ok [of s] by (auto simp: validateReportedObject_iff object_states)
qed (simp_all add: timeout_issue_def issue_codes object_states UnixMilli_def)

theorem TimeoutIssue_fires_exactly_witness:
  "TimeoutIssue rejected_listener 64999999999 60000000000 = Inr None \<and>
   TimeoutIssue rejected_listener 65000000000 60000000000 = Inr (Some (timeout_issue rejected_listener)) \<and>
   TimeoutIssue (rejected_listener\<lparr>os_FirstFailedAtMS := - 1\<rparr>) 65000000000 60000000000 = Inr None \<and>
   issue_ok (timeout_issue rejected_listener)"
  using TimeoutIssue_fires_exactly [of rejected_listener 64999999999 60000000000]
    TimeoutIssue_fires_exactly [of rejected_listener 65000000000 60000000000]
    TimeoutIssue_fires_exactly [of "rejected_listener\<lparr>os_FirstFailedAtMS := - 1\<rparr>" 65000000000 60000000000]
    rejected_listener_ok
  by (simp add: rejected_listener_def)

end
