(* ===== verification/Host.thy ===== *)
theory Host
  imports Scalars
begin

text \<open>
  The telemetry sample of \<open>protocol/host.go\<close>: its sections, the published vocabularies
  and the tokens for what could not be read. A pointer of the source is an option, and
  absence is never zero; a \<open>float64\<close> is its bit pattern.
\<close>

section \<open>Vocabularies\<close>
type_synonym Deployment = string
type_synonym ResourceScope = string
type_synonym DataFilesystemScope = string
type_synonym OperationalState = string
definition DeploymentSystemd :: Deployment where [wire_consts]: "DeploymentSystemd = ''systemd''"
definition DeploymentDocker :: Deployment where [wire_consts]: "DeploymentDocker = ''docker''"
definition DeploymentManual :: Deployment where [wire_consts]: "DeploymentManual = ''manual''"
definition DeploymentUnknown :: Deployment where [wire_consts]: "DeploymentUnknown = ''unknown''"
definition ScopeHost :: ResourceScope where [wire_consts]: "ScopeHost = ''host''"
definition ScopeContainer :: ResourceScope where [wire_consts]: "ScopeContainer = ''container''"
definition ScopeMixed :: ResourceScope where [wire_consts]: "ScopeMixed = ''mixed''"
definition ScopeUnknown :: ResourceScope where [wire_consts]: "ScopeUnknown = ''unknown''"
definition FilesystemScopeHostMount :: DataFilesystemScope where [wire_consts]: "FilesystemScopeHostMount = ''host_mount''"
definition FilesystemScopeContainerMount :: DataFilesystemScope where [wire_consts]: "FilesystemScopeContainerMount = ''container_mount''"
definition FilesystemScopeUnknown :: DataFilesystemScope where [wire_consts]: "FilesystemScopeUnknown = ''unknown''"
definition OperStateUp :: OperationalState where [wire_consts]: "OperStateUp = ''up''"
definition OperStateDown :: OperationalState where [wire_consts]: "OperStateDown = ''down''"
definition OperStateDormant :: OperationalState where [wire_consts]: "OperStateDormant = ''dormant''"
definition OperStateLowerLayerDown :: OperationalState where [wire_consts]: "OperStateLowerLayerDown = ''lowerlayerdown''"
definition OperStateUnknown :: OperationalState where [wire_consts]: "OperStateUnknown = ''unknown''"
definition OperStateNotPresent :: OperationalState where [wire_consts]: "OperStateNotPresent = ''notpresent''"
definition OperStateTesting :: OperationalState where [wire_consts]: "OperStateTesting = ''testing''"
definition CapabilityHostTelemetry :: string where [wire_consts]: "CapabilityHostTelemetry = ''host.telemetry.v1''"
definition IssueHostTelemetryFailed :: string where [wire_consts]: "IssueHostTelemetryFailed = ''host_telemetry_failed''"

text \<open>The tokens for sections and values a collector could not read.\<close>

definition UnavailableCPUSystem :: string where [wire_consts]: "UnavailableCPUSystem = ''cpu.system''"
definition UnavailableCPUCgroup :: string where [wire_consts]: "UnavailableCPUCgroup = ''cpu.cgroup''"
definition UnavailableLoad :: string where [wire_consts]: "UnavailableLoad = ''load''"
definition UnavailableMemorySystem :: string where [wire_consts]: "UnavailableMemorySystem = ''memory.system''"
definition UnavailableMemoryCgroup :: string where [wire_consts]: "UnavailableMemoryCgroup = ''memory.cgroup''"
definition UnavailableMemoryAvailable :: string where [wire_consts]: "UnavailableMemoryAvailable = ''memory.system.available''"
definition UnavailableMemoryCgroupOOM :: string where [wire_consts]: "UnavailableMemoryCgroupOOM = ''memory.cgroup.oom''"
definition UnavailableFilesystemData :: string where [wire_consts]: "UnavailableFilesystemData = ''filesystem.data''"
definition UnavailableFilesystemInodes :: string where [wire_consts]: "UnavailableFilesystemInodes = ''filesystem.inodes''"
definition UnavailableNetInterfaces :: string where [wire_consts]: "UnavailableNetInterfaces = ''network.interfaces''"
definition UnavailableNetDefaultRoute :: string where [wire_consts]: "UnavailableNetDefaultRoute = ''network.default_route''"
definition UnavailableNetLinkSpeed :: string where [wire_consts]: "UnavailableNetLinkSpeed = ''network.link_speed''"
definition UnavailableTCP :: string where [wire_consts]: "UnavailableTCP = ''tcp''"
definition UnavailableSockets :: string where [wire_consts]: "UnavailableSockets = ''sockets''"
definition UnavailableConntrack :: string where [wire_consts]: "UnavailableConntrack = ''conntrack''"
definition UnavailableProcessAgent :: string where [wire_consts]: "UnavailableProcessAgent = ''process.agent''"
definition UnavailableProcessCore :: string where [wire_consts]: "UnavailableProcessCore = ''process.core''"
definition UnavailableRuntimeSync :: string where [wire_consts]: "UnavailableRuntimeSync = ''runtime.sync''"
definition UnavailableTuningCC :: string where [wire_consts]: "UnavailableTuningCC = ''tuning.tcp_congestion_control''"
definition UnavailableTuningQdisc :: string where [wire_consts]: "UnavailableTuningQdisc = ''tuning.default_qdisc''"
definition UnavailablePlatformKernel :: string where [wire_consts]: "UnavailablePlatformKernel = ''platform.kernel''"
definition UnavailablePlatformDistro :: string where [wire_consts]: "UnavailablePlatformDistro = ''platform.distribution''"

section \<open>The sections of a sample\<close>

record HostScope =
  hs_Deployment :: Deployment
  hs_ResourceScope :: ResourceScope
  hs_CgroupVersion :: goint
  hs_DataFilesystemScope :: DataFilesystemScope

record PlatformObservation =
  pl_OS :: string
  pl_Arch :: string
  pl_KernelRelease :: string
  pl_DistributionID :: string
  pl_VersionID :: string
  pl_LogicalCPUs :: goint

record SystemCPUObservation =
  su_CounterEpoch :: string
  su_Total :: uint64
  su_Idle :: uint64
  su_IOWait :: uint64
  su_Steal :: uint64

record CgroupCPUObservation =
  gc_CounterEpoch :: string
  gc_UsageUS :: "uint64 option"
  gc_UserUS :: "uint64 option"
  gc_SystemUS :: "uint64 option"
  gc_NrPeriods :: "uint64 option"
  gc_NrThrottled :: "uint64 option"
  gc_ThrottledUS :: "uint64 option"
  gc_QuotaUS :: "uint64 option"
  gc_PeriodUS :: "uint64 option"
  gc_EffectiveCPUs :: "uint64 option"

record CPUObservation =
  cpu_System :: "SystemCPUObservation option"
  cpu_Cgroup :: "CgroupCPUObservation option"

record LoadObservation =
  ld_Load1 :: float64
  ld_Load5 :: float64
  ld_Load15 :: float64

record SystemMemoryObservation =
  sm_TotalBytes :: uint64
  sm_AvailableBytes :: "uint64 option"
  sm_SwapTotalBytes :: uint64
  sm_SwapFreeBytes :: uint64

record CgroupMemoryObservation =
  gm_CounterEpoch :: string
  gm_CurrentBytes :: uint64
  gm_LimitBytes :: "uint64 option"
  gm_SwapCurrentBytes :: "uint64 option"
  gm_SwapLimitBytes :: "uint64 option"
  gm_OOMEvents :: "uint64 option"
  gm_OOMKillEvents :: "uint64 option"

record MemoryObservation =
  mem_System :: "SystemMemoryObservation option"
  mem_Cgroup :: "CgroupMemoryObservation option"

record FilesystemObservation =
  fs_TotalBytes :: uint64
  fs_AvailableBytes :: uint64
  fs_TotalInodes :: "uint64 option"
  fs_AvailableInodes :: "uint64 option"
  fs_ReadOnly :: bool

record NetworkInterfaceObservation =
  ni_Name :: string
  ni_Index :: goint
  ni_MTU :: goint
  ni_Up :: bool
  ni_OperationalState :: OperationalState
  ni_LinkSpeedMbps :: "uint64 option"
  ni_RXBytes :: uint64
  ni_RXPackets :: uint64
  ni_RXErrors :: uint64
  ni_RXDropped :: uint64
  ni_TXBytes :: uint64
  ni_TXPackets :: uint64
  ni_TXErrors :: uint64
  ni_TXDropped :: uint64

record NetworkObservation =
  nw_CounterEpoch :: string
  nw_DefaultIPv4Interface :: string
  nw_DefaultIPv6Interface :: string
  nw_Interfaces :: "NetworkInterfaceObservation list"

record TCPObservation =
  tcp_CounterEpoch :: string
  tcp_ActiveOpens :: uint64
  tcp_PassiveOpens :: uint64
  tcp_AttemptFails :: uint64
  tcp_EstabResets :: uint64
  tcp_InSegments :: uint64
  tcp_OutSegments :: uint64
  tcp_RetransSegments :: uint64
  tcp_CurrentEstablished :: uint64

record SocketObservation =
  sk_TCPInUse :: uint64
  sk_TCPOrphan :: uint64
  sk_TCPTimeWait :: uint64
  sk_UDPInUse :: uint64
  sk_ConntrackCurrent :: "uint64 option"
  sk_ConntrackLimit :: "uint64 option"

record ProcessMetrics =
  pm_StartedAtMS :: int64
  pm_CounterEpoch :: string
  pm_CPUTime :: "uint64 option"
  pm_CPUTimeUnitsPerSecond :: "uint64 option"
  pm_RSSBytes :: uint64
  pm_OpenFDs :: uint64
  pm_FDLimit :: "uint64 option"
  pm_Threads :: uint64

record ProcessObservation =
  po_Agent :: ProcessMetrics
  po_Core :: "ProcessMetrics option"

record RuntimeObservation =
  rt_AgentStartedAtMS :: int64
  rt_CoreRestartCount :: uint64
  rt_CoreUnexpectedExitCount :: "uint64 option"
  rt_LastCoreUnexpectedExitAtMS :: int64
  rt_LastSyncSuccessAtMS :: int64
  rt_LastSyncFailureAtMS :: int64
  rt_ConsecutiveSyncFailures :: uint64
  rt_SyncSuccessCount :: uint64
  rt_SyncFailureCount :: uint64
  rt_LastRoundTripMS :: "uint64 option"
  rt_LastRequestBytes :: "uint64 option"
  rt_LastResponseBytes :: "uint64 option"
  rt_CollectorDurationMS :: uint64

record TuningObservation =
  tu_TCPAvailableCongestionControls :: "string list"
  tu_TCPDefaultCongestionControl :: string
  tu_DefaultQdisc :: string

record HostObservation =
  ho_SampleID :: string
  ho_CollectedAtMS :: int64
  ho_UptimeMS :: int64
  ho_BootID :: string
  ho_Scope :: HostScope
  ho_Platform :: PlatformObservation
  ho_CPU :: "CPUObservation option"
  ho_Load :: "LoadObservation option"
  ho_Memory :: "MemoryObservation option"
  ho_Filesystem :: "FilesystemObservation option"
  ho_Network :: "NetworkObservation option"
  ho_TCP :: "TCPObservation option"
  ho_Sockets :: "SocketObservation option"
  ho_Processes :: "ProcessObservation option"
  ho_Runtime :: "RuntimeObservation option"
  ho_Tuning :: "TuningObservation option"
  ho_Unavailable :: "string list"

end
