(* ===== verification/HostCheck.thy ===== *)
theory HostCheck
  imports Host
begin

text \<open>
  The validation of a telemetry sample, \<open>ValidateHostObservation\<close> and the section
  validators it calls in \<open>protocol/validate.go\<close>. A dereference of a pointer is modelled as
  in the source, with \<open>NilDereference\<close> for the panic of a \<open>nil\<close> one; the lemmas show that
  it never happens and say what each section validator admits.
\<close>

section \<open>Errors\<close>

datatype host_error =
    HostField field_error
  | BadSampleID
  | BadCollectedAt
  | NegativeUptime
  | BadCgroupVersion goint
  | BadLogicalCPUs
  | TooManyUnavailable nat
  | TokenTooLong string
  | TokenNotCanonical string
  | TokenRepeated string
  | CPUEmpty
  | CPUIdleExceedsTotal
  | CgroupCPUEmpty
  | CgroupEpochRequired
  | QuotaPeriodPair
  | QuotaPeriodZero
  | ThrottleTriple
  | ThrottledExceedsPeriods
  | MemoryEmpty
  | AvailableExceedsTotal
  | SwapFreeExceedsTotal
  | MemoryLimitZero
  | OOMPair
  | FilesystemAvailableExceedsTotal
  | InodePair
  | InodesExceedTotal
  | TooManyInterfaces nat
  | RepeatedInterfaceName string
  | RepeatedInterfaceIndex goint
  | BadInterfaceIndex string
  | BadInterfaceMTU string
  | BadLinkSpeed string
  | ConntrackPair
  | BadStartedAt string
  | CPUTimePair string
  | UnitsPerSecondZero string
  | BadAgentStartedAt
  | RuntimeOutOfRange string
  | TooManyControls nat
  | ControlTooLong string
  | ControlNotToken string
  | DefaultControlNotToken
  | QdiscNotToken
  | NilDereference

definition deref :: "'a option \<Rightarrow> ('a \<Rightarrow> host_error option) \<Rightarrow> host_error option" where
  "deref p f = (case p of None \<Rightarrow> Some NilDereference | Some v \<Rightarrow> f v)"

abbreviation host_text :: "string \<Rightarrow> string \<Rightarrow> nat \<Rightarrow> bool \<Rightarrow> host_error option" where
  "host_text name value maxBytes required \<equiv> wrap_error HostField (validateText name value maxBytes required)"

lemma deref_simps [simp]: "deref None f = Some NilDereference" "deref (Some v) f = f v"
  by (simp_all add: deref_def)

section \<open>Identity, scope, platform and unavailable tokens\<close>

definition validateHostIdentity :: "HostObservation \<Rightarrow> host_error option" where
  "validateHostIdentity host = first_error
     [check (\<not> validSampleID (ho_SampleID host)) BadSampleID,
      check (sint (ho_CollectedAtMS host) \<le> 0 \<or> sint (ho_CollectedAtMS host) > maxUnixMilli) BadCollectedAt,
      check (sint (ho_UptimeMS host) < 0) NegativeUptime,
      host_text ''boot_id'' (ho_BootID host) MaxBootIDBytes False]"

definition validateHostScope :: "HostScope \<Rightarrow> host_error option" where
  "validateHostScope scope = first_error
     [wrap_error HostField (validateEnum ''scope.deployment'' (hs_Deployment scope)
        [DeploymentSystemd, DeploymentDocker, DeploymentManual, DeploymentUnknown]),
      wrap_error HostField (validateEnum ''scope.resource_scope'' (hs_ResourceScope scope)
        [ScopeHost, ScopeContainer, ScopeMixed, ScopeUnknown]),
      check (\<not> (hs_CgroupVersion scope = 0 \<or> hs_CgroupVersion scope = 1 \<or> hs_CgroupVersion scope = 2))
        (BadCgroupVersion (hs_CgroupVersion scope)),
      wrap_error HostField (validateEnum ''scope.data_filesystem_scope'' (hs_DataFilesystemScope scope)
        [FilesystemScopeHostMount, FilesystemScopeContainerMount, FilesystemScopeUnknown])]"

definition validateHostPlatform :: "PlatformObservation \<Rightarrow> host_error option" where
  "validateHostPlatform platform = first_error
     [host_text ''platform.os'' (pl_OS platform) MaxPlatformFieldBytes True,
      host_text ''platform.arch'' (pl_Arch platform) MaxPlatformFieldBytes True,
      host_text ''platform.distribution_id'' (pl_DistributionID platform) MaxPlatformFieldBytes False,
      host_text ''platform.version_id'' (pl_VersionID platform) MaxKernelReleaseBytes False,
      host_text ''platform.kernel_release'' (pl_KernelRelease platform) MaxKernelReleaseBytes False,
      check (sint (pl_LogicalCPUs platform) < MinLogicalCPUs \<or> sint (pl_LogicalCPUs platform) > MaxLogicalCPUs)
        BadLogicalCPUs]"

definition unavailable_shape :: "string \<Rightarrow> host_error option" where
  "unavailable_shape token = first_error
     [check (length token > MaxUnavailableTokenBytes) (TokenTooLong token),
      check (\<not> validToken token) (TokenNotCanonical token)]"

definition unavailable_step :: "string set \<Rightarrow> string \<Rightarrow> host_error + string set" where
  "unavailable_step seen token = after_checks [check (token \<in> seen) (TokenRepeated token)] (insert token seen)"

definition validateUnavailable :: "string list \<Rightarrow> host_error option" where
  "validateUnavailable unavailable = first_error
     [check (length unavailable > MaxUnavailableTokens) (TooManyUnavailable (length unavailable)),
      for_each unavailable_shape unavailable,
      error_of (for_range unavailable_step {} unavailable)]"

interpretation unavailable_loop: dedup_loop unavailable_step "\<lambda>t. t" "\<lambda>t. True"
  by unfold_locales (auto simp: unavailable_step_def)

definition identity_ok :: "HostObservation \<Rightarrow> bool" where
  "identity_ok h \<longleftrightarrow>
     length (ho_SampleID h) = 32 \<and> list_all lower_hex (ho_SampleID h) \<and>
     sint (ho_CollectedAtMS h) \<in> {1..maxUnixMilli} \<and> 0 \<le> sint (ho_UptimeMS h) \<and>
     text_ok (ho_BootID h) 64 False"

definition scope_ok :: "HostScope \<Rightarrow> bool" where
  "scope_ok s \<longleftrightarrow>
     hs_Deployment s \<in> {''systemd'', ''docker'', ''manual'', ''unknown''} \<and>
     hs_ResourceScope s \<in> {''host'', ''container'', ''mixed'', ''unknown''} \<and>
     hs_CgroupVersion s \<in> {0, 1, 2} \<and>
     hs_DataFilesystemScope s \<in> {''host_mount'', ''container_mount'', ''unknown''}"

definition platform_ok :: "PlatformObservation \<Rightarrow> bool" where
  "platform_ok p \<longleftrightarrow>
     text_ok (pl_OS p) 32 True \<and> text_ok (pl_Arch p) 32 True \<and> text_ok (pl_DistributionID p) 32 False \<and>
     text_ok (pl_VersionID p) 128 False \<and> text_ok (pl_KernelRelease p) 128 False \<and>
     sint (pl_LogicalCPUs p) \<in> {1..4096}"

text \<open>Only the shape of a token is restricted: tokens this version does not know are legal.\<close>

definition unavailable_ok :: "string list \<Rightarrow> bool" where
  "unavailable_ok ts \<longleftrightarrow>
     length ts \<le> 32 \<and> list_all (\<lambda>t. canonical_token t \<and> length t \<le> 64) ts \<and> distinct ts"

lemma validateHostIdentity_iff [accepts]: "validateHostIdentity h = None \<longleftrightarrow> identity_ok h"
  by (auto simp: validateHostIdentity_def identity_ok_def validSampleID_iff validateText_iff MaxBootIDBytes_def)

lemma validateHostScope_iff [accepts]: "validateHostScope s = None \<longleftrightarrow> scope_ok s"
  by (simp add: validateHostScope_def scope_ok_def validateEnum_iff DeploymentSystemd_def
      DeploymentDocker_def DeploymentManual_def DeploymentUnknown_def ScopeHost_def
      ScopeContainer_def ScopeMixed_def ScopeUnknown_def FilesystemScopeHostMount_def
      FilesystemScopeContainerMount_def FilesystemScopeUnknown_def)

lemma validateHostPlatform_iff [accepts]: "validateHostPlatform p = None \<longleftrightarrow> platform_ok p"
  by (auto simp: validateHostPlatform_def platform_ok_def validateText_iff MaxPlatformFieldBytes_def
      MaxKernelReleaseBytes_def MinLogicalCPUs_def MaxLogicalCPUs_def)

lemma validateUnavailable_iff [accepts]: "validateUnavailable ts = None \<longleftrightarrow> unavailable_ok ts"
  by (auto simp: validateUnavailable_def unavailable_ok_def unavailable_shape_def for_each_None
      unavailable_loop.loop_passes validToken_iff MaxUnavailableTokens_def
      MaxUnavailableTokenBytes_def list_all_iff not_less)

section \<open>CPU and load\<close>

definition validateCgroupCPU :: "CgroupCPUObservation \<Rightarrow> host_error option" where
  "validateCgroupCPU cgroup =
     (let hasUsage = (gc_UsageUS cgroup \<noteq> None);
          hasQuota = (gc_QuotaUS cgroup \<noteq> None \<or> gc_PeriodUS cgroup \<noteq> None);
          hasEffectiveCPUs = (gc_EffectiveCPUs cgroup \<noteq> None);
          throttleFields = length (filter (\<lambda>value. value \<noteq> None)
            [gc_NrPeriods cgroup, gc_NrThrottled cgroup, gc_ThrottledUS cgroup])
      in first_error
        [check (\<not> hasUsage \<and> \<not> hasQuota \<and> \<not> hasEffectiveCPUs \<and> throttleFields = 0) CgroupCPUEmpty,
         check ((hasUsage \<or> throttleFields > 0) \<and> gc_CounterEpoch cgroup = []) CgroupEpochRequired,
         host_text ''cpu.cgroup.counter_epoch'' (gc_CounterEpoch cgroup) MaxCounterEpochBytes False,
         check ((gc_QuotaUS cgroup = None) \<noteq> (gc_PeriodUS cgroup = None)) QuotaPeriodPair,
         (if gc_QuotaUS cgroup \<noteq> None then
            deref (gc_QuotaUS cgroup) (\<lambda>quota.
              if quota = 0 then Some QuotaPeriodZero
              else deref (gc_PeriodUS cgroup) (\<lambda>period. check (period = 0) QuotaPeriodZero))
          else None),
         check (throttleFields \<noteq> 0 \<and> throttleFields \<noteq> 3) ThrottleTriple,
         (if gc_NrPeriods cgroup \<noteq> None then
            deref (gc_NrThrottled cgroup) (\<lambda>throttled.
              deref (gc_NrPeriods cgroup) (\<lambda>periods. check (throttled > periods) ThrottledExceedsPeriods))
          else None),
         wrap_error HostField (within_some
           [(''cpu.cgroup.usage_us'', gc_UsageUS cgroup),
            (''cpu.cgroup.user_us'', gc_UserUS cgroup),
            (''cpu.cgroup.system_us'', gc_SystemUS cgroup),
            (''cpu.cgroup.nr_periods'', gc_NrPeriods cgroup),
            (''cpu.cgroup.nr_throttled'', gc_NrThrottled cgroup),
            (''cpu.cgroup.throttled_us'', gc_ThrottledUS cgroup),
            (''cpu.cgroup.quota_us'', gc_QuotaUS cgroup),
            (''cpu.cgroup.period_us'', gc_PeriodUS cgroup),
            (''cpu.cgroup.effective_cpus'', gc_EffectiveCPUs cgroup)])])"

definition validateSystemCPU :: "SystemCPUObservation \<Rightarrow> host_error option" where
  "validateSystemCPU system = first_error
     [host_text ''cpu.system.counter_epoch'' (su_CounterEpoch system) MaxCounterEpochBytes True,
      wrap_error HostField (within_all
        [(''cpu.system.total'', su_Total system), (''cpu.system.idle'', su_Idle system),
         (''cpu.system.iowait'', su_IOWait system), (''cpu.system.steal'', su_Steal system)]),
      check (su_Idle system + su_IOWait system > su_Total system) CPUIdleExceedsTotal]"

definition validateCPUObservation :: "CPUObservation \<Rightarrow> host_error option" where
  "validateCPUObservation cpu = first_error
     [check (cpu_System cpu = None \<and> cpu_Cgroup cpu = None) CPUEmpty,
      when_some (cpu_System cpu) validateSystemCPU,
      when_some (cpu_Cgroup cpu) validateCgroupCPU]"

definition validateLoadObservation :: "LoadObservation \<Rightarrow> host_error option" where
  "validateLoadObservation load = wrap_error HostField (for_each (\<lambda>(name, value). validMetricFloat name value)
     [(''load_1'', ld_Load1 load), (''load_5'', ld_Load5 load), (''load_15'', ld_Load15 load)])"

text \<open>The three throttle counters are given together, and so are quota and period.\<close>

definition throttle_ok :: "CgroupCPUObservation \<Rightarrow> bool" where
  "throttle_ok g \<longleftrightarrow>
     (case (gc_NrPeriods g, gc_NrThrottled g, gc_ThrottledUS g) of
        (None, None, None) \<Rightarrow> True
      | (Some periods, Some throttled, Some _) \<Rightarrow> throttled \<le> periods
      | _ \<Rightarrow> False)"

definition quota_ok :: "CgroupCPUObservation \<Rightarrow> bool" where
  "quota_ok g \<longleftrightarrow>
     (case (gc_QuotaUS g, gc_PeriodUS g) of
        (None, None) \<Rightarrow> True
      | (Some quota, Some period) \<Rightarrow> quota \<noteq> 0 \<and> period \<noteq> 0
      | _ \<Rightarrow> False)"

definition cgroup_cpu_ok :: "CgroupCPUObservation \<Rightarrow> bool" where
  "cgroup_cpu_ok g \<longleftrightarrow>
     \<not> (gc_UsageUS g = None \<and> gc_QuotaUS g = None \<and> gc_EffectiveCPUs g = None \<and> gc_NrPeriods g = None) \<and>
     text_ok (gc_CounterEpoch g) 128 (gc_UsageUS g \<noteq> None \<or> gc_NrPeriods g \<noteq> None) \<and>
     quota_ok g \<and> throttle_ok g \<and>
     list_all counter_opt_ok [gc_UsageUS g, gc_UserUS g, gc_SystemUS g, gc_NrPeriods g, gc_NrThrottled g,
       gc_ThrottledUS g, gc_QuotaUS g, gc_PeriodUS g, gc_EffectiveCPUs g]"

definition system_cpu_ok :: "SystemCPUObservation \<Rightarrow> bool" where
  "system_cpu_ok s \<longleftrightarrow>
     text_ok (su_CounterEpoch s) 128 True \<and>
     list_all counter_ok [su_Total s, su_Idle s, su_IOWait s, su_Steal s] \<and>
     unat (su_Idle s) + unat (su_IOWait s) \<le> unat (su_Total s)"

definition cpu_ok :: "CPUObservation \<Rightarrow> bool" where
  "cpu_ok c \<longleftrightarrow>
     \<not> (cpu_System c = None \<and> cpu_Cgroup c = None) \<and>
     pred_option system_cpu_ok (cpu_System c) \<and> pred_option cgroup_cpu_ok (cpu_Cgroup c)"

definition load_ok :: "LoadObservation \<Rightarrow> bool" where
  "load_ok l \<longleftrightarrow> metric_ok (ld_Load1 l) \<and> metric_ok (ld_Load5 l) \<and> metric_ok (ld_Load15 l)"

lemma when_some_iff:
  "when_some x f = None \<longleftrightarrow> pred_option (\<lambda>v. f v = None) x"
  by (cases x) simp_all

lemma validateCgroupCPU_iff [accepts]: "validateCgroupCPU g = None \<longleftrightarrow> cgroup_cpu_ok g"
  by (cases "gc_NrPeriods g"; cases "gc_NrThrottled g"; cases "gc_ThrottledUS g";
      cases "gc_QuotaUS g"; cases "gc_PeriodUS g")
    (auto simp: validateCgroupCPU_def cgroup_cpu_ok_def throttle_ok_def quota_ok_def within_some_iff
      validateText_iff text_ok_def MaxCounterEpochBytes_def Let_def not_less)

text \<open>Two counters in the signed range add up without wrapping.\<close>

lemma counters_add: "counter_ok a \<Longrightarrow> counter_ok b \<Longrightarrow> unat (a + b) = unat a + unat b"
  unfolding counter_ok_def by (subst unat_word_ariths(1)) simp

lemma validateSystemCPU_iff [accepts]: "validateSystemCPU s = None \<longleftrightarrow> system_cpu_ok s"
  by (auto simp: validateSystemCPU_def system_cpu_ok_def within_all_iff validateText_iff
      MaxCounterEpochBytes_def not_less word_le_nat_alt counters_add)

lemma validateCPUObservation_iff [accepts]: "validateCPUObservation c = None \<longleftrightarrow> cpu_ok c"
  by (simp add: validateCPUObservation_def cpu_ok_def when_some_iff validateSystemCPU_iff validateCgroupCPU_iff)

lemma validateLoadObservation_iff [accepts]: "validateLoadObservation l = None \<longleftrightarrow> load_ok l"
  by (simp add: validateLoadObservation_def load_ok_def for_each_None validMetricFloat_iff del: for_each.simps)

section \<open>Memory and filesystem\<close>

definition validateSystemMemory :: "SystemMemoryObservation \<Rightarrow> host_error option" where
  "validateSystemMemory system = first_error
     [wrap_error HostField (withinInt64 ''memory.system.total_bytes'' (sm_TotalBytes system)),
      wrap_error HostField (withinInt64 ''memory.system.swap_total_bytes'' (sm_SwapTotalBytes system)),
      wrap_error HostField (withinInt64 ''memory.system.swap_free_bytes'' (sm_SwapFreeBytes system)),
      when_some (sm_AvailableBytes system) (\<lambda>available. first_error
        [wrap_error HostField (withinInt64 ''memory.system.available_bytes'' available),
         check (available > sm_TotalBytes system) AvailableExceedsTotal]),
      check (sm_SwapFreeBytes system > sm_SwapTotalBytes system) SwapFreeExceedsTotal]"

definition validateCgroupMemory :: "CgroupMemoryObservation \<Rightarrow> host_error option" where
  "validateCgroupMemory cgroup = first_error
     [host_text ''memory.cgroup.counter_epoch'' (gm_CounterEpoch cgroup) MaxCounterEpochBytes True,
      wrap_error HostField (within_some
        [(''memory.cgroup.current_bytes'', Some (gm_CurrentBytes cgroup)),
         (''memory.cgroup.limit_bytes'', gm_LimitBytes cgroup),
         (''memory.cgroup.swap_current_bytes'', gm_SwapCurrentBytes cgroup),
         (''memory.cgroup.swap_limit_bytes'', gm_SwapLimitBytes cgroup),
         (''memory.cgroup.oom_events'', gm_OOMEvents cgroup),
         (''memory.cgroup.oom_kill_events'', gm_OOMKillEvents cgroup)]),
      check (gm_LimitBytes cgroup = Some 0) MemoryLimitZero,
      check ((gm_OOMEvents cgroup = None) \<noteq> (gm_OOMKillEvents cgroup = None)) OOMPair]"

definition validateMemoryObservation :: "MemoryObservation \<Rightarrow> host_error option" where
  "validateMemoryObservation memory = first_error
     [check (mem_System memory = None \<and> mem_Cgroup memory = None) MemoryEmpty,
      when_some (mem_System memory) validateSystemMemory,
      when_some (mem_Cgroup memory) validateCgroupMemory]"

definition validateFilesystemObservation :: "FilesystemObservation \<Rightarrow> host_error option" where
  "validateFilesystemObservation filesystem = first_error
     [wrap_error HostField (withinInt64 ''filesystem.total_bytes'' (fs_TotalBytes filesystem)),
      wrap_error HostField (withinInt64 ''filesystem.available_bytes'' (fs_AvailableBytes filesystem)),
      check (fs_AvailableBytes filesystem > fs_TotalBytes filesystem) FilesystemAvailableExceedsTotal,
      check ((fs_TotalInodes filesystem = None) \<noteq> (fs_AvailableInodes filesystem = None)) InodePair,
      (if fs_TotalInodes filesystem \<noteq> None then first_error
         [deref (fs_TotalInodes filesystem) (\<lambda>v. wrap_error HostField (withinInt64 ''filesystem.total_inodes'' v)),
          deref (fs_AvailableInodes filesystem) (\<lambda>v. wrap_error HostField (withinInt64 ''filesystem.available_inodes'' v)),
          deref (fs_AvailableInodes filesystem) (\<lambda>a. deref (fs_TotalInodes filesystem) (\<lambda>t.
            check (a > t) InodesExceedTotal))]
       else None)]"

definition system_memory_ok :: "SystemMemoryObservation \<Rightarrow> bool" where
  "system_memory_ok s \<longleftrightarrow>
     list_all counter_ok [sm_TotalBytes s, sm_SwapTotalBytes s, sm_SwapFreeBytes s] \<and>
     pred_option (\<lambda>a. counter_ok a \<and> a \<le> sm_TotalBytes s) (sm_AvailableBytes s) \<and>
     sm_SwapFreeBytes s \<le> sm_SwapTotalBytes s"

definition cgroup_memory_ok :: "CgroupMemoryObservation \<Rightarrow> bool" where
  "cgroup_memory_ok g \<longleftrightarrow>
     text_ok (gm_CounterEpoch g) 128 True \<and> counter_ok (gm_CurrentBytes g) \<and>
     list_all counter_opt_ok [gm_LimitBytes g, gm_SwapCurrentBytes g, gm_SwapLimitBytes g, gm_OOMEvents g,
       gm_OOMKillEvents g] \<and>
     gm_LimitBytes g \<noteq> Some 0 \<and> (gm_OOMEvents g = None \<longleftrightarrow> gm_OOMKillEvents g = None)"

definition memory_ok :: "MemoryObservation \<Rightarrow> bool" where
  "memory_ok m \<longleftrightarrow>
     \<not> (mem_System m = None \<and> mem_Cgroup m = None) \<and>
     pred_option system_memory_ok (mem_System m) \<and> pred_option cgroup_memory_ok (mem_Cgroup m)"

definition filesystem_ok :: "FilesystemObservation \<Rightarrow> bool" where
  "filesystem_ok f \<longleftrightarrow>
     counter_ok (fs_TotalBytes f) \<and> fs_AvailableBytes f \<le> fs_TotalBytes f \<and>
     (case (fs_TotalInodes f, fs_AvailableInodes f) of
        (None, None) \<Rightarrow> True | (Some t, Some a) \<Rightarrow> counter_ok t \<and> a \<le> t | _ \<Rightarrow> False)"

lemma counter_ok_mono: "counter_ok b \<Longrightarrow> a \<le> b \<Longrightarrow> counter_ok a"
  unfolding counter_ok_def by (meson le_less_trans word_le_nat_alt)

lemma validateMemoryObservation_iff [accepts]: "validateMemoryObservation m = None \<longleftrightarrow> memory_ok m"
proof -
  have "validateSystemMemory s = None \<longleftrightarrow> system_memory_ok s" for s
    by (cases "sm_AvailableBytes s")
      (auto simp: validateSystemMemory_def system_memory_ok_def withinInt64_iff not_less)
  moreover have "validateCgroupMemory g = None \<longleftrightarrow> cgroup_memory_ok g" for g
    by (auto simp: validateCgroupMemory_def cgroup_memory_ok_def within_some_iff validateText_iff
        MaxCounterEpochBytes_def)
  ultimately show ?thesis
    by (simp add: validateMemoryObservation_def memory_ok_def when_some_iff)
qed

lemma validateFilesystemObservation_iff [accepts]:
  "validateFilesystemObservation f = None \<longleftrightarrow> filesystem_ok f"
  by (cases "fs_TotalInodes f"; cases "fs_AvailableInodes f")
    (auto simp: validateFilesystemObservation_def filesystem_ok_def withinInt64_iff not_less
      intro: counter_ok_mono)

section \<open>Network\<close>

definition validateNetworkInterface :: "NetworkInterfaceObservation \<Rightarrow> host_error option" where
  "validateNetworkInterface ni = first_error
     [host_text ''interfaces[].name'' (ni_Name ni) MaxInterfaceNameBytes True,
      check (sint (ni_Index ni) \<le> 0) (BadInterfaceIndex (ni_Name ni)),
      check (sint (ni_MTU ni) \<le> 0 \<or> sint (ni_MTU ni) > MaxInterfaceMTU) (BadInterfaceMTU (ni_Name ni)),
      (if ni_OperationalState ni \<noteq> [] then
         wrap_error HostField (validateEnum ''interfaces[].operational_state'' (ni_OperationalState ni)
           [OperStateUp, OperStateDown, OperStateDormant, OperStateLowerLayerDown, OperStateUnknown,
            OperStateNotPresent, OperStateTesting])
       else None),
      when_some (ni_LinkSpeedMbps ni) (\<lambda>speed.
        check (speed = 0 \<or> unat speed > MaxLinkSpeedMbps) (BadLinkSpeed (ni_Name ni))),
      wrap_error HostField (within_all
        [(''interfaces[].counter rx_bytes'', ni_RXBytes ni), (''interfaces[].counter rx_packets'', ni_RXPackets ni),
         (''interfaces[].counter rx_errors'', ni_RXErrors ni), (''interfaces[].counter rx_dropped'', ni_RXDropped ni),
         (''interfaces[].counter tx_bytes'', ni_TXBytes ni), (''interfaces[].counter tx_packets'', ni_TXPackets ni),
         (''interfaces[].counter tx_errors'', ni_TXErrors ni), (''interfaces[].counter tx_dropped'', ni_TXDropped ni)])]"

definition interfaces_step ::
  "string set \<times> goint set \<Rightarrow> NetworkInterfaceObservation \<Rightarrow> host_error + (string set \<times> goint set)" where
  "interfaces_step seen ni =
     (let (seenNames, seenIndexes) = seen in
      after_checks
        [check (ni_Name ni \<in> seenNames) (RepeatedInterfaceName (ni_Name ni)),
         check (ni_Index ni \<in> seenIndexes) (RepeatedInterfaceIndex (ni_Index ni))]
        (insert (ni_Name ni) seenNames, insert (ni_Index ni) seenIndexes))"

definition validateNetworkObservation :: "NetworkObservation \<Rightarrow> host_error option" where
  "validateNetworkObservation network = first_error
     [host_text ''network.counter_epoch'' (nw_CounterEpoch network) MaxCounterEpochBytes True,
      host_text ''network.default_ipv4_interface'' (nw_DefaultIPv4Interface network) MaxInterfaceNameBytes False,
      host_text ''network.default_ipv6_interface'' (nw_DefaultIPv6Interface network) MaxInterfaceNameBytes False,
      check (length (nw_Interfaces network) > MaxNetworkInterfaces)
        (TooManyInterfaces (length (nw_Interfaces network))),
      for_each validateNetworkInterface (nw_Interfaces network),
      error_of (for_range interfaces_step ({}, {}) (nw_Interfaces network))]"

definition interface_ok :: "NetworkInterfaceObservation \<Rightarrow> bool" where
  "interface_ok ni \<longleftrightarrow>
     text_ok (ni_Name ni) 64 True \<and> 0 < sint (ni_Index ni) \<and> sint (ni_MTU ni) \<in> {1..1048576} \<and>
     ni_OperationalState ni \<in> {[], ''up'', ''down'', ''dormant'', ''lowerlayerdown'', ''unknown'',
       ''notpresent'', ''testing''} \<and>
     pred_option (\<lambda>speed. unat speed \<in> {1..100000000}) (ni_LinkSpeedMbps ni) \<and>
     list_all counter_ok [ni_RXBytes ni, ni_RXPackets ni, ni_RXErrors ni, ni_RXDropped ni,
       ni_TXBytes ni, ni_TXPackets ni, ni_TXErrors ni, ni_TXDropped ni]"

definition network_ok :: "NetworkObservation \<Rightarrow> bool" where
  "network_ok n \<longleftrightarrow>
     text_ok (nw_CounterEpoch n) 128 True \<and> text_ok (nw_DefaultIPv4Interface n) 64 False \<and>
     text_ok (nw_DefaultIPv6Interface n) 64 False \<and>
     length (nw_Interfaces n) \<le> 32 \<and> list_all interface_ok (nw_Interfaces n) \<and>
     distinct (map ni_Name (nw_Interfaces n)) \<and> distinct (map ni_Index (nw_Interfaces n))"

lemma link_speed_range: "\<not> (speed = 0 \<or> unat speed > MaxLinkSpeedMbps) \<longleftrightarrow> unat (speed :: uint64) \<in> {1..100000000}"
  using unat_eq_zero [of speed] by (auto simp: MaxLinkSpeedMbps_def)

lemma mtu_range: "\<not> (sint mtu \<le> 0 \<or> sint mtu > MaxInterfaceMTU) \<longleftrightarrow> sint (mtu :: goint) \<in> {1..1048576}"
  by (auto simp: MaxInterfaceMTU_def)

lemma operational_state_range:
  "(if s \<noteq> [] then wrap_error HostField (validateEnum name s
      [OperStateUp, OperStateDown, OperStateDormant, OperStateLowerLayerDown, OperStateUnknown,
       OperStateNotPresent, OperStateTesting]) else None) = None \<longleftrightarrow>
    s \<in> {[], ''up'', ''down'', ''dormant'', ''lowerlayerdown'', ''unknown'', ''notpresent'', ''testing''}"
  by (cases "s = []") (simp_all add: validateEnum_iff OperStateUp_def OperStateDown_def OperStateDormant_def
    OperStateLowerLayerDown_def OperStateUnknown_def OperStateNotPresent_def OperStateTesting_def)

lemma validateNetworkInterface_iff: "validateNetworkInterface ni = None \<longleftrightarrow> interface_ok ni"
  unfolding validateNetworkInterface_def interface_ok_def first_error_None_Cons operational_state_range
    check_None mtu_range link_speed_range when_some_iff
  by (simp add: validateText_iff within_all_iff MaxInterfaceNameBytes_def not_le)

lemma interfaces_loop_accepts:
  "(\<exists>t. for_range interfaces_step (names, idxs) nis = Inr t) \<longleftrightarrow>
    distinct (map ni_Name nis) \<and> distinct (map ni_Index nis) \<and>
    names \<inter> ni_Name ` set nis = {} \<and> idxs \<inter> ni_Index ` set nis = {}"
proof (induction nis arbitrary: names idxs)
  case (Cons ni nis)
  show ?case
  proof (cases "ni_Name ni \<in> names \<or> ni_Index ni \<in> idxs")
    case True
    then have "\<exists>e. interfaces_step (names, idxs) ni = Inl e"
      by (auto simp: interfaces_step_def after_checks_def check_def)
    with True show ?thesis by auto
  next
    case False
    then have "interfaces_step (names, idxs) ni = Inr (insert (ni_Name ni) names, insert (ni_Index ni) idxs)"
      by (simp add: interfaces_step_def)
    with False Cons.IH [of "insert (ni_Name ni) names" "insert (ni_Index ni) idxs"]
    show ?thesis by auto
  qed
qed simp

lemma validateNetworkObservation_iff [accepts]: "validateNetworkObservation n = None \<longleftrightarrow> network_ok n"
  using interfaces_loop_accepts [of "{}" "{}" "nw_Interfaces n"]
  by (auto simp: validateNetworkObservation_def network_ok_def validateText_iff for_each_None error_of_None
      validateNetworkInterface_iff MaxCounterEpochBytes_def MaxInterfaceNameBytes_def MaxNetworkInterfaces_def)

section \<open>TCP and sockets\<close>

definition validateTCPObservation :: "TCPObservation \<Rightarrow> host_error option" where
  "validateTCPObservation tcp = first_error
     [host_text ''tcp.counter_epoch'' (tcp_CounterEpoch tcp) MaxCounterEpochBytes True,
      wrap_error HostField (within_all
        [(''tcp.active_opens'', tcp_ActiveOpens tcp), (''tcp.passive_opens'', tcp_PassiveOpens tcp),
         (''tcp.attempt_fails'', tcp_AttemptFails tcp), (''tcp.estab_resets'', tcp_EstabResets tcp),
         (''tcp.in_segments'', tcp_InSegments tcp), (''tcp.out_segments'', tcp_OutSegments tcp),
         (''tcp.retrans_segments'', tcp_RetransSegments tcp),
         (''tcp.current_established'', tcp_CurrentEstablished tcp)])]"

definition validateSocketObservation :: "SocketObservation \<Rightarrow> host_error option" where
  "validateSocketObservation sockets = first_error
     [wrap_error HostField (within_all
        [(''sockets.tcp_in_use'', sk_TCPInUse sockets), (''sockets.tcp_orphan'', sk_TCPOrphan sockets),
         (''sockets.tcp_time_wait'', sk_TCPTimeWait sockets), (''sockets.udp_in_use'', sk_UDPInUse sockets)]),
      wrap_error HostField (within_some
        [(''sockets.conntrack_current'', sk_ConntrackCurrent sockets),
         (''sockets.conntrack_limit'', sk_ConntrackLimit sockets)]),
      check ((sk_ConntrackCurrent sockets = None) \<noteq> (sk_ConntrackLimit sockets = None)) ConntrackPair]"

definition tcp_ok :: "TCPObservation \<Rightarrow> bool" where
  "tcp_ok t \<longleftrightarrow>
     text_ok (tcp_CounterEpoch t) 128 True \<and>
     list_all counter_ok [tcp_ActiveOpens t, tcp_PassiveOpens t, tcp_AttemptFails t, tcp_EstabResets t,
       tcp_InSegments t, tcp_OutSegments t, tcp_RetransSegments t, tcp_CurrentEstablished t]"

definition sockets_ok :: "SocketObservation \<Rightarrow> bool" where
  "sockets_ok s \<longleftrightarrow>
     list_all counter_ok [sk_TCPInUse s, sk_TCPOrphan s, sk_TCPTimeWait s, sk_UDPInUse s] \<and>
     list_all counter_opt_ok [sk_ConntrackCurrent s, sk_ConntrackLimit s] \<and>
     (sk_ConntrackCurrent s = None \<longleftrightarrow> sk_ConntrackLimit s = None)"

lemma validateTCPObservation_iff [accepts]: "validateTCPObservation t = None \<longleftrightarrow> tcp_ok t"
  by (simp add: validateTCPObservation_def tcp_ok_def validateText_iff within_all_iff MaxCounterEpochBytes_def)

lemma validateSocketObservation_iff [accepts]: "validateSocketObservation s = None \<longleftrightarrow> sockets_ok s"
  by (simp add: validateSocketObservation_def sockets_ok_def within_all_iff within_some_iff)

section \<open>Processes, runtime and tuning\<close>

definition validateProcessMetrics :: "string \<Rightarrow> ProcessMetrics \<Rightarrow> host_error option" where
  "validateProcessMetrics name metrics = first_error
     [check (sint (pm_StartedAtMS metrics) \<le> 0 \<or> sint (pm_StartedAtMS metrics) > maxUnixMilli) (BadStartedAt name),
      host_text (name @ ''.counter_epoch'') (pm_CounterEpoch metrics) MaxCounterEpochBytes True,
      wrap_error HostField (within_some
        [(name @ ''.cpu_time'', pm_CPUTime metrics),
         (name @ ''.cpu_time_units_per_second'', pm_CPUTimeUnitsPerSecond metrics),
         (name @ ''.fd_limit'', pm_FDLimit metrics)]),
      check ((pm_CPUTime metrics = None) \<noteq> (pm_CPUTimeUnitsPerSecond metrics = None)) (CPUTimePair name),
      check (pm_CPUTimeUnitsPerSecond metrics = Some 0) (UnitsPerSecondZero name),
      wrap_error HostField (within_all
        [(name @ ''.rss_bytes'', pm_RSSBytes metrics), (name @ ''.open_fds'', pm_OpenFDs metrics),
         (name @ ''.threads'', pm_Threads metrics)])]"

definition validateProcessObservation :: "ProcessObservation \<Rightarrow> host_error option" where
  "validateProcessObservation processes = first_error
     [validateProcessMetrics ''processes.agent'' (po_Agent processes),
      when_some (po_Core processes) (validateProcessMetrics ''processes.core'')]"

definition validateRuntimeObservation :: "RuntimeObservation \<Rightarrow> host_error option" where
  "validateRuntimeObservation runtime = first_error
     [check (sint (rt_AgentStartedAtMS runtime) \<le> 0 \<or> sint (rt_AgentStartedAtMS runtime) > maxUnixMilli)
        BadAgentStartedAt,
      for_each (\<lambda>(name, value). check (sint value < 0 \<or> sint value > maxUnixMilli) (RuntimeOutOfRange name))
        [(''runtime.last_sync_success_at_ms'', rt_LastSyncSuccessAtMS runtime),
         (''runtime.last_sync_failure_at_ms'', rt_LastSyncFailureAtMS runtime),
         (''runtime.last_core_unexpected_exit_at_ms'', rt_LastCoreUnexpectedExitAtMS runtime)],
      wrap_error HostField (within_all
        [(''runtime.core_restart_count'', rt_CoreRestartCount runtime),
         (''runtime.consecutive_sync_failures'', rt_ConsecutiveSyncFailures runtime),
         (''runtime.sync_success_count'', rt_SyncSuccessCount runtime),
         (''runtime.sync_failure_count'', rt_SyncFailureCount runtime),
         (''runtime.collector_duration_ms'', rt_CollectorDurationMS runtime)]),
      wrap_error HostField (within_some
        [(''runtime.last_round_trip_ms'', rt_LastRoundTripMS runtime),
         (''runtime.last_request_bytes'', rt_LastRequestBytes runtime),
         (''runtime.last_response_bytes'', rt_LastResponseBytes runtime),
         (''runtime.core_unexpected_exit_count'', rt_CoreUnexpectedExitCount runtime)])]"

definition validateTuningObservation :: "TuningObservation \<Rightarrow> host_error option" where
  "validateTuningObservation tuning = first_error
     [check (length (tu_TCPAvailableCongestionControls tuning) > MaxCongestionControls)
        (TooManyControls (length (tu_TCPAvailableCongestionControls tuning))),
      for_each (\<lambda>control. first_error
          [check (length control > MaxCongestionControlBytes) (ControlTooLong control),
           check (\<not> validToken control) (ControlNotToken control)])
        (tu_TCPAvailableCongestionControls tuning),
      check (tu_TCPDefaultCongestionControl tuning \<noteq> [] \<and>
        (length (tu_TCPDefaultCongestionControl tuning) > MaxCongestionControlBytes \<or>
         \<not> validToken (tu_TCPDefaultCongestionControl tuning))) DefaultControlNotToken,
      check (tu_DefaultQdisc tuning \<noteq> [] \<and>
        (length (tu_DefaultQdisc tuning) > MaxCongestionControlBytes \<or> \<not> validToken (tu_DefaultQdisc tuning)))
        QdiscNotToken]"

definition instant_ok :: "int64 \<Rightarrow> bool" where
  "instant_ok t \<longleftrightarrow> sint t \<in> {1..maxUnixMilli}"

definition process_ok :: "ProcessMetrics \<Rightarrow> bool" where
  "process_ok p \<longleftrightarrow>
     instant_ok (pm_StartedAtMS p) \<and> text_ok (pm_CounterEpoch p) 128 True \<and>
     list_all counter_opt_ok [pm_CPUTime p, pm_CPUTimeUnitsPerSecond p, pm_FDLimit p] \<and>
     (pm_CPUTime p = None \<longleftrightarrow> pm_CPUTimeUnitsPerSecond p = None) \<and>
     pm_CPUTimeUnitsPerSecond p \<noteq> Some 0 \<and>
     list_all counter_ok [pm_RSSBytes p, pm_OpenFDs p, pm_Threads p]"

definition processes_ok :: "ProcessObservation \<Rightarrow> bool" where
  "processes_ok p \<longleftrightarrow> process_ok (po_Agent p) \<and> pred_option process_ok (po_Core p)"

definition runtime_ok :: "RuntimeObservation \<Rightarrow> bool" where
  "runtime_ok r \<longleftrightarrow>
     instant_ok (rt_AgentStartedAtMS r) \<and>
     list_all (\<lambda>t. t = 0 \<or> instant_ok t) [rt_LastSyncSuccessAtMS r, rt_LastSyncFailureAtMS r,
       rt_LastCoreUnexpectedExitAtMS r] \<and>
     list_all counter_ok [rt_CoreRestartCount r, rt_ConsecutiveSyncFailures r, rt_SyncSuccessCount r,
       rt_SyncFailureCount r, rt_CollectorDurationMS r] \<and>
     list_all counter_opt_ok [rt_LastRoundTripMS r, rt_LastRequestBytes r, rt_LastResponseBytes r,
       rt_CoreUnexpectedExitCount r]"

definition kernel_name_ok :: "string \<Rightarrow> bool" where
  "kernel_name_ok s \<longleftrightarrow> canonical_token s \<and> length s \<le> 32"

definition tuning_ok :: "TuningObservation \<Rightarrow> bool" where
  "tuning_ok t \<longleftrightarrow>
     length (tu_TCPAvailableCongestionControls t) \<le> 32 \<and>
     list_all kernel_name_ok (tu_TCPAvailableCongestionControls t) \<and>
     (tu_TCPDefaultCongestionControl t = [] \<or> kernel_name_ok (tu_TCPDefaultCongestionControl t)) \<and>
     (tu_DefaultQdisc t = [] \<or> kernel_name_ok (tu_DefaultQdisc t))"

lemma instant_range:
  "\<not> (sint t \<le> 0 \<or> sint t > maxUnixMilli) \<longleftrightarrow> instant_ok t"
  "\<not> (sint t < 0 \<or> sint t > maxUnixMilli) \<longleftrightarrow> t = 0 \<or> instant_ok t"
proof -
  show "\<not> (sint t \<le> 0 \<or> sint t > maxUnixMilli) \<longleftrightarrow> instant_ok t" by (auto simp: instant_ok_def)
  have "sint t = 0 \<longleftrightarrow> t = 0" using sint64_eqI [of t 0] by auto
  then show "\<not> (sint t < 0 \<or> sint t > maxUnixMilli) \<longleftrightarrow> t = 0 \<or> instant_ok t"
    by (cases "sint t = 0") (auto simp: instant_ok_def maxUnixMilli_def)
qed

lemma validateProcessMetrics_iff: "validateProcessMetrics name p = None \<longleftrightarrow> process_ok p"
  unfolding validateProcessMetrics_def process_ok_def first_error_None_Cons check_None instant_range
  by (simp add: validateText_iff within_all_iff within_some_iff MaxCounterEpochBytes_def)

lemma validateProcessObservation_iff [accepts]: "validateProcessObservation p = None \<longleftrightarrow> processes_ok p"
  by (simp add: validateProcessObservation_def processes_ok_def validateProcessMetrics_iff when_some_iff)

lemma validateRuntimeObservation_iff [accepts]: "validateRuntimeObservation r = None \<longleftrightarrow> runtime_ok r"
  unfolding validateRuntimeObservation_def runtime_ok_def first_error_None_Cons check_None for_each_None
    instant_range case_prod_beta
  by (simp add: within_all_iff within_some_iff)

lemma validateTuningObservation_iff [accepts]: "validateTuningObservation t = None \<longleftrightarrow> tuning_ok t"
  unfolding validateTuningObservation_def tuning_ok_def kernel_name_ok_def first_error_None_Cons check_None
    for_each_None
  by (auto simp: validToken_iff MaxCongestionControls_def MaxCongestionControlBytes_def list_all_iff not_less)

section \<open>The whole sample\<close>

definition ValidateHostObservation :: "HostObservation \<Rightarrow> host_error option" where
  "ValidateHostObservation host = first_error
     [validateHostIdentity host,
      validateHostScope (ho_Scope host),
      validateHostPlatform (ho_Platform host),
      validateUnavailable (ho_Unavailable host),
      when_some (ho_CPU host) validateCPUObservation,
      when_some (ho_Load host) validateLoadObservation,
      when_some (ho_Memory host) validateMemoryObservation,
      when_some (ho_Filesystem host) validateFilesystemObservation,
      when_some (ho_Network host) validateNetworkObservation,
      when_some (ho_TCP host) validateTCPObservation,
      when_some (ho_Sockets host) validateSocketObservation,
      when_some (ho_Processes host) validateProcessObservation,
      when_some (ho_Runtime host) validateRuntimeObservation,
      when_some (ho_Tuning host) validateTuningObservation]"

definition host_ok :: "HostObservation \<Rightarrow> bool" where
  "host_ok h \<longleftrightarrow>
     identity_ok h \<and> scope_ok (ho_Scope h) \<and> platform_ok (ho_Platform h) \<and>
     unavailable_ok (ho_Unavailable h) \<and>
     pred_option cpu_ok (ho_CPU h) \<and> pred_option load_ok (ho_Load h) \<and>
     pred_option memory_ok (ho_Memory h) \<and> pred_option filesystem_ok (ho_Filesystem h) \<and>
     pred_option network_ok (ho_Network h) \<and> pred_option tcp_ok (ho_TCP h) \<and>
     pred_option sockets_ok (ho_Sockets h) \<and> pred_option processes_ok (ho_Processes h) \<and>
     pred_option runtime_ok (ho_Runtime h) \<and> pred_option tuning_ok (ho_Tuning h)"

lemma ValidateHostObservation_iff [accepts]: "ValidateHostObservation h = None \<longleftrightarrow> host_ok h"
  unfolding ValidateHostObservation_def host_ok_def first_error_None_Cons when_some_iff
    validateHostIdentity_iff validateHostScope_iff validateHostPlatform_iff validateUnavailable_iff
    validateCPUObservation_iff validateLoadObservation_iff validateMemoryObservation_iff
    validateFilesystemObservation_iff validateNetworkObservation_iff validateTCPObservation_iff
    validateSocketObservation_iff validateProcessObservation_iff validateRuntimeObservation_iff
    validateTuningObservation_iff
  by simp

section \<open>No dereference of nil\<close>

definition no_panic :: "host_error option \<Rightarrow> bool" where
  "no_panic r \<longleftrightarrow> r \<noteq> Some NilDereference"

lemma no_panic_simps [simp]: "no_panic None" "no_panic (Some e) \<longleftrightarrow> e \<noteq> NilDereference"
  by (simp_all add: no_panic_def)

lemma no_panic_check [simp]: "no_panic (check bad e) \<longleftrightarrow> \<not> bad \<or> e \<noteq> NilDereference"
  by (simp add: check_def)

lemma no_panic_field [simp]: "no_panic (wrap_error HostField r)"
  by (cases r) simp_all

lemma no_panic_Cons [simp]:
  "no_panic (first_error (c # cs)) \<longleftrightarrow> no_panic c \<and> (c = None \<longrightarrow> no_panic (first_error cs))"
  by (cases c) simp_all

lemma no_panic_when [simp]: "no_panic (when_some x f) \<longleftrightarrow> pred_option (\<lambda>v. no_panic (f v)) x"
  by (cases x) simp_all

lemma no_panic_each: "(\<And>x. no_panic (f x)) \<Longrightarrow> no_panic (for_each f xs)"
proof (induction xs)
  case (Cons x xs)
  then show ?case using Cons.prems [of x] by (cases "f x") simp_all
qed simp

lemma no_panic_range:
  "(\<And>s x. step s x \<noteq> Inl NilDereference) \<Longrightarrow> no_panic (error_of (for_range step s xs))"
proof (induction xs arbitrary: s)
  case (Cons x xs)
  then show ?case using Cons.prems [of s x] by (cases "step s x") simp_all
qed simp

lemma pred_option_True [simp]: "pred_option (\<lambda>v. True) x"
  by (cases x) simp_all

lemma no_panic_option: "(\<And>v. no_panic (f v)) \<Longrightarrow> pred_option (\<lambda>v. no_panic (f v)) x"
  by (cases x) simp_all

lemma no_panic_checks: "after_checks cs v \<noteq> Inl NilDereference \<longleftrightarrow> no_panic (first_error cs)"
  by (simp add: no_panic_def)

lemma no_panic_sections:
  "no_panic (validateHostIdentity h)" "no_panic (validateHostScope sc)" "no_panic (validateHostPlatform pl)"
  "no_panic (validateSystemCPU sy)" "no_panic (validateTCPObservation t)" "no_panic (validateSocketObservation sk)"
  by (simp_all add: validateHostIdentity_def validateHostScope_def validateHostPlatform_def
      validateSystemCPU_def validateTCPObservation_def validateSocketObservation_def)

lemma no_panic_unavailable: "no_panic (validateUnavailable ts)"
proof -
  have "unavailable_step s t \<noteq> Inl NilDereference" for s t
    unfolding unavailable_step_def no_panic_checks by simp
  then show ?thesis
    by (simp add: validateUnavailable_def no_panic_each no_panic_range unavailable_shape_def)
qed

lemma no_panic_load: "no_panic (validateLoadObservation l)"
  by (simp add: validateLoadObservation_def)

lemma no_panic_memory: "no_panic (validateMemoryObservation m)"
  by (simp add: validateMemoryObservation_def validateSystemMemory_def validateCgroupMemory_def no_panic_option)

lemma no_panic_network: "no_panic (validateNetworkObservation n)"
proof -
  have "no_panic (validateNetworkInterface ni)" for ni
    by (simp add: validateNetworkInterface_def no_panic_option del: validateEnum.simps)
  moreover have "interfaces_step s ni \<noteq> Inl NilDereference" for s ni
    unfolding interfaces_step_def Let_def case_prod_beta no_panic_checks by simp
  ultimately show ?thesis
    by (simp add: validateNetworkObservation_def no_panic_each no_panic_range)
qed

lemma no_panic_processes: "no_panic (validateProcessObservation p)"
  by (simp add: validateProcessObservation_def validateProcessMetrics_def no_panic_option)

lemma no_panic_runtime: "no_panic (validateRuntimeObservation r)"
  by (simp add: validateRuntimeObservation_def no_panic_each case_prod_beta del: for_each.simps)

lemma no_panic_tuning: "no_panic (validateTuningObservation t)"
  by (simp add: validateTuningObservation_def no_panic_each)

text \<open>The two sections that dereference: the pairing checks come first.\<close>

lemma no_panic_cgroup: "no_panic (validateCgroupCPU g)"
  by (cases "gc_NrPeriods g"; cases "gc_NrThrottled g"; cases "gc_ThrottledUS g";
      cases "gc_QuotaUS g"; cases "gc_PeriodUS g")
    (simp_all add: validateCgroupCPU_def)

lemma no_panic_filesystem: "no_panic (validateFilesystemObservation f)"
  by (cases "fs_TotalInodes f"; cases "fs_AvailableInodes f")
    (simp_all add: validateFilesystemObservation_def)

lemma no_panic_cpu: "no_panic (validateCPUObservation c)"
  by (simp add: validateCPUObservation_def no_panic_sections no_panic_cgroup no_panic_option)

lemmas no_panics = no_panic_sections no_panic_unavailable no_panic_load no_panic_memory no_panic_network
  no_panic_processes no_panic_runtime no_panic_tuning no_panic_filesystem no_panic_cpu

section \<open>Properties\<close>

text \<open>
  C9. \<open>ValidateHostObservation\<close> accepts exactly the samples whose identity, scope,
  platform and unavailable tokens are well-formed and whose present sections are each
  admissible; every section may be absent, and tokens this version does not know are
  accepted as long as their shape is canonical.
\<close>

theorem ValidateHostObservation_accepts_exactly:
  "ValidateHostObservation h = None \<longleftrightarrow>
     identity_ok h \<and> scope_ok (ho_Scope h) \<and> platform_ok (ho_Platform h) \<and>
     unavailable_ok (ho_Unavailable h) \<and>
     pred_option cpu_ok (ho_CPU h) \<and> pred_option load_ok (ho_Load h) \<and>
     pred_option memory_ok (ho_Memory h) \<and> pred_option filesystem_ok (ho_Filesystem h) \<and>
     pred_option network_ok (ho_Network h) \<and> pred_option tcp_ok (ho_TCP h) \<and>
     pred_option sockets_ok (ho_Sockets h) \<and> pred_option processes_ok (ho_Processes h) \<and>
     pred_option runtime_ok (ho_Runtime h) \<and> pred_option tuning_ok (ho_Tuning h)"
  by (simp only: ValidateHostObservation_iff host_ok_def)

text \<open>
  C10. No sample, however malformed, makes the validator dereference a \<open>nil\<close> pointer:
  wherever it reads the second value of a pair, the check that the pair is complete has
  already passed.
\<close>

theorem ValidateHostObservation_never_panics:
  "ValidateHostObservation h \<noteq> Some NilDereference"
proof -
  have "no_panic (ValidateHostObservation h)"
    by (simp add: ValidateHostObservation_def no_panics no_panic_option)
  then show ?thesis by (simp add: no_panic_def)
qed

definition cpu_ratios_ok :: "CPUObservation \<Rightarrow> bool" where
  "cpu_ratios_ok c \<longleftrightarrow>
     pred_option (\<lambda>s. unat (su_Total s - (su_Idle s + su_IOWait s)) + unat (su_Idle s) + unat (su_IOWait s) =
       unat (su_Total s)) (cpu_System c) \<and>
     pred_option (\<lambda>g. pred_option (\<lambda>q. 0 < unat q) (gc_QuotaUS g) \<and>
       pred_option (\<lambda>p. 0 < unat p) (gc_PeriodUS g) \<and>
       pred_option (\<lambda>p. pred_option (\<lambda>t. unat t \<le> unat p) (gc_NrThrottled g)) (gc_NrPeriods g)) (cpu_Cgroup c)"

lemma cpu_ok_ratios:
  assumes "cpu_ok c"
  shows "cpu_ratios_ok c"
proof -
  have "pred_option (\<lambda>s. unat (su_Total s - (su_Idle s + su_IOWait s)) + unat (su_Idle s) + unat (su_IOWait s) =
      unat (su_Total s)) (cpu_System c)"
  proof (cases "cpu_System c")
    case (Some s)
    then have s: "counter_ok (su_Idle s)" "counter_ok (su_IOWait s)"
      "unat (su_Idle s) + unat (su_IOWait s) \<le> unat (su_Total s)"
      using assms by (simp_all add: cpu_ok_def system_cpu_ok_def)
    then have "su_Idle s + su_IOWait s \<le> su_Total s" by (simp add: word_le_nat_alt counters_add)
    then have "unat (su_Total s - (su_Idle s + su_IOWait s)) = unat (su_Total s) - unat (su_Idle s + su_IOWait s)"
      by (rule unat_sub)
    with s Some show ?thesis by (simp add: counters_add)
  qed simp
  moreover have "pred_option (\<lambda>g. pred_option (\<lambda>q. 0 < unat q) (gc_QuotaUS g) \<and>
      pred_option (\<lambda>p. 0 < unat p) (gc_PeriodUS g) \<and>
      pred_option (\<lambda>p. pred_option (\<lambda>t. unat t \<le> unat p) (gc_NrThrottled g)) (gc_NrPeriods g)) (cpu_Cgroup c)"
  proof (cases "cpu_Cgroup c")
    case (Some g)
    then have "quota_ok g" "throttle_ok g" using assms by (simp_all add: cpu_ok_def cgroup_cpu_ok_def)
    with Some show ?thesis
      by (cases "gc_QuotaUS g"; cases "gc_PeriodUS g"; cases "gc_NrPeriods g"; cases "gc_NrThrottled g")
        (auto simp: quota_ok_def throttle_ok_def unat_gt_0 word_le_nat_alt split: option.splits)
  qed simp
  ultimately show ?thesis by (simp add: cpu_ratios_ok_def)
qed

text \<open>A denominator that is present.\<close>

definition positive_opt :: "uint64 option \<Rightarrow> bool" where
  "positive_opt x \<longleftrightarrow> pred_option (\<lambda>u. 0 < unat u) x"

lemma process_ok_units: "process_ok m \<Longrightarrow> positive_opt (pm_CPUTimeUnitsPerSecond m)"
  by (cases "pm_CPUTimeUnitsPerSecond m") (auto simp: positive_opt_def process_ok_def unat_gt_0)

text \<open>
  C32. In an accepted sample the CPU ratios are meaningful. If there is a CPU section, idle and
  iowait add up without wrapping and stay within the total, so the busy share computed in
  64-bit arithmetic is the exact difference; a quota or a period that is present is
  positive, and there are at most as many throttled periods as periods. If there is a
  section on processes, the unit of CPU time of the agent is positive where it is present,
  and so is that of the core.
\<close>

theorem accepted_cpu_ratios:
  assumes "ValidateHostObservation h = None"
  shows "pred_option cpu_ratios_ok (ho_CPU h) \<and>
    pred_option (\<lambda>p. positive_opt (pm_CPUTimeUnitsPerSecond (po_Agent p)) \<and>
      pred_option (\<lambda>core. positive_opt (pm_CPUTimeUnitsPerSecond core)) (po_Core p)) (ho_Processes h)"
proof -
  have "pred_option cpu_ok (ho_CPU h)" "pred_option processes_ok (ho_Processes h)"
    using assms by (simp_all add: ValidateHostObservation_iff host_ok_def)
  then show ?thesis
    by (auto simp: processes_ok_def intro: cpu_ok_ratios process_ok_units elim!: option.pred_mono_strong)
qed

definition sample_host :: HostObservation where
  "sample_host = \<lparr>ho_SampleID = ''0123456789abcdef0123456789abcdef'', ho_CollectedAtMS = 1700000000000,
     ho_UptimeMS = 5000, ho_BootID = [],
     ho_Scope = \<lparr>hs_Deployment = ''docker'', hs_ResourceScope = ''mixed'', hs_CgroupVersion = 2,
       hs_DataFilesystemScope = ''unknown''\<rparr>,
     ho_Platform = \<lparr>pl_OS = ''linux'', pl_Arch = ''amd64'', pl_KernelRelease = [], pl_DistributionID = [],
       pl_VersionID = [], pl_LogicalCPUs = 4\<rparr>,
     ho_CPU = Some \<lparr>cpu_System = Some \<lparr>su_CounterEpoch = ''boot'', su_Total = 1000, su_Idle = 600,
         su_IOWait = 100, su_Steal = 0\<rparr>,
       cpu_Cgroup = Some \<lparr>gc_CounterEpoch = [], gc_UsageUS = None, gc_UserUS = None, gc_SystemUS = None,
         gc_NrPeriods = None, gc_NrThrottled = None, gc_ThrottledUS = None, gc_QuotaUS = Some 200000,
         gc_PeriodUS = Some 100000, gc_EffectiveCPUs = None\<rparr>\<rparr>,
     ho_Load = None, ho_Memory = None,
     ho_Filesystem = Some \<lparr>fs_TotalBytes = 10, fs_AvailableBytes = 0, fs_TotalInodes = Some 0,
       fs_AvailableInodes = Some 0, fs_ReadOnly = False\<rparr>,
     ho_Network = None, ho_TCP = None,
     ho_Sockets = Some \<lparr>sk_TCPInUse = 1, sk_TCPOrphan = 0, sk_TCPTimeWait = 0, sk_UDPInUse = 0,
       sk_ConntrackCurrent = Some 120, sk_ConntrackLimit = Some 0\<rparr>,
     ho_Processes = Some \<lparr>po_Agent = \<lparr>pm_StartedAtMS = 1690000000000, pm_CounterEpoch = ''agent'',
         pm_CPUTime = Some 7, pm_CPUTimeUnitsPerSecond = Some 100, pm_RSSBytes = 4096, pm_OpenFDs = 9,
         pm_FDLimit = None, pm_Threads = 3\<rparr>,
       po_Core = None\<rparr>,
     ho_Runtime = None, ho_Tuning = None, ho_Unavailable = [''gpu.temperature'']\<rparr>"

lemma sample_host_ok: "ValidateHostObservation sample_host = None"
  unfolding ValidateHostObservation_iff host_ok_def sample_host_def
  by (simp add: identity_ok_def lower_hex_def maxUnixMilli_def scope_ok_def platform_ok_def unavailable_ok_def
      canonical_token_def token_tail_def lower_alpha_def is_digit_def cpu_ok_def system_cpu_ok_def
      cgroup_cpu_ok_def quota_ok_def throttle_ok_def filesystem_ok_def sockets_ok_def processes_ok_def
      process_ok_def instant_ok_def text_ok_def counter_ok_def)

theorem accepted_cpu_ratios_witness:
  "cpu_ratios_ok (the (ho_CPU sample_host)) \<and>
   positive_opt (pm_CPUTimeUnitsPerSecond (po_Agent (the (ho_Processes sample_host))))"
  using accepted_cpu_ratios [OF sample_host_ok] by (simp add: sample_host_def)

text \<open>
  Two ratios are left without that protection: a filesystem of zero inodes and a conntrack
  table of limit zero are accepted when the pair is complete, although the comments ask
  for absence in that case.
\<close>

theorem zero_totals_accepted:
  "\<exists>h f s. ValidateHostObservation h = None \<and>
     ho_Filesystem h = Some f \<and> fs_TotalInodes f = Some 0 \<and>
     ho_Sockets h = Some s \<and> sk_ConntrackLimit s = Some 0"
  using sample_host_ok
  by (intro exI [of _ sample_host] exI [of _ "the (ho_Filesystem sample_host)"]
      exI [of _ "the (ho_Sockets sample_host)"]) (simp add: sample_host_def)

end
