(* ===== verification/GoNetip.thy ===== *)
theory GoNetip
  imports GoStrings
begin

text \<open>
  What the contract uses of Go's \<open>net/netip\<close>: parsing an address and printing it in its
  canonical form (dotted decimal without leading zeros; IPv6 in lowercase with the first
  longest run of at least two zero groups elided, an IPv4-mapped address with a dotted
  tail, and the zone after a percent sign).
\<close>

datatype Addr =
    AddrIPv4 "nat list"
  | AddrIPv6 "nat list" string

section \<open>Parsing\<close>

text \<open>The four octets of a dotted quad; an octet has no leading zero and is at most 255.\<close>

fun ipv4_loop :: "nat list \<Rightarrow> nat \<Rightarrow> nat \<Rightarrow> string \<Rightarrow> nat list option" where
  "ipv4_loop fields val digLen [] = (if length fields < 3 then None else Some (fields @ [val]))"
| "ipv4_loop fields val digLen (c # cs) =
     (if is_digit c then
        (if digLen = 1 \<and> val = 0 then None
         else let val' = val * 10 + digit_val c in
           if val' > 255 then None else ipv4_loop fields val' (digLen + 1) cs)
      else if c = CHR ''.'' then
        (if digLen = 0 \<or> cs = [] then None
         else if length fields = 3 then None
         else ipv4_loop (fields @ [val]) 0 0 cs)
      else None)"

definition parseIPv4Fields :: "string \<Rightarrow> nat list option" where
  "parseIPv4Fields s = ipv4_loop [] 0 0 s"

definition is_hex :: "char \<Rightarrow> bool" where
  "is_hex c \<longleftrightarrow> hex_val c \<noteq> None"

definition parse_hex :: "string \<Rightarrow> nat" where
  "parse_hex s = foldl (\<lambda>a c. a * 16 + (case hex_val c of None \<Rightarrow> 0 | Some v \<Rightarrow> v)) 0 s"

lemma dropWhile_shorter: "dropWhile P s = c # r \<Longrightarrow> length r < length s"
  using length_dropWhile_le [of P s] by simp

text \<open>
  The loop over the groups: the groups read so far, the position of the ellipsis among
  them, and the text that is left. It ends with eight groups or at the end of the text.
\<close>

function ipv6_loop :: "nat list \<Rightarrow> nat option \<Rightarrow> string \<Rightarrow> (nat list \<times> nat option \<times> string) option" where
  "ipv6_loop groups ellipsis s =
     (if length groups \<ge> 8 then Some (groups, ellipsis, s)
      else
        let digits = takeWhile is_hex s; rest = dropWhile is_hex s;
            groups' = groups @ [parse_hex digits]
        in if digits = [] \<or> length digits > 4 then None
           else case rest of
               [] \<Rightarrow> Some (groups', ellipsis, [])
             | c # rest1 \<Rightarrow>
                 if c = CHR ''.'' then
                   (if ellipsis = None \<and> length groups \<noteq> 6 then None
                    else if length groups > 6 then None
                    else case parseIPv4Fields s of
                        Some [a, b, d, e] \<Rightarrow> Some (groups @ [a * 256 + b, d * 256 + e], ellipsis, [])
                      | _ \<Rightarrow> None)
                 else if c \<noteq> CHR '':'' then None
                 else if rest1 = [] then None
                 else if hd rest1 = CHR '':'' then
                   (if ellipsis \<noteq> None then None
                    else if tl rest1 = [] then Some (groups', Some (length groups'), [])
                    else ipv6_loop groups' (Some (length groups')) (tl rest1))
                 else ipv6_loop groups' ellipsis rest1)"
  by pat_completeness auto

termination
proof (relation "measure (\<lambda>(groups, ellipsis, s). length s)", goal_cases)
  case (2 groups ellipsis s digits rest groups' c rest1)
  then show ?case using dropWhile_shorter [of is_hex s c rest1] by (cases rest1) auto
next
  case (3 groups ellipsis s digits rest groups' c rest1)
  then show ?case using dropWhile_shorter [of is_hex s c rest1] by auto
qed simp

declare ipv6_loop.simps [simp del]

definition expand_ellipsis :: "nat list \<times> nat option \<times> string \<Rightarrow> nat list option" where
  "expand_ellipsis r =
     (case r of (groups, ellipsis, s) \<Rightarrow>
        if s \<noteq> [] then None
        else if length groups < 8 then
          (case ellipsis of None \<Rightarrow> None
           | Some e \<Rightarrow> Some (take e groups @ replicate (8 - length groups) 0 @ drop e groups))
        else if ellipsis \<noteq> None then None
        else Some groups)"

definition parseIPv6 :: "string \<Rightarrow> Addr option" where
  "parseIPv6 text =
     (let s = takeWhile (\<lambda>c. c \<noteq> CHR ''%'') text; z = dropWhile (\<lambda>c. c \<noteq> CHR ''%'') text
      in if length z = 1 then None
         else
           let zone = tl z in
           if take 2 s = ''::'' then
             (if drop 2 s = [] then Some (AddrIPv6 (replicate 8 0) zone)
              else map_option (\<lambda>g. AddrIPv6 g zone)
                (Option.bind (ipv6_loop [] (Some 0) (drop 2 s)) expand_ellipsis))
           else map_option (\<lambda>g. AddrIPv6 g zone)
             (Option.bind (ipv6_loop [] None s) expand_ellipsis))"

definition ParseAddr :: "string \<Rightarrow> Addr option" where
  "ParseAddr s =
     (case find (\<lambda>c. c \<in> {CHR ''.'', CHR '':'', CHR ''%''}) s of
        None \<Rightarrow> None
      | Some c \<Rightarrow>
          if c = CHR ''.'' then map_option AddrIPv4 (parseIPv4Fields s)
          else if c = CHR '':'' then parseIPv6 s
          else None)"

section \<open>Printing\<close>

fun join :: "string \<Rightarrow> string list \<Rightarrow> string" where
  "join sep [] = []"
| "join sep [x] = x"
| "join sep (x # xs) = x @ sep @ join sep xs"

fun format_hex :: "nat \<Rightarrow> string" where
  "format_hex n = (if n < 16 then [hex_digit n] else format_hex (n div 16) @ [hex_digit (n mod 16)])"

declare format_hex.simps [simp del]

definition string4 :: "nat list \<Rightarrow> string" where
  "string4 octets = join ''.'' (map format_nat octets)"

text \<open>The length of the run of zero groups at a position, and the first longest such run.\<close>

definition zero_run :: "nat list \<Rightarrow> nat \<Rightarrow> nat" where
  "zero_run groups i = length (takeWhile (\<lambda>g. g = 0) (drop i groups))"

definition longest_run :: "nat list \<Rightarrow> (nat \<times> nat) option" where
  "longest_run groups =
     foldl (\<lambda>best i.
         let l = zero_run groups i in
         if l \<ge> 2 \<and> (case best of None \<Rightarrow> True | Some (s, e) \<Rightarrow> l > e - s) then Some (i, i + l) else best)
       None [0..<8]"

definition string6 :: "nat list \<Rightarrow> string" where
  "string6 groups =
     (case longest_run groups of
        None \<Rightarrow> join '':'' (map format_hex groups)
      | Some (s, e) \<Rightarrow>
          join '':'' (map format_hex (take s groups)) @ ''::'' @ join '':'' (map format_hex (drop e groups)))"

definition Is4In6 :: "nat list \<Rightarrow> bool" where
  "Is4In6 groups \<longleftrightarrow> take 6 groups = [0, 0, 0, 0, 0, 65535]"

definition zone_suffix :: "string \<Rightarrow> string" where
  "zone_suffix zone = (if zone = [] then [] else ''%'' @ zone)"

fun Addr_String :: "Addr \<Rightarrow> string" where
  "Addr_String (AddrIPv4 octets) = string4 octets"
| "Addr_String (AddrIPv6 groups zone) =
     (if Is4In6 groups then
        ''::ffff:'' @ string4 (concat (map (\<lambda>g. [g div 256, g mod 256]) (drop 6 groups))) @ zone_suffix zone
      else string6 groups @ zone_suffix zone)"

text \<open>A text is canonical when it is how its own address is printed.\<close>

definition canonical_ip :: "string \<Rightarrow> bool" where
  "canonical_ip raw \<longleftrightarrow> (case ParseAddr raw of None \<Rightarrow> False | Some addr \<Rightarrow> Addr_String addr = raw)"

lemma canonical_ip_Parse: "canonical_ip raw \<Longrightarrow> \<exists>addr. ParseAddr raw = Some addr \<and> Addr_String addr = raw"
  by (cases "ParseAddr raw") (simp_all add: canonical_ip_def)

lemma canonical_ip_inject:
  "canonical_ip a \<Longrightarrow> canonical_ip b \<Longrightarrow> ParseAddr a = ParseAddr b \<longleftrightarrow> a = b"
  by (metis canonical_ip_Parse option.inject)

end
