(* ===== verification/NodeReports.thy ===== *)
theory NodeReports
  imports Report Tasks HostCheck GoNetip
begin

text \<open>
  The agent's report, \<open>NodeReport\<close> of \<open>protocol/report.go\<close>, and its validation in
  \<open>protocol/validate.go\<close>: the control half \<open>ValidateNodeReportBase\<close>, the outbox, and the
  sender's full check that adds the telemetry sample. The map \<open>Have\<close> is the list of its
  entries in the order a range over it visits them. Each loop over an enumeration is
  interpreted as a loop that refuses repeated keys.
\<close>

section \<open>The report\<close>

record NodeReport =
  nr_AgentID :: string
  nr_ProtocolVersion :: goint
  nr_ReportedAtMS :: int64
  nr_AgentVersion :: string
  nr_CoreEngine :: string
  nr_CoreVersion :: string
  nr_CoreState :: string
  nr_Capabilities :: "string list"
  nr_Partial :: bool
  nr_Have :: "(string \<times> StreamState) list"
  nr_Objects :: "ObjectStatus list"
  nr_ListenerCounters :: "ListenerCounters list"
  nr_Clients :: "ClientCounters list"
  nr_Subjects :: "SubjectObservation list"
  nr_Host :: "HostObservation option"
  nr_Issues :: "Issue list"
  nr_TaskResults :: "TaskResult list"

datatype report_error =
    AgentIDRequired
  | ProtocolVersionUnsupported goint
  | NegativeReportedAt
  | CoreEngineUnsupported string
  | TooManyCapabilities
  | CapabilityNotCanonical
  | DuplicateCapability string
  | HaveRequired string
  | HaveState stream_error
  | HaveUnknownStream string
  | PartialWithEnumerations
  | ObjectError object_error
  | DuplicateObject string string
  | ReportKeyError key_error
  | NegativeListenerCounters ListenerKey
  | DuplicateListener ListenerKey
  | NegativeClientCounters ClientKey
  | InvalidGate ClientKey GateState
  | NonCanonicalLiveIP ClientKey string
  | RepeatedLiveIP ClientKey string
  | DuplicateClient ClientKey
  | NegativeSubjectObservations SubjectKey
  | DuplicateSubject SubjectKey
  | TooManyIssues
  | IssueCodeRequired
  | IssueTooLarge string
  | DuplicateIssue string string
  | ResultsError result_error
  | HostWithoutCapability
  | HostError host_error

section \<open>Capabilities and streams\<close>

definition validateCapabilities_step :: "string set \<Rightarrow> string \<Rightarrow> report_error + string set" where
  "validateCapabilities_step seen capability = after_checks
     [check (\<not> validToken capability \<or> length capability > MaxCapabilityBytes) CapabilityNotCanonical,
      check (capability \<in> seen) (DuplicateCapability capability)]
     (insert capability seen)"

definition validateCapabilities :: "string list \<Rightarrow> report_error option" where
  "validateCapabilities capabilities =
     (if length capabilities > MaxCapabilitiesPerReport then Some TooManyCapabilities
      else error_of (for_range validateCapabilities_step {} capabilities))"

definition hasCapability :: "string list \<Rightarrow> string \<Rightarrow> bool" where
  "hasCapability capabilities want \<longleftrightarrow> list_ex (\<lambda>capability. capability = want) capabilities"

definition validateHave :: "(string \<times> StreamState) list \<Rightarrow> report_error option" where
  "validateHave haves = first_error
     [for_each (\<lambda>stream. case map_of haves stream of
          None \<Rightarrow> Some (HaveRequired stream)
        | Some state \<Rightarrow> wrap_error HaveState (validateStreamState stream state))
        [StreamConfig, StreamRoster, StreamDirectives],
      for_each (\<lambda>(stream, _). check (\<not> validStream stream) (HaveUnknownStream stream)) haves]"

definition capability_ok :: "string \<Rightarrow> bool" where
  "capability_ok c \<longleftrightarrow> canonical_token c \<and> length c \<le> 128"

definition capabilities_ok :: "string list \<Rightarrow> bool" where
  "capabilities_ok cs \<longleftrightarrow> length cs \<le> 64 \<and> list_all capability_ok cs \<and> distinct cs"

definition held :: "(string \<times> StreamState) list \<Rightarrow> string \<Rightarrow> bool" where
  "held haves stream \<longleftrightarrow> (case map_of haves stream of None \<Rightarrow> False | Some s \<Rightarrow> stream_state_ok s)"

definition have_ok :: "(string \<times> StreamState) list \<Rightarrow> bool" where
  "have_ok haves \<longleftrightarrow>
     held haves ''config'' \<and> held haves ''roster'' \<and> held haves ''directives'' \<and>
     fst ` set haves \<subseteq> {''config'', ''roster'', ''directives''}"

interpretation capability_loop: dedup_loop validateCapabilities_step "\<lambda>c. c" capability_ok
  by unfold_locales
    (auto simp: validateCapabilities_step_def capability_ok_def validToken_iff MaxCapabilityBytes_def)

lemma validateCapabilities_iff [accepts]: "validateCapabilities cs = None \<longleftrightarrow> capabilities_ok cs"
  by (simp add: validateCapabilities_def capabilities_ok_def capability_loop.loop_passes
      MaxCapabilitiesPerReport_def)

lemma hasCapability_iff: "hasCapability cs w \<longleftrightarrow> w \<in> set cs"
  by (auto simp: hasCapability_def list_ex_iff)

lemma validateHave_iff [accepts]: "validateHave h = None \<longleftrightarrow> have_ok h"
proof -
  have "(case map_of h stream of None \<Rightarrow> Some (HaveRequired stream)
      | Some state \<Rightarrow> wrap_error HaveState (validateStreamState stream state)) = None \<longleftrightarrow> held h stream" for stream
    by (simp add: held_def validateStreamState_iff split: option.split)
  then show ?thesis
    unfolding validateHave_def first_error_None_Cons for_each_None
    by (auto simp: have_ok_def stream_names validStream_def list_all_iff case_prod_beta)
qed

section \<open>The enumerations\<close>

definition validateObjects_step :: "string set \<Rightarrow> ObjectStatus \<Rightarrow> report_error + string set" where
  "validateObjects_step seen status =
     (let identity = os_Stream status @ [CHR 0x00] @ os_Key status in
      after_checks
        [wrap_error ObjectError (validateReportedObject status),
         check (identity \<in> seen) (DuplicateObject (os_Stream status) (os_Key status))]
        (insert identity seen))"

definition validateListeners_step :: "ListenerKey set \<Rightarrow> ListenerCounters \<Rightarrow> report_error + ListenerKey set" where
  "validateListeners_step seen counter = after_checks
     [wrap_error ReportKeyError (error_of (ListenerKey_RowID (lc_Key counter))),
      check (sint (lc_UpBytes counter) < 0 \<or> sint (lc_DownBytes counter) < 0)
        (NegativeListenerCounters (lc_Key counter)),
      check (lc_Key counter \<in> seen) (DuplicateListener (lc_Key counter))]
     (insert (lc_Key counter) seen)"

definition validateLiveIPs_step :: "ClientKey \<Rightarrow> Addr set \<Rightarrow> string \<Rightarrow> report_error + Addr set" where
  "validateLiveIPs_step client seen raw =
     (case ParseAddr raw of
        None \<Rightarrow> Inl (NonCanonicalLiveIP client raw)
      | Some addr \<Rightarrow> after_checks
          [check (Addr_String addr \<noteq> raw) (NonCanonicalLiveIP client raw),
           check (addr \<in> seen) (RepeatedLiveIP client raw)]
          (insert addr seen))"

definition validateClients_step :: "ClientKey set \<Rightarrow> ClientCounters \<Rightarrow> report_error + ClientKey set" where
  "validateClients_step seen counter = after_checks
     [wrap_error ReportKeyError (error_of (ClientKey_RowID (cc_Key counter))),
      check (sint (cc_UpBytes counter) < 0 \<or> sint (cc_DownBytes counter) < 0)
        (NegativeClientCounters (cc_Key counter)),
      check (\<not> (cc_Gate counter = GateUnconfigured \<or> cc_Gate counter = GateArmed \<or> cc_Gate counter = GateClosed))
        (InvalidGate (cc_Key counter) (cc_Gate counter)),
      error_of (for_range (validateLiveIPs_step (cc_Key counter)) {} (cc_LiveIPs counter)),
      check (cc_Key counter \<in> seen) (DuplicateClient (cc_Key counter))]
     (insert (cc_Key counter) seen)"

definition validateSubjects_step :: "SubjectKey set \<Rightarrow> SubjectObservation \<Rightarrow> report_error + SubjectKey set" where
  "validateSubjects_step seen subject = after_checks
     [wrap_error ReportKeyError (error_of (SubjectKey_RowID (so_Subject subject))),
      check (sint (so_IPLocalCount subject) < 0 \<or> sint (so_IPWouldDenySinceLastReport subject) < 0)
        (NegativeSubjectObservations (so_Subject subject)),
      check (so_Subject subject \<in> seen) (DuplicateSubject (so_Subject subject))]
     (insert (so_Subject subject) seen)"

definition object_identity :: "ObjectStatus \<Rightarrow> string" where
  "object_identity s = os_Stream s @ [CHR 0x00] @ os_Key s"

definition listener_counters_ok :: "ListenerCounters \<Rightarrow> bool" where
  "listener_counters_ok c \<longleftrightarrow> listener_key_ok (lc_Key c) \<and> 0 \<le> sint (lc_UpBytes c) \<and> 0 \<le> sint (lc_DownBytes c)"

definition live_ips_ok :: "string list \<Rightarrow> bool" where
  "live_ips_ok ips \<longleftrightarrow> list_all canonical_ip ips \<and> distinct ips"

definition client_counters_ok :: "ClientCounters \<Rightarrow> bool" where
  "client_counters_ok c \<longleftrightarrow>
     client_key_ok (cc_Key c) \<and> 0 \<le> sint (cc_UpBytes c) \<and> 0 \<le> sint (cc_DownBytes c) \<and>
     cc_Gate c \<in> {''unconfigured'', ''armed'', ''closed''} \<and> live_ips_ok (cc_LiveIPs c)"

definition subject_ok :: "SubjectObservation \<Rightarrow> bool" where
  "subject_ok s \<longleftrightarrow>
     subject_key_ok (so_Subject s) \<and> 0 \<le> sint (so_IPLocalCount s) \<and> 0 \<le> sint (so_IPWouldDenySinceLastReport s)"

interpretation objects_loop: dedup_loop validateObjects_step object_identity object_ok
  by unfold_locales
    (auto simp: validateObjects_step_def object_identity_def Let_def validateReportedObject_iff)

interpretation listeners_loop: dedup_loop validateListeners_step lc_Key listener_counters_ok
  by unfold_locales
    (auto simp: validateListeners_step_def listener_counters_ok_def listener_key_ok_def)

interpretation live_ips_loop: dedup_loop "validateLiveIPs_step client" "\<lambda>raw. the (ParseAddr raw)" canonical_ip
    for client
  by unfold_locales (auto simp: validateLiveIPs_step_def canonical_ip_def split: option.split)

lemma live_ips_pass:
  "error_of (for_range (validateLiveIPs_step client) {} ips) = None \<longleftrightarrow> live_ips_ok ips"
proof -
  have "inj_on (\<lambda>raw. the (ParseAddr raw)) (set ips)" if "list_all canonical_ip ips"
  proof (rule inj_onI)
    fix a b assume "a \<in> set ips" "b \<in> set ips" "the (ParseAddr a) = the (ParseAddr b)"
    moreover from this have c: "canonical_ip a" "canonical_ip b" using that by (simp_all add: list_all_iff)
    ultimately show "a = b" using canonical_ip_Parse [OF c(1)] canonical_ip_Parse [OF c(2)] by force
  qed
  then have "list_all canonical_ip ips \<Longrightarrow> distinct (map (\<lambda>raw. the (ParseAddr raw)) ips) = distinct ips"
    by (simp add: distinct_map)
  then show ?thesis by (auto simp: live_ips_loop.loop_passes live_ips_ok_def)
qed

interpretation clients_loop: dedup_loop validateClients_step cc_Key client_counters_ok
  by unfold_locales
    (auto simp: validateClients_step_def client_counters_ok_def client_key_ok_def gate_states
      live_ips_pass not_less)

interpretation subjects_loop: dedup_loop validateSubjects_step so_Subject subject_ok
  by unfold_locales (auto simp: validateSubjects_step_def subject_ok_def subject_key_ok_def)

text \<open>The NUL between stream and key keeps two identities apart.\<close>

lemma object_identity_inject:
  "object_ok s \<Longrightarrow> object_ok t \<Longrightarrow>
    object_identity s = object_identity t \<longleftrightarrow> os_Stream s = os_Stream t \<and> os_Key s = os_Key t"
  using NUL_split [of "os_Stream s" "os_Stream t" "os_Key s" "os_Key t"]
  by (auto simp: object_ok_def object_identity_ok_def object_identity_def stream_names)

lemma distinct_object_identities:
  "list_all object_ok objs \<Longrightarrow>
    distinct (map object_identity objs) = distinct (map (\<lambda>s. (os_Stream s, os_Key s)) objs)"
proof (induction objs)
  case (Cons s objs)
  then have "object_identity s \<in> object_identity ` set objs \<longleftrightarrow>
      (os_Stream s, os_Key s) \<in> (\<lambda>s. (os_Stream s, os_Key s)) ` set objs"
    by (auto simp: list_all_iff object_identity_inject image_iff)
  with Cons show ?case by simp
qed simp

section \<open>The outbox\<close>

definition validateIssues_step ::
  "(string \<times> string \<times> string) set \<Rightarrow> Issue \<Rightarrow> report_error + (string \<times> string \<times> string) set" where
  "validateIssues_step seen issue =
     (let identity = (i_Code issue, i_Key issue, i_Detail issue) in
      after_checks
        [check (i_Code issue = []) IssueCodeRequired,
         check (\<not> ValidString (i_Code issue) \<or> \<not> ValidString (i_Key issue) \<or> \<not> ValidString (i_Detail issue) \<or>
           length (i_Code issue) > MaxIssueCodeBytes \<or> length (i_Key issue) > MaxIssueKeyBytes \<or>
           length (i_Detail issue) > MaxIssueDetailBytes) (IssueTooLarge (i_Code issue)),
         check (identity \<in> seen) (DuplicateIssue (i_Code issue) (i_Key issue))]
        (insert identity seen))"

text \<open>Whether a result carries a field only the durable schema has.\<close>

definition durable_marker :: "TaskResult \<Rightarrow> bool" where
  "durable_marker result \<longleftrightarrow>
     tr_Kind result \<noteq> [] \<or> tr_InputSHA256 result \<noteq> [] \<or> tr_ErrorCode result \<noteq> [] \<or> tr_Indeterminate result"

definition validateOutbox :: "NodeReport \<Rightarrow> report_error option" where
  "validateOutbox report = first_error
     [check (length (nr_Issues report) > MaxIssuesPerReport) TooManyIssues,
      error_of (for_range validateIssues_step {} (nr_Issues report)),
      wrap_error ResultsError
        (if list_ex durable_marker (nr_TaskResults report)
         then ValidateTaskResults (nr_TaskResults report)
         else validateLegacyTaskResults (nr_TaskResults report))]"

definition results_bounded :: "TaskResult list \<Rightarrow> bool" where
  "results_bounded rs \<longleftrightarrow>
     length rs \<le> 256 \<and> distinct (map tr_ID rs) \<and> sum_list (map (\<lambda>r. len (tr_Result r)) rs) \<le> 4 * 2 ^ 20"

definition outbox_ok :: "Issue list \<Rightarrow> TaskResult list \<Rightarrow> bool" where
  "outbox_ok issues rs \<longleftrightarrow>
     length issues \<le> 256 \<and> list_all issue_ok issues \<and> distinct issues \<and>
     results_bounded rs \<and> (list_all result_ok rs \<or> list_all legacy_result_ok rs)"

interpretation issues_loop: dedup_loop validateIssues_step "\<lambda>i. (i_Code i, i_Key i, i_Detail i)" issue_ok
  by unfold_locales
    (auto simp: validateIssues_step_def issue_ok_def Let_def MaxIssueCodeBytes_def MaxIssueKeyBytes_def
      MaxIssueDetailBytes_def not_less)

lemma durable_marker_schema:
  "result_ok r \<Longrightarrow> durable_marker r" "legacy_result_ok r \<Longrightarrow> \<not> durable_marker r"
  by (auto simp: durable_marker_def result_ok_def legacy_result_ok_def task_identity_ok_def canonical_token_def)

lemma inj_issue_identity: "inj_on (\<lambda>i. (i_Code i, i_Key i, i_Detail i)) (A :: Issue set)"
  by (rule inj_onI) auto

lemma validateOutbox_iff [accepts]:
  "validateOutbox r = None \<longleftrightarrow> outbox_ok (nr_Issues r) (nr_TaskResults r)"
proof -
  let ?rs = "nr_TaskResults r"
  have issues: "distinct (map (\<lambda>i. (i_Code i, i_Key i, i_Detail i)) is) = distinct is" for "is" :: "Issue list"
    by (simp add: distinct_map inj_issue_identity)
  have "(if list_ex durable_marker ?rs then ValidateTaskResults ?rs else validateLegacyTaskResults ?rs) = None
    \<longleftrightarrow> results_bounded ?rs \<and> (list_all result_ok ?rs \<or> list_all legacy_result_ok ?rs)"
  proof (cases "list_ex durable_marker ?rs")
    case True
    then have "\<not> list_all legacy_result_ok ?rs"
      using durable_marker_schema(2) by (auto simp: list_ex_iff list_all_iff)
    with True show ?thesis by (auto simp: ValidateTaskResults_iff results_bounded_def)
  next
    case False
    then have "list_all result_ok ?rs \<Longrightarrow> ?rs = []"
      using durable_marker_schema(1) by (cases ?rs) (auto simp: list_ex_iff list_all_iff)
    with False show ?thesis by (auto simp: validateLegacyTaskResults_iff results_bounded_def)
  qed
  then show ?thesis
    by (simp add: validateOutbox_def outbox_ok_def issues_loop.loop_passes issues MaxIssuesPerReport_def not_less)
qed

section \<open>The whole report\<close>

definition ValidateNodeReportBase :: "NodeReport \<Rightarrow> report_error option" where
  "ValidateNodeReportBase report = first_error
     [check (nr_AgentID report = []) AgentIDRequired,
      check (sint (nr_ProtocolVersion report) < 0 \<or> sint (nr_ProtocolVersion report) > ProtocolVersion1)
        (ProtocolVersionUnsupported (nr_ProtocolVersion report)),
      check (sint (nr_ReportedAtMS report) < 0) NegativeReportedAt,
      check (nr_CoreEngine report \<noteq> [] \<and> nr_CoreEngine report \<noteq> ''xray'' \<and> nr_CoreEngine report \<noteq> ''sing-box'')
        (CoreEngineUnsupported (nr_CoreEngine report)),
      validateCapabilities (nr_Capabilities report),
      validateHave (nr_Have report),
      (if nr_Partial report then first_error
         [check (length (nr_Objects report) \<noteq> 0 \<or> length (nr_ListenerCounters report) \<noteq> 0 \<or>
            length (nr_Clients report) \<noteq> 0 \<or> length (nr_Subjects report) \<noteq> 0) PartialWithEnumerations,
          validateOutbox report]
       else first_error
         [error_of (for_range validateObjects_step {} (nr_Objects report)),
          error_of (for_range validateListeners_step {} (nr_ListenerCounters report)),
          error_of (for_range validateClients_step {} (nr_Clients report)),
          error_of (for_range validateSubjects_step {} (nr_Subjects report)),
          validateOutbox report])]"

definition ValidateNodeReport :: "NodeReport \<Rightarrow> report_error option" where
  "ValidateNodeReport report =
     (case ValidateNodeReportBase report of
        Some err \<Rightarrow> Some err
      | None \<Rightarrow>
          case nr_Host report of
            None \<Rightarrow> None
          | Some host \<Rightarrow> first_error
              [check (\<not> hasCapability (nr_Capabilities report) CapabilityHostTelemetry) HostWithoutCapability,
               wrap_error HostError (ValidateHostObservation host)])"

definition enumerations_ok :: "NodeReport \<Rightarrow> bool" where
  "enumerations_ok r \<longleftrightarrow>
     list_all object_ok (nr_Objects r) \<and> distinct (map (\<lambda>s. (os_Stream s, os_Key s)) (nr_Objects r)) \<and>
     list_all listener_counters_ok (nr_ListenerCounters r) \<and> distinct (map lc_Key (nr_ListenerCounters r)) \<and>
     list_all client_counters_ok (nr_Clients r) \<and> distinct (map cc_Key (nr_Clients r)) \<and>
     list_all subject_ok (nr_Subjects r) \<and> distinct (map so_Subject (nr_Subjects r))"

definition enumerations_empty :: "NodeReport \<Rightarrow> bool" where
  "enumerations_empty r \<longleftrightarrow>
     nr_Objects r = [] \<and> nr_ListenerCounters r = [] \<and> nr_Clients r = [] \<and> nr_Subjects r = []"

definition base_ok :: "NodeReport \<Rightarrow> bool" where
  "base_ok r \<longleftrightarrow>
     nr_AgentID r \<noteq> [] \<and> sint (nr_ProtocolVersion r) \<in> {0, 1} \<and> 0 \<le> sint (nr_ReportedAtMS r) \<and>
     nr_CoreEngine r \<in> {[], ''xray'', ''sing-box''} \<and>
     capabilities_ok (nr_Capabilities r) \<and> have_ok (nr_Have r) \<and>
     (if nr_Partial r then enumerations_empty r else enumerations_ok r) \<and>
     outbox_ok (nr_Issues r) (nr_TaskResults r)"

lemma enumerations_iff:
  "error_of (for_range validateObjects_step {} (nr_Objects r)) = None \<and>
   error_of (for_range validateListeners_step {} (nr_ListenerCounters r)) = None \<and>
   error_of (for_range validateClients_step {} (nr_Clients r)) = None \<and>
   error_of (for_range validateSubjects_step {} (nr_Subjects r)) = None \<longleftrightarrow> enumerations_ok r"
  unfolding objects_loop.loop_passes listeners_loop.loop_passes clients_loop.loop_passes
    subjects_loop.loop_passes enumerations_ok_def
  using distinct_object_identities [of "nr_Objects r"] by blast

lemma version_range: "\<not> (sint v < 0 \<or> sint v > ProtocolVersion1) \<longleftrightarrow> sint (v :: goint) \<in> {0, 1}"
  by (auto simp: ProtocolVersion1_def)

lemma ValidateNodeReportBase_iff [accepts]: "ValidateNodeReportBase r = None \<longleftrightarrow> base_ok r"
proof -
  have "(if nr_Partial r then first_error
         [check (length (nr_Objects r) \<noteq> 0 \<or> length (nr_ListenerCounters r) \<noteq> 0 \<or>
            length (nr_Clients r) \<noteq> 0 \<or> length (nr_Subjects r) \<noteq> 0) PartialWithEnumerations,
          validateOutbox r]
       else first_error
         [error_of (for_range validateObjects_step {} (nr_Objects r)),
          error_of (for_range validateListeners_step {} (nr_ListenerCounters r)),
          error_of (for_range validateClients_step {} (nr_Clients r)),
          error_of (for_range validateSubjects_step {} (nr_Subjects r)),
          validateOutbox r]) = None \<longleftrightarrow>
      (if nr_Partial r then enumerations_empty r else enumerations_ok r) \<and>
      outbox_ok (nr_Issues r) (nr_TaskResults r)"
    using enumerations_iff [of r] by (auto simp: enumerations_empty_def validateOutbox_iff)
  then show ?thesis
    unfolding ValidateNodeReportBase_def base_ok_def first_error_None_Cons check_None version_range
    by (auto simp: validateCapabilities_iff validateHave_iff not_less)
qed

lemma ValidateNodeReport_iff [accepts]:
  "ValidateNodeReport r = None \<longleftrightarrow>
    base_ok r \<and>
    pred_option (\<lambda>h. ''host.telemetry.v1'' \<in> set (nr_Capabilities r) \<and> host_ok h) (nr_Host r)"
  using ValidateNodeReportBase_iff [of r]
  by (cases "nr_Host r")
    (auto simp: ValidateNodeReport_def hasCapability_iff ValidateHostObservation_iff
      CapabilityHostTelemetry_def split: option.split)

section \<open>Properties\<close>

text \<open>
  C1. \<open>ValidateNodeReportBase\<close> accepts exactly the reports with an agent id, wire version
  0 or 1, a clock not before the epoch, a known core engine, at most 64 different canonical
  capabilities, an all-or-nothing state for exactly the three streams, an acceptable
  outbox, and enumerations that are absent when partial and otherwise well-formed and
  free of repeated keys.
\<close>

theorem ValidateNodeReportBase_accepts_exactly:
  "ValidateNodeReportBase r = None \<longleftrightarrow>
     nr_AgentID r \<noteq> [] \<and> sint (nr_ProtocolVersion r) \<in> {0, 1} \<and> 0 \<le> sint (nr_ReportedAtMS r) \<and>
     nr_CoreEngine r \<in> {[], ''xray'', ''sing-box''} \<and>
     capabilities_ok (nr_Capabilities r) \<and> have_ok (nr_Have r) \<and>
     (if nr_Partial r then enumerations_empty r else enumerations_ok r) \<and>
     outbox_ok (nr_Issues r) (nr_TaskResults r)"
  by (simp only: ValidateNodeReportBase_iff base_ok_def)

text \<open>
  C8. Telemetry cannot cost a node its control half: the base check does not depend on the
  host sample at all, not even in which error it returns, and the sender's full check adds
  to it exactly that a sample, when there is one, is announced by the capability and valid
  by itself.
\<close>

theorem host_is_isolated:
  "ValidateNodeReportBase (r\<lparr>nr_Host := h\<rparr>) = ValidateNodeReportBase r \<and>
   (ValidateNodeReport r = None \<longleftrightarrow>
     ValidateNodeReportBase r = None \<and>
     pred_option (\<lambda>s. CapabilityHostTelemetry \<in> set (nr_Capabilities r) \<and> ValidateHostObservation s = None)
       (nr_Host r))"
proof
  show "ValidateNodeReportBase (r\<lparr>nr_Host := h\<rparr>) = ValidateNodeReportBase r"
    by (simp add: ValidateNodeReportBase_def validateOutbox_def)
qed (simp add: ValidateNodeReport_iff ValidateNodeReportBase_iff ValidateHostObservation_iff
    CapabilityHostTelemetry_def)

text \<open>
  C21. The two result schemas never mix: in an accepted report with results, either every
  result is durable, with its kind, digest and one of the three outcomes, or every one is
  a legacy result that carries none of these; never both.
\<close>

theorem outbox_has_one_schema:
  assumes "ValidateNodeReportBase r = None" "nr_TaskResults r \<noteq> []"
  shows "list_all (\<lambda>t. result_ok t \<and> durable_marker t) (nr_TaskResults r) \<noteq>
    list_all (\<lambda>t. legacy_result_ok t \<and> \<not> durable_marker t) (nr_TaskResults r)"
proof -
  have "list_all result_ok (nr_TaskResults r) \<or> list_all legacy_result_ok (nr_TaskResults r)"
    using assms(1) by (simp add: ValidateNodeReportBase_iff base_ok_def outbox_ok_def)
  then show ?thesis
    using assms(2) durable_marker_schema by (cases "nr_TaskResults r") (auto simp: list_all_iff)
qed

text \<open>
  C22. Traffic is never counted twice: in an accepted full report every listener, client
  and subject key is the one \<open>NewListenerKey\<close>, \<open>NewClientKey\<close> or \<open>NewSubjectKey\<close> mints for the
  row id it names, and no two entries of an enumeration name the same row id; the live
  addresses of each client are different addresses, each in its canonical spelling.
\<close>

theorem rows_counted_once:
  assumes "ValidateNodeReportBase r = None" "\<not> nr_Partial r"
  shows "distinct (map (\<lambda>c. ClientKey_RowID (cc_Key c)) (nr_Clients r)) \<and>
    distinct (map (\<lambda>c. ListenerKey_RowID (lc_Key c)) (nr_ListenerCounters r)) \<and>
    distinct (map (\<lambda>s. SubjectKey_RowID (so_Subject s)) (nr_Subjects r)) \<and>
    list_all (\<lambda>c. \<exists>n. ClientKey_RowID (cc_Key c) = Inr n \<and> cc_Key c = NewClientKey n) (nr_Clients r) \<and>
    list_all (\<lambda>c. \<exists>n. ListenerKey_RowID (lc_Key c) = Inr n \<and> lc_Key c = NewListenerKey n) (nr_ListenerCounters r) \<and>
    list_all (\<lambda>s. \<exists>n. SubjectKey_RowID (so_Subject s) = Inr n \<and> so_Subject s = NewSubjectKey n) (nr_Subjects r) \<and>
    list_all (\<lambda>c. distinct (map ParseAddr (cc_LiveIPs c)) \<and> list_all canonical_ip (cc_LiveIPs c)) (nr_Clients r)"
proof -
  have ok: "enumerations_ok r"
    using assms by (simp add: ValidateNodeReportBase_iff base_ok_def)
  have rows: "distinct (map (f \<circ> k) xs)"
    if "distinct (map k xs)" and vals: "list_all (\<lambda>x. \<exists>n. f (k x) = Inr n) xs"
      and inj: "\<And>a b n. f a = Inr n \<Longrightarrow> f b = Inr n \<Longrightarrow> a = b"
    for f :: "'k \<Rightarrow> 'e + int64" and k :: "'x \<Rightarrow> 'k" and xs
  proof -
    have "inj_on f (set (map k xs))"
    proof (rule inj_onI)
      fix a b assume mem: "a \<in> set (map k xs)" and eq: "f a = f b"
      have "\<exists>n. f a = Inr n" using mem vals unfolding list_all_iff by auto
      then obtain n where "f a = Inr n" ..
      moreover from this eq have "f b = Inr n" by simp
      ultimately show "a = b" by (rule inj)
    qed
    with \<open>distinct (map k xs)\<close> show ?thesis using distinct_map [of f "map k xs"] by simp
  qed
  have "distinct (map ParseAddr ips)" if "live_ips_ok ips" for ips
    using that canonical_ip_inject
    by (auto simp: live_ips_ok_def distinct_map list_all_iff intro!: inj_onI)
  moreover have keys: "list_all (\<lambda>c. \<exists>n. ClientKey_RowID (cc_Key c) = Inr n) (nr_Clients r)"
    "list_all (\<lambda>c. \<exists>n. ListenerKey_RowID (lc_Key c) = Inr n) (nr_ListenerCounters r)"
    "list_all (\<lambda>s. \<exists>n. SubjectKey_RowID (so_Subject s) = Inr n) (nr_Subjects r)"
    using ok by (auto simp: enumerations_ok_def client_counters_ok_def listener_counters_ok_def subject_ok_def
        client_key_ok_def listener_key_ok_def subject_key_ok_def error_of_None list_all_iff)
  moreover have "list_all (\<lambda>c. \<exists>n. ClientKey_RowID (cc_Key c) = Inr n \<and> cc_Key c = NewClientKey n) (nr_Clients r)"
    "list_all (\<lambda>c. \<exists>n. ListenerKey_RowID (lc_Key c) = Inr n \<and> lc_Key c = NewListenerKey n) (nr_ListenerCounters r)"
    "list_all (\<lambda>s. \<exists>n. SubjectKey_RowID (so_Subject s) = Inr n \<and> so_Subject s = NewSubjectKey n) (nr_Subjects r)"
    using keys by (auto simp: list_all_iff client_keys.row_id_Inr listener_keys.row_id_Inr subject_keys.row_id_Inr)
  moreover have "list_all (\<lambda>c. live_ips_ok (cc_LiveIPs c)) (nr_Clients r)"
    using ok by (auto simp: enumerations_ok_def client_counters_ok_def list_all_iff)
  ultimately show ?thesis
    using ok rows [of cc_Key "nr_Clients r" ClientKey_RowID] client_keys.one_identity
      rows [of lc_Key "nr_ListenerCounters r" ListenerKey_RowID] listener_keys.one_identity
      rows [of so_Subject "nr_Subjects r" SubjectKey_RowID] subject_keys.one_identity
    by (simp add: enumerations_ok_def live_ips_ok_def list_all_iff comp_def)
qed

text \<open>A full report with an enumeration and a durable result, as a concrete input.\<close>

definition sample_result :: TaskResult where
  "sample_result = \<lparr>tr_ID = ''task-1'', tr_Kind = ''reality_probe.v1'',
     tr_InputSHA256 = ComputeTaskInputSHA256 ''reality_probe.v1'' ''probe'', tr_NotAfterMS = 5,
     tr_OK = True, tr_Indeterminate = False, tr_Result = ''ok'', tr_ErrorCode = [], tr_Error = []\<rparr>"

definition sample_report :: NodeReport where
  "sample_report = \<lparr>nr_AgentID = ''agent-1'', nr_ProtocolVersion = 1, nr_ReportedAtMS = 1000,
     nr_AgentVersion = [], nr_CoreEngine = ''xray'', nr_CoreVersion = [], nr_CoreState = [],
     nr_Capabilities = [''task.execution.v1''], nr_Partial = False,
     nr_Have = map (\<lambda>s. (s, \<lparr>st_Applied = zero_version, st_ETag = []\<rparr>)) [''config'', ''roster'', ''directives''],
     nr_Objects = [],
     nr_ListenerCounters = [],
     nr_Clients = [\<lparr>cc_Key = NewClientKey 4, cc_Present = True, cc_UpBytes = 10, cc_DownBytes = 20,
       cc_CounterEpoch = 1, cc_Gate = ''armed'', cc_LiveIPs = []\<rparr>],
     nr_Subjects = [], nr_Host = None, nr_Issues = [], nr_TaskResults = [sample_result]\<rparr>"

lemma sample_result_ok: "result_ok sample_result"
  by (simp add: result_ok_def sample_result_def task_identity_ok_def canonical_token_def canonical_task_id_def
      token_tail_def lower_alpha_def is_digit_def ComputeTaskInputSHA256_hex error_text_ok_def outcome_of.simps)

lemma sample_report_ok: "ValidateNodeReportBase sample_report = None"
  using sample_result_ok
  by (simp add: ValidateNodeReportBase_iff base_ok_def sample_report_def capabilities_ok_def capability_ok_def
      canonical_token_def token_tail_def lower_alpha_def is_digit_def have_ok_def held_def stream_state_ok_def
      enumerations_ok_def client_counters_ok_def minted_keys_ok live_ips_ok_def outbox_ok_def results_bounded_def)
    (simp add: sample_result_def)

theorem outbox_has_one_schema_witness:
  "list_all (\<lambda>t. result_ok t \<and> durable_marker t) (nr_TaskResults sample_report) \<and>
   \<not> list_all (\<lambda>t. legacy_result_ok t \<and> \<not> durable_marker t) (nr_TaskResults sample_report)"
  using outbox_has_one_schema [OF sample_report_ok] sample_result_ok durable_marker_schema(1) [of sample_result]
  by (simp add: sample_report_def)

theorem rows_counted_once_witness:
  "\<exists>n. ClientKey_RowID (cc_Key (hd (nr_Clients sample_report))) = Inr n"
  using rows_counted_once [OF sample_report_ok] by (auto simp: sample_report_def)

end
