(* ===== verification/Diagnostics.thy ===== *)
theory Diagnostics
  imports Host "HOL-Library.Multiset" "HOL-Library.List_Lexorder" "HOL-Library.Product_Lexorder"
begin

text \<open>
  The redacted remote diagnostic, \<open>protocol/diagnostics.go\<close>: its vocabularies, the checks
  on a request and on a result, and the drop order of its events. The decoding of the two
  JSON documents follows in \<^theory_text>\<open>DiagnosticsJson\<close>.
\<close>

section \<open>Vocabularies and bounds\<close>

definition TaskKindDiagnosticsCollectV1 :: string where
  [wire_consts]: "TaskKindDiagnosticsCollectV1 = ''diagnostics.collect.v1''"
definition DiagnosticsSchemaVersion :: goint where "DiagnosticsSchemaVersion = 1"
definition DiagnosticsSectionHost :: string where [wire_consts]: "DiagnosticsSectionHost = ''host''"
definition DiagnosticsSectionRuntime :: string where [wire_consts]: "DiagnosticsSectionRuntime = ''runtime''"
definition DiagnosticsSectionState :: string where [wire_consts]: "DiagnosticsSectionState = ''state''"
definition DiagnosticsSectionEvents :: string where [wire_consts]: "DiagnosticsSectionEvents = ''events''"
definition DiagnosticsCheckOK :: string where [wire_consts]: "DiagnosticsCheckOK = ''ok''"
definition DiagnosticsCheckWarning :: string where [wire_consts]: "DiagnosticsCheckWarning = ''warning''"
definition DiagnosticsCheckFailed :: string where [wire_consts]: "DiagnosticsCheckFailed = ''failed''"
definition DiagnosticsCheckUnavailable :: string where [wire_consts]: "DiagnosticsCheckUnavailable = ''unavailable''"
definition DiagnosticsSeverityInfo :: string where [wire_consts]: "DiagnosticsSeverityInfo = ''info''"
definition DiagnosticsSeverityWarning :: string where [wire_consts]: "DiagnosticsSeverityWarning = ''warning''"
definition DiagnosticsSeverityError :: string where [wire_consts]: "DiagnosticsSeverityError = ''error''"
definition DiagnosticsEventSyncFailed :: string where [wire_consts]: "DiagnosticsEventSyncFailed = ''sync.failed''"
definition DiagnosticsEventCoreStarted :: string where [wire_consts]: "DiagnosticsEventCoreStarted = ''core.started''"
definition DiagnosticsEventCoreStopped :: string where [wire_consts]: "DiagnosticsEventCoreStopped = ''core.stopped''"
definition DiagnosticsEventCoreRestarted :: string where [wire_consts]: "DiagnosticsEventCoreRestarted = ''core.restarted''"
definition DiagnosticsEventTaskRejected :: string where [wire_consts]: "DiagnosticsEventTaskRejected = ''task.rejected''"
definition DiagnosticsEventCollectorUnavailable :: string where [wire_consts]: "DiagnosticsEventCollectorUnavailable = ''collector.unavailable''"
definition CheckCodeInstallationLayout :: string where [wire_consts]: "CheckCodeInstallationLayout = ''installation.layout''"
definition CheckCodeCredentialPermissions :: string where [wire_consts]: "CheckCodeCredentialPermissions = ''credential.permissions''"
definition CheckCodeDataDirAccess :: string where [wire_consts]: "CheckCodeDataDirAccess = ''data_dir.access''"
definition CheckCodeStateSQLiteOpen :: string where [wire_consts]: "CheckCodeStateSQLiteOpen = ''state.sqlite_open''"
definition CheckCodeStateSQLiteQuickCheck :: string where [wire_consts]: "CheckCodeStateSQLiteQuickCheck = ''state.sqlite_quick_check''"
definition CheckCodeCoreSelection :: string where [wire_consts]: "CheckCodeCoreSelection = ''core.selection''"
definition CheckCodeCoreBinaryDigest :: string where [wire_consts]: "CheckCodeCoreBinaryDigest = ''core.binary_digest''"
definition CheckCodeCoreConfirmedConfigDigest :: string where [wire_consts]: "CheckCodeCoreConfirmedConfigDigest = ''core.confirmed_config_digest''"
definition CheckCodeCollectorHost :: string where [wire_consts]: "CheckCodeCollectorHost = ''collector.host''"
definition CheckCodeCollectorProcess :: string where [wire_consts]: "CheckCodeCollectorProcess = ''collector.process''"

definition DiagnosticsCheckCodes :: "string list" where
  "DiagnosticsCheckCodes =
     [CheckCodeCollectorHost,
      CheckCodeCollectorProcess,
      CheckCodeCoreBinaryDigest,
      CheckCodeCoreConfirmedConfigDigest,
      CheckCodeCoreSelection,
      CheckCodeCredentialPermissions,
      CheckCodeDataDirAccess,
      CheckCodeInstallationLayout,
      CheckCodeStateSQLiteOpen,
      CheckCodeStateSQLiteQuickCheck]"

definition MaxDiagnosticsSections :: nat where "MaxDiagnosticsSections = 4"
definition MaxDiagnosticsEvents :: nat where "MaxDiagnosticsEvents = 200"
definition MaxDiagnosticsResultBytes :: nat where "MaxDiagnosticsResultBytes = 512 * 1024"
definition MaxDiagnosticsSummaryBytes :: nat where "MaxDiagnosticsSummaryBytes = 512"
definition MaxDiagnosticsNotAfter :: int where "MaxDiagnosticsNotAfter = 5 * 60 * 1000000000"

record DiagnosticsArgs =
  da_SchemaVersion :: goint
  da_Sections :: "string list"
  da_MaxEvents :: goint

record DiagnosticsRuntime =
  dr_CoreState :: string
  dr_CoreConfigDigest :: string

record DiagnosticsState =
  ds_SQLiteQuickCheck :: string
  ds_OutboxPending :: goint
  ds_TasksQueued :: goint

record DiagnosticsEvent =
  de_Code :: string
  de_AtMS :: int64
  de_Severity :: string
  de_Summary :: string

record DiagnosticsCheck =
  dc_Code :: string
  dc_Status :: string
  dc_Summary :: string

text \<open>The events are an optional slice: a nil one stands for a section that was not collected.\<close>

record DiagnosticsResult =
  dg_SchemaVersion :: goint
  dg_CollectedAtMS :: int64
  dg_Recovered :: bool
  dg_Truncated :: bool
  dg_Host :: "HostObservation option"
  dg_Runtime :: "DiagnosticsRuntime option"
  dg_State :: "DiagnosticsState option"
  dg_Events :: "DiagnosticsEvent list option"
  dg_Checks :: "DiagnosticsCheck list"

definition IsDiagnosticsSection :: "string \<Rightarrow> bool" where
  "IsDiagnosticsSection name \<longleftrightarrow>
     name = DiagnosticsSectionHost \<or> name = DiagnosticsSectionRuntime \<or>
     name = DiagnosticsSectionState \<or> name = DiagnosticsSectionEvents"

definition IsDiagnosticsEventCode :: "string \<Rightarrow> bool" where
  "IsDiagnosticsEventCode code \<longleftrightarrow>
     code = DiagnosticsEventSyncFailed \<or> code = DiagnosticsEventCoreStarted \<or>
     code = DiagnosticsEventCoreStopped \<or> code = DiagnosticsEventCoreRestarted \<or>
     code = DiagnosticsEventTaskRejected \<or> code = DiagnosticsEventCollectorUnavailable"

definition IsDiagnosticsSeverity :: "string \<Rightarrow> bool" where
  "IsDiagnosticsSeverity severity \<longleftrightarrow>
     severity = DiagnosticsSeverityInfo \<or> severity = DiagnosticsSeverityWarning \<or>
     severity = DiagnosticsSeverityError"

section \<open>The request\<close>

datatype diagnostics_error =
    SchemaUnsupported goint
  | TooManySections nat
  | UnknownSection string
  | DuplicateSection string
  | MaxEventsOutOfRange goint
  | NoCollectionTime
  | NoCoreState
  | NoIntegrityVerdict
  | NegativeStateCounts
  | TooManyEvents nat
  | TruncatedWithoutEvents
  | UnknownEventCode string
  | UnknownSeverity string
  | EventWithoutTime string
  | EventSummaryTooLong string
  | WrongCheckCount nat
  | CheckOutOfPlace nat string
  | UnknownCheckStatus string
  | CheckSummaryTooLong string

definition sections_step :: "string set \<Rightarrow> string \<Rightarrow> diagnostics_error + string set" where
  "sections_step seen name = after_checks
     [check (\<not> IsDiagnosticsSection name) (UnknownSection name),
      check (name \<in> seen) (DuplicateSection name)]
     (insert name seen)"

definition ValidateDiagnosticsArgs :: "DiagnosticsArgs \<Rightarrow> diagnostics_error option" where
  "ValidateDiagnosticsArgs args = first_error
     [check (da_SchemaVersion args \<noteq> DiagnosticsSchemaVersion) (SchemaUnsupported (da_SchemaVersion args)),
      check (length (da_Sections args) > MaxDiagnosticsSections) (TooManySections (length (da_Sections args))),
      error_of (for_range sections_step {} (da_Sections args)),
      check (sint (da_MaxEvents args) < 0 \<or> sint (da_MaxEvents args) > int MaxDiagnosticsEvents)
        (MaxEventsOutOfRange (da_MaxEvents args))]"

interpretation sections_loop: dedup_loop sections_step "\<lambda>s. s" IsDiagnosticsSection
  by unfold_locales (auto simp: sections_step_def)

section \<open>The result\<close>

definition event_check :: "DiagnosticsEvent \<Rightarrow> diagnostics_error option" where
  "event_check event = first_error
     [check (\<not> IsDiagnosticsEventCode (de_Code event)) (UnknownEventCode (de_Code event)),
      check (\<not> IsDiagnosticsSeverity (de_Severity event)) (UnknownSeverity (de_Severity event)),
      check (sint (de_AtMS event) \<le> 0) (EventWithoutTime (de_Code event)),
      check (length (de_Summary event) > MaxDiagnosticsSummaryBytes) (EventSummaryTooLong (de_Code event))]"

definition validateDiagnosticsChecks :: "DiagnosticsCheck list \<Rightarrow> diagnostics_error option" where
  "validateDiagnosticsChecks checks =
     (if length checks \<noteq> length DiagnosticsCheckCodes then Some (WrongCheckCount (length checks))
      else for_each (\<lambda>(index, c). first_error
          [check (dc_Code c \<noteq> DiagnosticsCheckCodes ! index) (CheckOutOfPlace index (dc_Code c)),
           check (\<not> (dc_Status c = DiagnosticsCheckOK \<or> dc_Status c = DiagnosticsCheckWarning \<or>
             dc_Status c = DiagnosticsCheckFailed \<or> dc_Status c = DiagnosticsCheckUnavailable))
             (UnknownCheckStatus (dc_Status c)),
           check (length (dc_Summary c) > MaxDiagnosticsSummaryBytes) (CheckSummaryTooLong (dc_Code c))])
        (enumerate 0 checks))"

definition ValidateDiagnosticsResult :: "DiagnosticsResult \<Rightarrow> diagnostics_error option" where
  "ValidateDiagnosticsResult result = first_error
     [check (dg_SchemaVersion result \<noteq> DiagnosticsSchemaVersion) (SchemaUnsupported (dg_SchemaVersion result)),
      check (sint (dg_CollectedAtMS result) \<le> 0) NoCollectionTime,
      when_some (dg_Runtime result) (\<lambda>runtime. check (dr_CoreState runtime = []) NoCoreState),
      when_some (dg_State result) (\<lambda>state. first_error
        [check (ds_SQLiteQuickCheck state = []) NoIntegrityVerdict,
         check (sint (ds_OutboxPending state) < 0 \<or> sint (ds_TasksQueued state) < 0) NegativeStateCounts]),
      check (length (slice_elements (dg_Events result)) > MaxDiagnosticsEvents)
        (TooManyEvents (length (slice_elements (dg_Events result)))),
      check (dg_Truncated result \<and> length (slice_elements (dg_Events result)) = 0) TruncatedWithoutEvents,
      for_each event_check (slice_elements (dg_Events result)),
      validateDiagnosticsChecks (dg_Checks result)]"

section \<open>The drop order\<close>

text \<open>Go compares strings byte by byte, and \<open>sort.SliceStable\<close> keeps equal elements in order.\<close>

fun string_less :: "string \<Rightarrow> string \<Rightarrow> bool" where
  "string_less _ [] = False"
| "string_less [] (_ # _) = True"
| "string_less (a # s) (b # t) = (if byte a \<noteq> byte b then byte a < byte b else string_less s t)"

definition event_less :: "DiagnosticsEvent \<Rightarrow> DiagnosticsEvent \<Rightarrow> bool" where
  "event_less a b =
     (if de_AtMS a \<noteq> de_AtMS b then sint (de_AtMS a) < sint (de_AtMS b)
      else string_less (de_Code a) (de_Code b))"

fun insert_stable :: "('a \<Rightarrow> 'a \<Rightarrow> bool) \<Rightarrow> 'a \<Rightarrow> 'a list \<Rightarrow> 'a list" where
  "insert_stable lt x [] = [x]"
| "insert_stable lt x (y # ys) = (if lt y x then y # insert_stable lt x ys else x # y # ys)"

definition SliceStable :: "('a \<Rightarrow> 'a \<Rightarrow> bool) \<Rightarrow> 'a list \<Rightarrow> 'a list" where
  "SliceStable lt xs = foldr (insert_stable lt) xs []"

definition SortDiagnosticsEvents :: "DiagnosticsEvent list \<Rightarrow> DiagnosticsEvent list" where
  "SortDiagnosticsEvents events = SliceStable event_less events"

definition event_key :: "DiagnosticsEvent \<Rightarrow> int \<times> nat list" where
  "event_key e = (sint (de_AtMS e), map of_char (de_Code e))"

lemma string_less_iff: "string_less s t \<longleftrightarrow> map byte s < map byte t"
  by (induction s t rule: string_less.induct) auto

lemma event_less_iff: "event_less a b \<longleftrightarrow> event_key a < event_key b"
  using sint64_eqI [of "de_AtMS a" "de_AtMS b"]
  by (cases "sint (de_AtMS a) = sint (de_AtMS b)") (auto simp: event_less_def event_key_def string_less_iff)

lemma insert_stable_insort:
  "insert_stable (\<lambda>a b. key a < key b) x xs = insort_key (key :: 'a \<Rightarrow> 'b :: linorder) x xs"
  by (induction xs) (auto simp: not_less)

lemma SliceStable_sort_key: "SliceStable (\<lambda>a b. key a < (key b :: 'b :: linorder)) xs = sort_key key xs"
  by (induction xs) (simp_all add: SliceStable_def insert_stable_insort)

lemma SortDiagnosticsEvents_sort_key: "SortDiagnosticsEvents es = sort_key event_key es"
proof -
  have "event_less = (\<lambda>a b. event_key a < event_key b)" by (intro ext) (rule event_less_iff)
  then show ?thesis using SliceStable_sort_key [of event_key es] by (simp add: SortDiagnosticsEvents_def)
qed

section \<open>Properties\<close>

lemma sections_iff:
  "error_of (for_range sections_step {} ss) = None \<longleftrightarrow>
    set ss \<subseteq> {''host'', ''runtime'', ''state'', ''events''} \<and> distinct ss"
  by (auto simp: sections_loop.loop_passes list_all_iff IsDiagnosticsSection_def
      DiagnosticsSectionHost_def DiagnosticsSectionRuntime_def DiagnosticsSectionState_def
      DiagnosticsSectionEvents_def)

definition event_ok :: "DiagnosticsEvent \<Rightarrow> bool" where
  "event_ok e \<longleftrightarrow>
     IsDiagnosticsEventCode (de_Code e) \<and> IsDiagnosticsSeverity (de_Severity e) \<and>
     0 < sint (de_AtMS e) \<and> length (de_Summary e) \<le> 512"

definition check_ok :: "DiagnosticsCheck \<Rightarrow> bool" where
  "check_ok c \<longleftrightarrow>
     dc_Status c \<in> {''ok'', ''warning'', ''failed'', ''unavailable''} \<and> length (dc_Summary c) \<le> 512"

lemma event_check_iff: "event_check e = None \<longleftrightarrow> event_ok e"
  by (auto simp: event_check_def event_ok_def MaxDiagnosticsSummaryBytes_def)

lemma list_all_enumerate:
  "list_all (\<lambda>(i, c). P i c) (enumerate 0 cs) \<longleftrightarrow> (\<forall>i < length cs. P i (cs ! i))"
  by (auto simp: list_all_length nth_enumerate_eq)

lemma validateDiagnosticsChecks_iff [accepts]:
  "validateDiagnosticsChecks cs = None \<longleftrightarrow> map dc_Code cs = DiagnosticsCheckCodes \<and> list_all check_ok cs"
proof (cases "length cs = length DiagnosticsCheckCodes")
  case False
  then have "map dc_Code cs \<noteq> DiagnosticsCheckCodes" using length_map by metis
  with False show ?thesis by (simp add: validateDiagnosticsChecks_def)
next
  case True
  have "validateDiagnosticsChecks cs = None \<longleftrightarrow>
      (\<forall>i < length cs. dc_Code (cs ! i) = DiagnosticsCheckCodes ! i \<and> check_ok (cs ! i))"
    using True
    by (auto simp: validateDiagnosticsChecks_def for_each_None list_all_enumerate case_prod_unfold
        check_ok_def MaxDiagnosticsSummaryBytes_def DiagnosticsCheckOK_def DiagnosticsCheckWarning_def
        DiagnosticsCheckFailed_def DiagnosticsCheckUnavailable_def list_all_length nth_enumerate_eq)
  then show ?thesis using True by (auto simp: list_eq_iff_nth_eq list_all_length)
qed

lemma distinct_check_codes: "distinct DiagnosticsCheckCodes"
  by (simp add: DiagnosticsCheckCodes_def CheckCodeCollectorHost_def CheckCodeCollectorProcess_def
      CheckCodeCoreBinaryDigest_def CheckCodeCoreConfirmedConfigDigest_def CheckCodeCoreSelection_def
      CheckCodeCredentialPermissions_def CheckCodeDataDirAccess_def CheckCodeInstallationLayout_def
      CheckCodeStateSQLiteOpen_def CheckCodeStateSQLiteQuickCheck_def)

text \<open>
  A diagnostic request is accepted exactly when it has the known schema, names each of
  the four published sections at most once and nothing else, and asks for at most 200
  events: no request can ask a node for something nobody specified.
\<close>

theorem ValidateDiagnosticsArgs_accepts_exactly:
  "ValidateDiagnosticsArgs a = None \<longleftrightarrow>
    da_SchemaVersion a = 1 \<and> set (da_Sections a) \<subseteq> {''host'', ''runtime'', ''state'', ''events''} \<and>
    distinct (da_Sections a) \<and> sint (da_MaxEvents a) \<in> {0..200}"
proof -
  have "length ss \<le> 4" if "set ss \<subseteq> {''host'', ''runtime'', ''state'', ''events''}" "distinct ss" for ss
  proof -
    have "length ss = card (set ss)" using that(2) by (simp add: distinct_card)
    also have "\<dots> \<le> card {''host'', ''runtime'', ''state'', ''events''}" using that(1) by (intro card_mono) simp
    finally show ?thesis by simp
  qed
  then show ?thesis
    by (auto simp: ValidateDiagnosticsArgs_def sections_iff DiagnosticsSchemaVersion_def
        MaxDiagnosticsSections_def MaxDiagnosticsEvents_def not_less)
qed

text \<open>
  C35. A diagnostic result is accepted exactly when its schema is known, it is dated, the
  sections present have their verdicts and no negative counts, its at most 200 events are
  known, dated and have a summary of at most 512 bytes, truncation is not claimed without
  events, and its checks are the ten published codes in the published order, each once, with
  a known status and a summary of at most 512 bytes.
\<close>

theorem ValidateDiagnosticsResult_accepts_exactly:
  "(ValidateDiagnosticsResult r = None \<longleftrightarrow>
    dg_SchemaVersion r = 1 \<and> 0 < sint (dg_CollectedAtMS r) \<and>
    pred_option (\<lambda>x. dr_CoreState x \<noteq> []) (dg_Runtime r) \<and>
    pred_option (\<lambda>x. ds_SQLiteQuickCheck x \<noteq> [] \<and> 0 \<le> sint (ds_OutboxPending x) \<and>
      0 \<le> sint (ds_TasksQueued x)) (dg_State r) \<and>
    length (slice_elements (dg_Events r)) \<le> 200 \<and> \<not> (dg_Truncated r \<and> slice_elements (dg_Events r) = []) \<and>
    list_all event_ok (slice_elements (dg_Events r)) \<and>
    map dc_Code (dg_Checks r) = DiagnosticsCheckCodes \<and> list_all check_ok (dg_Checks r)) \<and>
   distinct DiagnosticsCheckCodes"
proof
  have opt: "when_some x f = None \<longleftrightarrow> pred_option (\<lambda>v. f v = None) x"
    for x :: "'x option" and f :: "'x \<Rightarrow> diagnostics_error option" by (cases x) simp_all
  show "ValidateDiagnosticsResult r = None \<longleftrightarrow>
    dg_SchemaVersion r = 1 \<and> 0 < sint (dg_CollectedAtMS r) \<and>
    pred_option (\<lambda>x. dr_CoreState x \<noteq> []) (dg_Runtime r) \<and>
    pred_option (\<lambda>x. ds_SQLiteQuickCheck x \<noteq> [] \<and> 0 \<le> sint (ds_OutboxPending x) \<and>
      0 \<le> sint (ds_TasksQueued x)) (dg_State r) \<and>
    length (slice_elements (dg_Events r)) \<le> 200 \<and> \<not> (dg_Truncated r \<and> slice_elements (dg_Events r) = []) \<and>
    list_all event_ok (slice_elements (dg_Events r)) \<and>
    map dc_Code (dg_Checks r) = DiagnosticsCheckCodes \<and> list_all check_ok (dg_Checks r)"
    unfolding ValidateDiagnosticsResult_def first_error_None_Cons opt for_each_None event_check_iff
    by (simp add: validateDiagnosticsChecks_iff DiagnosticsSchemaVersion_def MaxDiagnosticsEvents_def
        not_less not_le)
qed (rule distinct_check_codes)

text \<open>
  C34. \<open>SortDiagnosticsEvents\<close> orders events oldest first, and those of one instant by code,
  byte by byte; it keeps every event, and events with the same instant and code stay in the
  order they came in; so dropping the first \<open>n\<close> events of a sorted list drops none that is
  newer than one kept.
\<close>

theorem SortDiagnosticsEvents_stable_drop_order:
  "sorted_wrt (\<lambda>a b. sint (de_AtMS a) < sint (de_AtMS b) \<or>
     de_AtMS a = de_AtMS b \<and> map byte (de_Code a) \<le> map byte (de_Code b)) (SortDiagnosticsEvents es) \<and>
   mset (SortDiagnosticsEvents es) = mset es \<and>
   filter (\<lambda>e. de_AtMS e = t \<and> de_Code e = c) (SortDiagnosticsEvents es) =
     filter (\<lambda>e. de_AtMS e = t \<and> de_Code e = c) es \<and>
   list_all (\<lambda>a. list_all (\<lambda>b. sint (de_AtMS a) \<le> sint (de_AtMS b)) (drop n (SortDiagnosticsEvents es)))
     (take n (SortDiagnosticsEvents es))"
proof -
  let ?s = "sort_key event_key es"
  have "sorted (map event_key ?s)" by simp
  then have wrt: "sorted_wrt (\<lambda>a b. event_key a \<le> event_key b) ?s" by (simp add: sorted_wrt_map)
  then have "sorted_wrt (\<lambda>a b. event_key a \<le> event_key b) (take n ?s @ drop n ?s)" by simp
  then have "\<forall>a \<in> set (take n ?s). \<forall>b \<in> set (drop n ?s). event_key a \<le> event_key b"
    unfolding sorted_wrt_append by blast
  then have "list_all (\<lambda>a. list_all (\<lambda>b. sint (de_AtMS a) \<le> sint (de_AtMS b)) (drop n ?s)) (take n ?s)"
    by (force simp: list_all_iff event_key_def)
  moreover have "sorted_wrt (\<lambda>a b. sint (de_AtMS a) < sint (de_AtMS b) \<or>
      de_AtMS a = de_AtMS b \<and> map byte (de_Code a) \<le> map byte (de_Code b)) ?s"
    using wrt by (rule sorted_wrt_mono_rel [rotated]) (auto simp: event_key_def intro: sint64_eqI)
  moreover have "(\<lambda>e. de_AtMS e = t \<and> de_Code e = c) = (\<lambda>e. event_key e = (sint t, map of_char c))"
    by (auto simp: event_key_def fun_eq_iff inj_map_eq_map [OF inj_of_char] intro: sint64_eqI)
  then have "filter (\<lambda>e. de_AtMS e = t \<and> de_Code e = c) ?s = filter (\<lambda>e. de_AtMS e = t \<and> de_Code e = c) es"
    by (simp add: sort_key_stable)
  ultimately show ?thesis by (simp add: SortDiagnosticsEvents_sort_key)
qed

end
