(* ===== verification/Json.thy ===== *)
theory Json
  imports GoStrings
begin

text \<open>
  The part of Go's \<open>encoding/json\<close> (the first version of the package) that the exact
  decoder of \<open>protocol/upgrade.go\<close> uses: the grammar its scanner accepts, the unquoting
  of strings, and the token stream of \<open>json.Decoder\<close> with its state machine, namely
  \<open>Token\<close>, \<open>More\<close> and \<open>Decode\<close>. Input is a byte slice. The decoder remembers a syntax
  error and repeats it; its callers return at the first one, so this is left out.
\<close>

section \<open>Values and lexical elements\<close>

text \<open>A number keeps its literal; an object keeps its members in order, repeats included.\<close>

datatype json =
    JNull
  | JBool bool
  | JNumber string
  | JString string
  | JArray "json list"
  | JObject "(string \<times> json) list"

definition is_space :: "char \<Rightarrow> bool" where
  "is_space c \<longleftrightarrow> byte c = 32 \<or> byte c = 9 \<or> byte c = 13 \<or> byte c = 10"

definition skip_space :: "string \<Rightarrow> string" where
  "skip_space s = dropWhile is_space s"

abbreviation quote :: char where "quote \<equiv> CHR 0x22"
abbreviation backslash :: char where "backslash \<equiv> CHR 0x5C"

definition prepend :: "'a list \<Rightarrow> ('a list \<times> 'b) option \<Rightarrow> ('a list \<times> 'b) option" where
  "prepend w r = map_option (\<lambda>(t, rest). (w @ t, rest)) r"

text \<open>What follows an opening quote: the raw contents and the text after the closing one.\<close>

fun scan_string :: "string \<Rightarrow> (string \<times> string) option" where
  "scan_string [] = None"
| "scan_string (c # s) =
     (if c = quote then Some ([], s)
      else if c = backslash then
        (case s of
           [] \<Rightarrow> None
         | e # s1 \<Rightarrow>
             if e \<in> set (quote # backslash # ''/bfnrt'') then prepend [c, e] (scan_string s1)
             else if e = CHR ''u'' then
               (case s1 of
                  h1 # h2 # h3 # h4 # s2 \<Rightarrow>
                    if list_all (\<lambda>h. hex_val h \<noteq> None) [h1, h2, h3, h4]
                    then prepend [c, e, h1, h2, h3, h4] (scan_string s2) else None
                | _ \<Rightarrow> None)
             else None)
      else if byte c < 32 then None
      else prepend [c] (scan_string s))"

text \<open>A number: its literal and the text after it.\<close>

definition scan_digits :: "string \<Rightarrow> (string \<times> string) option" where
  "scan_digits s =
     (if takeWhile is_digit s = [] then None
      else Some (takeWhile is_digit s, dropWhile is_digit s))"

definition scan_fraction :: "string \<Rightarrow> (string \<times> string) option" where
  "scan_fraction s =
     (case s of c # r \<Rightarrow> if c = CHR ''.'' then prepend [c] (scan_digits r) else Some ([], s)
      | [] \<Rightarrow> Some ([], s))"

definition scan_exponent :: "string \<Rightarrow> (string \<times> string) option" where
  "scan_exponent s =
     (case s of
        c # r \<Rightarrow>
          if c = CHR ''e'' \<or> c = CHR ''E'' then
            (case r of
               g # r1 \<Rightarrow>
                 if g = CHR ''+'' \<or> g = CHR ''-'' then prepend [c, g] (scan_digits r1)
                 else prepend [c] (scan_digits r)
             | [] \<Rightarrow> None)
          else Some ([], s)
      | [] \<Rightarrow> Some ([], s))"

text \<open>The integer part is a single zero or starts with another digit.\<close>

definition scan_integer :: "string \<Rightarrow> (string \<times> string) option" where
  "scan_integer s =
     (case s of c # r \<Rightarrow> if c = CHR ''0'' then Some ([c], r) else scan_digits s
      | [] \<Rightarrow> None)"

definition scan_unsigned :: "string \<Rightarrow> (string \<times> string) option" where
  "scan_unsigned s =
     (case scan_integer s of
        None \<Rightarrow> None
      | Some (i, r) \<Rightarrow>
          (case scan_fraction r of
             None \<Rightarrow> None
           | Some (f, r1) \<Rightarrow> prepend (i @ f) (scan_exponent r1)))"

definition scan_number :: "string \<Rightarrow> (string \<times> string) option" where
  "scan_number s =
     (case s of c # r \<Rightarrow> if c = CHR ''-'' then prepend [c] (scan_unsigned r) else scan_unsigned s
      | [] \<Rightarrow> None)"

section \<open>Unquoting\<close>

text \<open>
  \<open>unquoteBytes\<close> on the contents of a string: escapes are replaced, a pair of surrogates
  is joined, and whatever is not well-formed, a lone surrogate or a stray byte, becomes
  U+FFFD.
\<close>

definition replacement_char :: string where
  "replacement_char = map char_of [239, 191, 189 :: nat]"

definition EncodeRune :: "nat \<Rightarrow> string" where
  "EncodeRune r = map char_of
     (if r < 128 then [r]
      else if r < 2048 then [192 + r div 64, 128 + r mod 64]
      else if r < 65536 then [224 + r div 4096, 128 + r div 64 mod 64, 128 + r mod 64]
      else [240 + r div 262144, 128 + r div 4096 mod 64, 128 + r div 64 mod 64, 128 + r mod 64])"

definition hex4 :: "string \<Rightarrow> nat option" where
  "hex4 s =
     (if list_all (\<lambda>h. hex_val h \<noteq> None) s
      then Some (foldl (\<lambda>a h. a * 16 + the (hex_val h)) 0 s) else None)"

definition getu4 :: "string \<Rightarrow> nat option" where
  "getu4 s =
     (case s of
        b # u # h1 # h2 # h3 # h4 # r \<Rightarrow>
          if b = backslash \<and> u = CHR ''u'' then hex4 [h1, h2, h3, h4] else None
      | _ \<Rightarrow> None)"

definition is_surrogate :: "nat \<Rightarrow> bool" where
  "is_surrogate r \<longleftrightarrow> 55296 \<le> r \<and> r < 57344"

definition utf16_pair :: "nat \<Rightarrow> nat option \<Rightarrow> nat option" where
  "utf16_pair r1 r2 =
     (case r2 of
        None \<Rightarrow> None
      | Some r \<Rightarrow>
          if 55296 \<le> r1 \<and> r1 < 56320 \<and> 56320 \<le> r \<and> r < 57344
          then Some ((r1 - 55296) * 1024 + (r - 56320) + 65536) else None)"

definition escaped :: "char \<Rightarrow> char option" where
  "escaped e = map_of
     [(quote, quote), (backslash, backslash), (CHR ''/'', CHR ''/''), (CHR 0x27, CHR 0x27),
      (CHR ''b'', CHR 0x08), (CHR ''f'', CHR 0x0C), (CHR ''n'', CHR 0x0A),
      (CHR ''r'', CHR 0x0D), (CHR ''t'', CHR 0x09)] e"

function unquote :: "string \<Rightarrow> string option" where
  "unquote s =
     (case s of
        [] \<Rightarrow> Some []
      | c # r \<Rightarrow>
          if c = backslash then
            (case r of
               [] \<Rightarrow> None
             | e # r1 \<Rightarrow>
                 if e = CHR ''u'' then
                   (case getu4 s of
                      None \<Rightarrow> None
                    | Some rr \<Rightarrow>
                        if is_surrogate rr then
                          (case utf16_pair rr (getu4 (drop 6 s)) of
                             Some p \<Rightarrow> map_option (append (EncodeRune p)) (unquote (drop 12 s))
                           | None \<Rightarrow> map_option (append replacement_char) (unquote (drop 6 s)))
                        else map_option (append (EncodeRune rr)) (unquote (drop 6 s)))
                 else
                   (case escaped e of
                      None \<Rightarrow> None
                    | Some x \<Rightarrow> map_option (Cons x) (unquote r1)))
          else if c = quote \<or> byte c < 32 then None
          else
            (case utf8_rest s of
               Some t \<Rightarrow> map_option (append (take (length s - length t) s)) (unquote t)
             | None \<Rightarrow> map_option (append replacement_char) (unquote r)))"
  by pat_completeness auto
termination
  by (relation "measure length") (auto dest: utf8_rest_shorter simp del: utf8_rest.simps)

declare unquote.simps [simp del]

section \<open>The grammar\<close>

text \<open>
  A value parser returns the value and the text after it. The loops over the members of
  an object and the elements of an array go round once more only when a value has been
  taken off the text, which every value parser of this theory does.
\<close>

type_synonym json_parser = "string \<Rightarrow> (json \<times> string) option"

definition member :: "json_parser \<Rightarrow> string \<Rightarrow> ((string \<times> json) \<times> string) option" where
  "member p s =
     (case skip_space s of
        [] \<Rightarrow> None
      | c # r \<Rightarrow>
          if c = quote then
            (case scan_string r of
               None \<Rightarrow> None
             | Some (raw, r1) \<Rightarrow>
                 (case (unquote raw, skip_space r1) of
                    (Some k, c1 # r2) \<Rightarrow>
                      if c1 = CHR '':'' then map_option (\<lambda>(v, r3). ((k, v), r3)) (p r2) else None
                  | _ \<Rightarrow> None))
          else None)"

function members :: "json_parser \<Rightarrow> string \<Rightarrow> ((string \<times> json) list \<times> string) option" where
  "members p s =
     (case member p s of
        None \<Rightarrow> None
      | Some (m, r) \<Rightarrow>
          (case skip_space r of
             [] \<Rightarrow> None
           | c # r1 \<Rightarrow>
               if c = CHR ''}'' then Some ([m], r1)
               else if c = CHR '','' \<and> length r1 < length s then prepend [m] (members p r1)
               else None))"
  by pat_completeness auto
termination
  by (relation "measure (\<lambda>(p, s). length s)") auto

function elements :: "json_parser \<Rightarrow> string \<Rightarrow> (json list \<times> string) option" where
  "elements p s =
     (case p s of
        None \<Rightarrow> None
      | Some (v, r) \<Rightarrow>
          (case skip_space r of
             [] \<Rightarrow> None
           | c # r1 \<Rightarrow>
               if c = CHR '']'' then Some ([v], r1)
               else if c = CHR '','' \<and> length r1 < length s then prepend [v] (elements p r1)
               else None))"
  by pat_completeness auto
termination
  by (relation "measure (\<lambda>(p, s). length s)") auto

declare members.simps [simp del] elements.simps [simp del]

definition object_body :: "json_parser \<Rightarrow> json_parser" where
  "object_body p s =
     (case skip_space s of
        c # r \<Rightarrow> if c = CHR ''}'' then Some (JObject [], r)
                else map_option (apfst JObject) (members p s)
      | [] \<Rightarrow> None)"

definition array_body :: "json_parser \<Rightarrow> json_parser" where
  "array_body p s =
     (case skip_space s of
        c # r \<Rightarrow> if c = CHR '']'' then Some (JArray [], r)
                else map_option (apfst JArray) (elements p s)
      | [] \<Rightarrow> None)"

definition literal :: "string \<Rightarrow> json \<Rightarrow> json_parser" where
  "literal w v s = map_option (\<lambda>r. (v, r)) (CutPrefix s w)"

text \<open>
  One value, given the parser for the values inside it; there is none once the scanner's
  stack holds ten thousand open objects and arrays.
\<close>

definition value_with :: "json_parser option \<Rightarrow> json_parser" where
  "value_with inner s =
     (case skip_space s of
        [] \<Rightarrow> None
      | c # r \<Rightarrow>
          if c = CHR ''{'' then (case inner of None \<Rightarrow> None | Some p \<Rightarrow> object_body p r)
          else if c = CHR ''['' then (case inner of None \<Rightarrow> None | Some p \<Rightarrow> array_body p r)
          else if c = quote then
            (case scan_string r of
               None \<Rightarrow> None
             | Some (raw, r1) \<Rightarrow> map_option (\<lambda>t. (JString t, r1)) (unquote raw))
          else if c = CHR ''t'' then literal ''true'' (JBool True) (c # r)
          else if c = CHR ''f'' then literal ''false'' (JBool False) (c # r)
          else if c = CHR ''n'' then literal ''null'' JNull (c # r)
          else map_option (apfst JNumber) (scan_number (c # r)))"

primrec parse_value :: "nat \<Rightarrow> json_parser" where
  "parse_value 0 = value_with None"
| "parse_value (Suc depth) = value_with (Some (parse_value depth))"

definition maxNestingDepth :: nat where "maxNestingDepth = 10000"

definition scan_value :: json_parser where
  "scan_value = parse_value maxNestingDepth"

text \<open>A document is one value with nothing but white space around it (\<open>checkValid\<close>).\<close>

definition parse_document :: "string \<Rightarrow> json option" where
  "parse_document s =
     (case scan_value s of
        Some (v, r) \<Rightarrow> if skip_space r = [] then Some v else None
      | None \<Rightarrow> None)"

section \<open>Every parser takes something off the text\<close>

lemma skip_space_length: "length (skip_space s) \<le> length s"
  by (simp add: skip_space_def length_dropWhile_le)

lemma skip_space_Cons: "skip_space s = c # r \<Longrightarrow> length r < length s"
  using skip_space_length [of s] by simp

lemma skip_space_shorter [simp]: "skip_space s = c # r \<Longrightarrow> length q \<le> length r \<Longrightarrow> length q < length s"
  using skip_space_Cons by fastforce

lemma prepend_Some: "prepend w r = Some (x, q) \<longleftrightarrow> (\<exists>t. r = Some (t, q) \<and> x = w @ t)"
  by (auto simp: prepend_def)

lemma prepend_None [simp]: "prepend w r = None \<longleftrightarrow> r = None"
  by (simp add: prepend_def)

lemma prepend_simps [simp]: "prepend w None = None" "prepend w (Some (t, q)) = Some (w @ t, q)"
  by (simp_all add: prepend_def)

lemma scan_string_shorter: "scan_string s = Some (raw, r) \<Longrightarrow> length r < length s"
  by (induction s arbitrary: raw r rule: scan_string.induct)
    (fastforce simp: prepend_Some split: if_splits list.splits)+

lemma scan_digits_shorter: "scan_digits s = Some (w, r) \<Longrightarrow> length r < length s"
  by (cases s) (auto simp: scan_digits_def length_dropWhile_le less_Suc_eq_le split: if_splits)

lemma scan_integer_shorter: "scan_integer s = Some (w, r) \<Longrightarrow> length r < length s"
  by (auto simp: scan_integer_def dest: scan_digits_shorter split: list.splits if_splits)

lemma scan_fraction_length: "scan_fraction s = Some (w, r) \<Longrightarrow> length r \<le> length s"
  by (fastforce simp: scan_fraction_def prepend_Some dest: scan_digits_shorter split: list.splits if_splits)

lemma scan_exponent_length: "scan_exponent s = Some (w, r) \<Longrightarrow> length r \<le> length s"
  by (fastforce simp: scan_exponent_def prepend_Some dest: scan_digits_shorter split: list.splits if_splits)

lemma scan_unsigned_shorter: "scan_unsigned s = Some (w, r) \<Longrightarrow> length r < length s"
  by (fastforce simp: scan_unsigned_def prepend_Some split: option.splits
      dest: scan_integer_shorter scan_fraction_length scan_exponent_length)

lemma scan_number_shorter: "scan_number s = Some (w, r) \<Longrightarrow> length r < length s"
  by (fastforce simp: scan_number_def prepend_Some dest: scan_unsigned_shorter split: list.splits if_splits)

lemma literal_shorter: "literal w v s = Some (x, r) \<Longrightarrow> w \<noteq> [] \<Longrightarrow> length r < length s"
  by (auto simp: literal_def CutPrefix_Some)

text \<open>
  The contract between the values and the loops over them: a parser that advances. Under
  it the guard of the loops is no restriction, and whole objects and arrays advance too.
\<close>

locale value_parser =
  fixes p :: json_parser
  assumes advances: "p s = Some (v, r) \<Longrightarrow> length r < length s"
begin

lemma member_advances: "member p s = Some (m, r) \<Longrightarrow> length r < length s"
  by (fastforce simp: member_def split: list.splits if_splits option.splits
      dest!: advances scan_string_shorter skip_space_Cons)

lemma members_step:
  "members p s =
     (case member p s of
        None \<Rightarrow> None
      | Some (m, r) \<Rightarrow>
          (case skip_space r of
             [] \<Rightarrow> None
           | c # r1 \<Rightarrow>
               if c = CHR ''}'' then Some ([m], r1)
               else if c = CHR '','' then prepend [m] (members p r1)
               else None))"
  by (subst members.simps)
    (auto dest!: member_advances skip_space_Cons split: option.split list.split)

lemma elements_step:
  "elements p s =
     (case p s of
        None \<Rightarrow> None
      | Some (v, r) \<Rightarrow>
          (case skip_space r of
             [] \<Rightarrow> None
           | c # r1 \<Rightarrow>
               if c = CHR '']'' then Some ([v], r1)
               else if c = CHR '','' then prepend [v] (elements p r1)
               else None))"
  by (subst elements.simps)
    (auto dest!: advances skip_space_Cons split: option.split list.split)

lemma members_advances: "members p s = Some (ms, r) \<Longrightarrow> length r < length s"
proof (induction s arbitrary: ms rule: length_induct)
  case (1 s)
  from "1.prems" show ?case
    by (subst (asm) members_step)
      (fastforce simp: prepend_Some split: option.splits list.splits if_splits
        dest!: member_advances skip_space_Cons "1.IH" [rule_format, rotated])
qed

lemma elements_advances: "elements p s = Some (vs, r) \<Longrightarrow> length r < length s"
proof (induction s arbitrary: vs rule: length_induct)
  case (1 s)
  from "1.prems" show ?case
    by (subst (asm) elements_step)
      (fastforce simp: prepend_Some split: option.splits list.splits if_splits
        dest!: advances skip_space_Cons "1.IH" [rule_format, rotated])
qed

lemma object_body_length: "object_body p s = Some (v, r) \<Longrightarrow> length r < length s"
  by (auto simp: object_body_def dest!: members_advances split: list.splits if_splits)

lemma array_body_length: "array_body p s = Some (v, r) \<Longrightarrow> length r < length s"
  by (auto simp: array_body_def dest!: elements_advances split: list.splits if_splits)

end

lemma value_with_advances:
  assumes "\<And>p. inner = Some p \<Longrightarrow> value_parser p"
  shows "value_parser (value_with inner)"
proof
  fix s v r
  assume s: "value_with inner s = Some (v, r)"
  have "length r < length q"
    if "inner = Some p" "object_body p q = Some (v, r) \<or> array_body p q = Some (v, r)" for p q
    using that assms value_parser.object_body_length value_parser.array_body_length by blast
  with s show "length r < length s"
    by (fastforce simp: value_with_def split: list.splits if_splits option.splits
        dest!: skip_space_Cons scan_string_shorter scan_number_shorter literal_shorter)
qed

lemma parse_value_advances: "value_parser (parse_value d)"
  by (induction d) (auto intro: value_with_advances)

interpretation scan: value_parser scan_value
  by (simp add: scan_value_def parse_value_advances)

section \<open>More nesting allowed, more accepted\<close>

definition extends :: "json_parser \<Rightarrow> json_parser \<Rightarrow> bool" where
  "extends p q \<longleftrightarrow> (\<forall>s v r. p s = Some (v, r) \<longrightarrow> q s = Some (v, r))"

lemma extendsD: "extends p q \<Longrightarrow> p s = Some (v, r) \<Longrightarrow> q s = Some (v, r)"
  by (simp add: extends_def)

lemma member_extends: "extends p q \<Longrightarrow> member p s = Some (m, r) \<Longrightarrow> member q s = Some (m, r)"
  by (auto simp: member_def extendsD split: list.splits if_splits option.splits)

lemma members_extends:
  assumes "extends p q"
  shows "members p s = Some (ms, r) \<Longrightarrow> members q s = Some (ms, r)"
proof (induction s arbitrary: ms rule: length_induct)
  case (1 s)
  from "1.prems" obtain m r1 c r2 where m: "member p s = Some (m, r1)" "skip_space r1 = c # r2"
    by (subst (asm) members.simps) (auto split: option.splits list.splits)
  show ?case
  proof (cases "c = CHR ''}''")
    case True
    with "1.prems" m member_extends [OF assms m(1)] show ?thesis
      by (simp add: members.simps [of p s] members.simps [of q s])
  next
    case False
    with "1.prems" m obtain ms' where c: "c = CHR '',''" "length r2 < length s" "ms = m # ms'"
      and tail: "members p r2 = Some (ms', r)"
      by (auto simp: members.simps [of p s] prepend_Some split: if_splits)
    have "members q r2 = Some (ms', r)" using "1.IH" c(2) tail by blast
    with c m member_extends [OF assms m(1)] show ?thesis by (simp add: members.simps [of q s])
  qed
qed

lemma elements_extends:
  assumes "extends p q"
  shows "elements p s = Some (vs, r) \<Longrightarrow> elements q s = Some (vs, r)"
proof (induction s arbitrary: vs rule: length_induct)
  case (1 s)
  from "1.prems" obtain v r1 c r2 where v: "p s = Some (v, r1)" "skip_space r1 = c # r2"
    by (subst (asm) elements.simps) (auto split: option.splits list.splits)
  show ?case
  proof (cases "c = CHR '']''")
    case True
    with "1.prems" v extendsD [OF assms v(1)] show ?thesis
      by (simp add: elements.simps [of p s] elements.simps [of q s])
  next
    case False
    with "1.prems" v obtain vs' where c: "c = CHR '',''" "length r2 < length s" "vs = v # vs'"
      and tail: "elements p r2 = Some (vs', r)"
      by (auto simp: elements.simps [of p s] prepend_Some split: if_splits)
    have "elements q r2 = Some (vs', r)" using "1.IH" c(2) tail by blast
    with c v extendsD [OF assms v(1)] show ?thesis by (simp add: elements.simps [of q s])
  qed
qed

lemma object_body_extends:
  "extends p q \<Longrightarrow> object_body p s = Some (v, r) \<Longrightarrow> object_body q s = Some (v, r)"
  by (fastforce simp: object_body_def split: list.splits if_splits dest: members_extends)

lemma array_body_extends:
  "extends p q \<Longrightarrow> array_body p s = Some (v, r) \<Longrightarrow> array_body q s = Some (v, r)"
  by (fastforce simp: array_body_def split: list.splits if_splits dest: elements_extends)

lemma value_with_object:
  "skip_space s = CHR ''{'' # q \<Longrightarrow> value_with (Some p) s = object_body p q"
  by (simp add: value_with_def)

lemma value_with_array:
  "skip_space s = CHR ''['' # q \<Longrightarrow> value_with (Some p) s = array_body p q"
  by (simp add: value_with_def)

lemma value_with_scalar:
  "skip_space s = c # q \<Longrightarrow> c \<noteq> CHR ''{'' \<Longrightarrow> c \<noteq> CHR ''['' \<Longrightarrow> value_with inner s = value_with None s"
  by (simp add: value_with_def)

lemma value_with_cases:
  assumes "value_with inner s = Some (v, r)"
  obtains (object) q p where "skip_space s = CHR ''{'' # q" "inner = Some p" "object_body p q = Some (v, r)"
    | (array) q p where "skip_space s = CHR ''['' # q" "inner = Some p" "array_body p q = Some (v, r)"
    | (scalar) c q where "skip_space s = c # q" "c \<noteq> CHR ''{''" "c \<noteq> CHR ''[''"
        "value_with None s = Some (v, r)"
proof (cases "skip_space s")
  case Nil
  with assms show thesis by (simp add: value_with_def)
next
  case (Cons c q)
  consider "c = CHR ''{''" | "c = CHR ''[''" | "c \<noteq> CHR ''{''" "c \<noteq> CHR ''[''" by blast
  then show thesis
  proof cases
    case 1
    with assms Cons obtain p where "inner = Some p" by (cases inner) (simp_all add: value_with_def)
    with 1 assms Cons show thesis by (intro object) (simp_all add: value_with_object)
  next
    case 2
    with assms Cons obtain p where "inner = Some p" by (cases inner) (simp_all add: value_with_def)
    with 2 assms Cons show thesis by (intro array) (simp_all add: value_with_array)
  next
    case 3
    with assms Cons show thesis by (intro scalar) (simp_all add: value_with_scalar [of s c q inner])
  qed
qed

lemma value_with_extends:
  assumes "\<And>p. inner = Some p \<Longrightarrow> \<exists>q. inner' = Some q \<and> extends p q"
  shows "extends (value_with inner) (value_with inner')"
  unfolding extends_def
proof (intro allI impI)
  fix s v r
  assume "value_with inner s = Some (v, r)"
  then show "value_with inner' s = Some (v, r)"
  proof (cases rule: value_with_cases)
    case (object q p)
    with assms [of p] show ?thesis by (auto simp: value_with_object object_body_extends)
  next
    case (array q p)
    with assms [of p] show ?thesis by (auto simp: value_with_array array_body_extends)
  next
    case (scalar c q)
    then show ?thesis by (simp add: value_with_scalar [of s c q inner'])
  qed
qed

lemma parse_value_extends: "extends (parse_value d) (parse_value (Suc d))"
proof (induction d)
  case 0
  show ?case using value_with_extends [of None] by simp
next
  case (Suc d)
  then show ?case
    using value_with_extends [of "Some (parse_value d)" "Some (parse_value (Suc d))"] by simp
qed

abbreviation scan_inner :: json_parser where
  "scan_inner \<equiv> parse_value (maxNestingDepth - 1)"

lemma maxNestingDepth_Suc: "maxNestingDepth = Suc (maxNestingDepth - 1)"
  by (simp add: maxNestingDepth_def)

lemma scan_value_step: "scan_value = value_with (Some scan_inner)"
  unfolding scan_value_def by (subst maxNestingDepth_Suc) (simp only: parse_value.simps)

text \<open>Reading a concrete text by rewriting: the levels are unfolded where text is met.\<close>

lemma parse_value_app: "0 < depth \<Longrightarrow> parse_value depth s = value_with (Some (parse_value (depth - 1))) s"
  by (cases depth) simp_all

lemma scan_value_app: "scan_value s = parse_value 10000 s"
  by (simp add: scan_value_def maxNestingDepth_def)

lemmas json_eval = parse_document_def scan_value_app parse_value_app value_with_def object_body_def
  array_body_def members.simps elements.simps member_def skip_space_def is_space_def unquote.simps
  literal_def CutPrefix_def scan_number_def scan_unsigned_def scan_integer_def scan_digits_def
  scan_fraction_def scan_exponent_def is_digit_def prepend_def

lemma scan_value_extends: "extends scan_inner scan_value"
  unfolding scan_value_def
  using parse_value_extends [of "maxNestingDepth - 1"] by (simp only: maxNestingDepth_Suc [symmetric])

text \<open>An object at the top is read the same with the values at full depth.\<close>

lemma scalar_not_object: "value_with None s = Some (v, r) \<Longrightarrow> v \<noteq> JObject ms \<and> v \<noteq> JArray vs"
  by (auto simp: value_with_def literal_def split: list.splits if_splits option.splits)

lemma scan_object:
  assumes "scan_value s = Some (JObject ms, r)"
  shows "\<exists>q. skip_space s = CHR ''{'' # q \<and> object_body scan_value q = Some (JObject ms, r)"
proof -
  from assms have "value_with (Some scan_inner) s = Some (JObject ms, r)"
    by (simp only: scan_value_step)
  then show ?thesis
  proof (cases rule: value_with_cases)
    case (object q p)
    then show ?thesis using object_body_extends [OF scan_value_extends] by blast
  next
    case (array q p)
    then show ?thesis by (auto simp: array_body_def split: list.splits if_splits)
  next
    case (scalar c q)
    then show ?thesis using scalar_not_object by blast
  qed
qed

section \<open>What is scanned can be unquoted\<close>

definition raw_string :: "string \<Rightarrow> bool" where
  "raw_string s \<longleftrightarrow> scan_string (s @ [quote]) = Some (s, [])"

lemma hex_val_quote [simp]: "hex_val quote = None"
  by (simp add: hex_val_def)

lemma raw_string_plain:
  "c \<noteq> quote \<Longrightarrow> c \<noteq> backslash \<Longrightarrow> raw_string (c # s) \<longleftrightarrow> \<not> byte c < 32 \<and> raw_string s"
  by (auto simp: raw_string_def prepend_Some)

lemma raw_string_quote [simp]: "\<not> raw_string (quote # s)"
  by (simp add: raw_string_def)

lemma raw_string_simple:
  "e \<in> set (quote # backslash # ''/bfnrt'') \<Longrightarrow> raw_string (backslash # e # s) \<longleftrightarrow> raw_string s"
  by (auto simp: raw_string_def prepend_Some)

lemma raw_string_backslash:
  "raw_string (backslash # s) \<Longrightarrow>
    \<exists>e s1. s = e # s1 \<and> (e \<in> set (quote # backslash # ''/bfnrt'') \<or> e = CHR ''u'')"
  by (cases s) (auto simp: raw_string_def split: if_splits list.splits)

lemma raw_string_u:
  "raw_string (backslash # CHR ''u'' # s) \<Longrightarrow>
    \<exists>h1 h2 h3 h4 s2. s = h1 # h2 # h3 # h4 # s2 \<and> hex4 [h1, h2, h3, h4] \<noteq> None \<and> raw_string s2"
  by (fastforce simp: raw_string_def prepend_Some hex4_def Cons_eq_append_conv append_eq_Cons_conv
      split: if_splits list.splits)

lemma getu4_Some:
  "getu4 s = Some n \<Longrightarrow> \<exists>h1 h2 h3 h4 r. s = backslash # CHR ''u'' # h1 # h2 # h3 # h4 # r"
  by (auto simp: getu4_def split: list.splits if_splits)

lemma raw_string_drop_escape: "raw_string s \<Longrightarrow> getu4 s = Some n \<Longrightarrow> raw_string (drop 6 s)"
  by (auto dest!: getu4_Some raw_string_u)

lemma raw_string_cont: "utf8_cont c \<Longrightarrow> raw_string (c # s) \<longleftrightarrow> raw_string s"
  by (subst raw_string_plain) (auto simp: utf8_cont_def)

lemma raw_string_rune: "raw_string s \<Longrightarrow> hd s \<noteq> backslash \<Longrightarrow> utf8_rest s = Some t \<Longrightarrow> raw_string t"
  by (cases s; cases "hd s = quote")
    (auto simp: raw_string_plain raw_string_cont split: if_splits list.splits)

lemma escaped_simple: "e \<in> set (quote # backslash # ''/bfnrt'') \<Longrightarrow> \<exists>x. escaped e = Some x"
  by (auto simp: escaped_def)

lemma unquote_Nil [simp]: "unquote [] = Some []"
  by (subst unquote.simps) simp

lemma unquote_simple:
  "escaped e = Some x \<Longrightarrow> e \<noteq> CHR ''u'' \<Longrightarrow>
    unquote (backslash # e # s) = map_option (Cons x) (unquote s)"
  by (subst unquote.simps) simp

lemma unquote_u:
  "getu4 (backslash # CHR ''u'' # s) = Some n \<Longrightarrow>
    unquote (backslash # CHR ''u'' # s) =
      (if is_surrogate n then
         (case utf16_pair n (getu4 (drop 4 s)) of
            Some p \<Rightarrow> map_option (append (EncodeRune p)) (unquote (drop 10 s))
          | None \<Rightarrow> map_option (append replacement_char) (unquote (drop 4 s)))
       else map_option (append (EncodeRune n)) (unquote (drop 4 s)))"
  by (subst unquote.simps) (simp split: option.split)

lemma unquote_plain:
  "c \<noteq> backslash \<Longrightarrow> c \<noteq> quote \<Longrightarrow> \<not> byte c < 32 \<Longrightarrow>
    unquote (c # r) =
      (case utf8_rest (c # r) of
         Some t \<Rightarrow> map_option (append (take (length (c # r) - length t) (c # r))) (unquote t)
       | None \<Rightarrow> map_option (append replacement_char) (unquote r))"
  by (subst unquote.simps) (simp del: utf8_rest.simps)

lemma raw_string_cases:
  assumes "raw_string s"
  obtains (Nil) "s = []"
    | (simple) e s1 where "s = backslash # e # s1" "e \<in> set (quote # backslash # ''/bfnrt'')" "raw_string s1"
    | (uni) s1 n where "s = backslash # CHR ''u'' # s1" "getu4 s = Some n" "raw_string (drop 4 s1)"
    | (plain) c r where "s = c # r" "c \<noteq> backslash" "c \<noteq> quote" "\<not> byte c < 32" "raw_string r"
proof (cases s)
  case Nil
  then show thesis by (rule that(1))
next
  case (Cons c r)
  show thesis
  proof (cases "c = backslash")
    case False
    with assms Cons have "c \<noteq> quote" "\<not> byte c < 32" "raw_string r"
      by (cases "c = quote"; simp add: raw_string_plain)+
    with False Cons show thesis by (intro that(4))
  next
    case True
    with assms Cons obtain e s1 where r: "r = e # s1"
      and e: "e \<in> set (quote # backslash # ''/bfnrt'') \<or> e = CHR ''u''"
      using raw_string_backslash [of r] by blast
    show thesis
    proof (cases "e = CHR ''u''")
      case u: True
      with assms Cons True r obtain h1 h2 h3 h4 s2 n where
        h: "s1 = h1 # h2 # h3 # h4 # s2" "hex4 [h1, h2, h3, h4] = Some n" "raw_string s2"
        using raw_string_u [of s1] by auto
      show thesis
      proof (rule that(3))
        show "s = backslash # CHR ''u'' # s1" by (simp add: Cons True r u)
        show "getu4 s = Some n" by (simp only: Cons True r u h(1) getu4_def list.case simp_thms if_True h(2))
        show "raw_string (drop 4 s1)" by (simp add: h)
      qed
    next
      case False
      with e have e: "e \<in> set (quote # backslash # ''/bfnrt'')" by simp
      show thesis
      proof (rule that(2))
        show "s = backslash # e # s1" by (simp add: Cons True r)
        show "raw_string s1" using assms raw_string_simple [OF e] by (simp add: Cons True r)
      qed (rule e)
    qed
  qed
qed

lemma raw_string_unquotes: "raw_string s \<Longrightarrow> \<exists>t. unquote s = Some t"
proof (induction s rule: length_induct)
  case (1 s)
  have IH: "\<exists>t. unquote q = Some t" if "length q < length s" "raw_string q" for q
    using "1.IH" that by blast
  from "1.prems" show ?case
  proof (cases s rule: raw_string_cases)
    case Nil
    then show ?thesis by simp
  next
    case (simple e s1)
    with IH [of s1] obtain t where "unquote s1 = Some t" by auto
    moreover have "e \<noteq> CHR ''u''" using simple(2) by auto
    ultimately show ?thesis
      using escaped_simple [OF simple(2)] unquote_simple [of e] by (auto simp: simple(1))
  next
    case (uni s1 n)
    have shorter: "length (drop n s1) < length s" for n
      by (simp add: uni(1) less_Suc_eq_le le_SucI)
    with uni(3) IH [of "drop 4 s1"] obtain t where t: "unquote (drop 4 s1) = Some t" by blast
    show ?thesis
    proof (cases "utf16_pair n (getu4 (drop 4 s1))")
      case None
      with unquote_u [of s1] uni(1,2) t show ?thesis by simp
    next
      case (Some p)
      then obtain m where "getu4 (drop 4 s1) = Some m" by (auto simp: utf16_pair_def split: option.splits)
      with raw_string_drop_escape [OF uni(3)] have "raw_string (drop 10 s1)" by simp
      with shorter IH obtain u where "unquote (drop 10 s1) = Some u" by blast
      with Some unquote_u [of s1] uni(1,2) t show ?thesis by simp
    qed
  next
    case (plain c r)
    show ?thesis
    proof (cases "utf8_rest s")
      case None
      from plain IH [of r] obtain u where "unquote r = Some u" by auto
      with None plain unquote_plain [of c r] show ?thesis by simp
    next
      case (Some t)
      have "raw_string t" using raw_string_rune [OF "1.prems" _ Some] plain by simp
      with utf8_rest_shorter [OF Some] IH [of t] obtain u where "unquote t = Some u" by auto
      with Some plain unquote_plain [of c r] show ?thesis by (simp del: utf8_rest.simps)
    qed
  qed
qed

lemma raw_string_Nil [simp]: "raw_string []"
  by (simp add: raw_string_def)

lemma raw_string_hex:
  "hex_val h1 \<noteq> None \<Longrightarrow> hex_val h2 \<noteq> None \<Longrightarrow> hex_val h3 \<noteq> None \<Longrightarrow> hex_val h4 \<noteq> None \<Longrightarrow>
    raw_string s \<Longrightarrow> raw_string (backslash # CHR ''u'' # h1 # h2 # h3 # h4 # s)"
  by (simp add: raw_string_def)

lemma scan_string_raw: "scan_string s = Some (raw, r) \<Longrightarrow> raw_string raw"
proof (induction s arbitrary: raw r rule: length_induct)
  case (1 s)
  have IH: "raw_string w" if "scan_string q = Some (w, r)" "length q < length s" for q w
    using "1.IH" that by blast
  from "1.prems" obtain c q where s: "s = c # q" by (cases s) auto
  consider (quote) "c = quote" | (escape) "c = backslash" | (plain) "c \<noteq> quote" "c \<noteq> backslash"
    by blast
  then show ?case
  proof cases
    case quote
    with "1.prems" s show ?thesis by simp
  next
    case plain
    with "1.prems" s obtain w where "scan_string q = Some (w, r)" "raw = c # w" "\<not> byte c < 32"
      by (auto simp: prepend_Some split: if_splits)
    with plain s IH show ?thesis by (simp add: raw_string_plain)
  next
    case escape
    with "1.prems" s obtain e q1 where q: "q = e # q1" by (cases q) auto
    show ?thesis
    proof (cases "e \<in> set (quote # backslash # ''/bfnrt'')")
      case True
      with "1.prems" s q escape obtain w where w: "scan_string q1 = Some (w, r)" "raw = c # e # w"
        by (simp only: scan_string.simps prepend_Some if_True simp_thms) (auto simp: prepend_Some)
      from s q have "length q1 < length s" by simp
      with w(1) have "raw_string w" by (rule IH)
      with raw_string_simple [OF True] w(2) escape show ?thesis by simp
    next
      case False
      with "1.prems" s q escape obtain h1 h2 h3 h4 q2 where
        h: "e = CHR ''u''" "q1 = h1 # h2 # h3 # h4 # q2"
          "list_all (\<lambda>h. hex_val h \<noteq> None) [h1, h2, h3, h4]"
        and p: "prepend [c, e, h1, h2, h3, h4] (scan_string q2) = Some (raw, r)"
        by (auto split: if_splits list.splits)
      from p obtain w where w: "scan_string q2 = Some (w, r)" "raw = c # e # h1 # h2 # h3 # h4 # w"
        by (auto simp: prepend_Some)
      from s q h(2) have "length q2 < length s" by simp
      with w(1) have "raw_string w" by (rule IH)
      with raw_string_hex h w(2) escape show ?thesis by simp
    qed
  qed
qed

text \<open>So the decoder never meets a scanned string it cannot unquote, where it would panic.\<close>

lemma scan_string_unquotes: "scan_string s = Some (raw, r) \<Longrightarrow> unquote raw \<noteq> None"
  using raw_string_unquotes scan_string_raw by blast

end
