(* ===== verification/GoFloat.thy ===== *)
theory GoFloat
  imports Scalars
begin

text \<open>
  \<open>strconv.ParseFloat(s, 64)\<close> on the numerals JSON admits, into the bit pattern the
  model uses for a \<open>float64\<close>: the decimal value, exact as a quotient of naturals, is
  rounded to the nearest double, ties to even, subnormal numbers included; a value that
  rounds beyond the largest finite double is a range error.
\<close>

section \<open>The exact value of a numeral\<close>

definition exponent_value :: "string \<Rightarrow> int" where
  "exponent_value s =
     (case s of
        [] \<Rightarrow> 0
      | c # r \<Rightarrow>
          if c = CHR ''-'' then - int (parse_nat r)
          else if c = CHR ''+'' then int (parse_nat r)
          else int (parse_nat s))"

text \<open>Sign, digits without the point, and the power of ten they are scaled by.\<close>

definition numeral_parts :: "string \<Rightarrow> bool \<times> nat \<times> int" where
  "numeral_parts s =
     (let neg = (take 1 s = ''-''); u = (if neg then tl s else s);
          whole = takeWhile is_digit u; r = dropWhile is_digit u;
          frac = (if take 1 r = ''.'' then takeWhile is_digit (tl r) else []);
          r1 = (if take 1 r = ''.'' then dropWhile is_digit (tl r) else r)
      in (neg, parse_nat (whole @ frac), exponent_value (tl r1) - len frac))"

definition decimal_fraction :: "nat \<Rightarrow> int \<Rightarrow> nat \<times> nat" where
  "decimal_fraction m e = (m * 10 ^ nat e, 10 ^ nat (- e))"

section \<open>Rounding\<close>

fun bit_length :: "nat \<Rightarrow> nat" where
  "bit_length n = (if n = 0 then 0 else Suc (bit_length (n div 2)))"

declare bit_length.simps [simp del]

text \<open>The exponent of the largest power of two that is at most \<open>n / d\<close>.\<close>

definition log2_floor :: "nat \<Rightarrow> nat \<Rightarrow> int" where
  "log2_floor n d =
     (let k = int (bit_length n) - int (bit_length d)
      in if n * 2 ^ nat (- k) < d * 2 ^ nat k then k - 1 else k)"

definition round_half_even :: "nat \<Rightarrow> nat \<Rightarrow> nat" where
  "round_half_even n d =
     (let q = n div d; r = n mod d
      in if 2 * r < d \<or> 2 * r = d \<and> even q then q else Suc q)"

text \<open>
  The significand is scaled to 53 bits, or to the fixed subnormal exponent; a carry out of
  it moves into the exponent by itself.
\<close>

definition float_bits :: "nat \<Rightarrow> nat \<Rightarrow> nat option" where
  "float_bits n d =
     (if n = 0 then Some 0
      else
        let e = max (log2_floor n d) (- 1022);
            significand = round_half_even (n * 2 ^ nat (52 - e)) (d * 2 ^ nat (e - 52));
            bits = nat (e + 1022) * 2 ^ 52 + significand
        in if 2047 * 2 ^ 52 \<le> bits then None else Some bits)"

definition ParseFloat :: "string \<Rightarrow> float64 option" where
  "ParseFloat s =
     (case numeral_parts s of
        (neg, m, e) \<Rightarrow>
          (case decimal_fraction m e of
             (n, d) \<Rightarrow>
               map_option (\<lambda>bits. word_of_nat (bits + (if neg then 2 ^ 63 else 0))) (float_bits n d)))"

section \<open>Printing\<close>

text \<open>The magnitude of a finite double as a quotient of naturals.\<close>

definition float_fraction :: "float64 \<Rightarrow> nat \<times> nat" where
  "float_fraction x =
     (let m = (if f64_exponent x = 0 then f64_fraction x else f64_fraction x + 2 ^ 52);
          e = (if f64_exponent x = 0 then - 1074 else int (f64_exponent x) - 1075)
      in (m * 2 ^ nat e, 2 ^ nat (- e)))"

definition magnitude_bits :: "float64 \<Rightarrow> nat" where
  "magnitude_bits x = unat x mod 2 ^ 63"

text \<open>The power of ten of the first digit of \<open>n / d\<close>; no double is below \<open>10 ^ - 324\<close>.\<close>

definition log10_floor :: "nat \<Rightarrow> nat \<Rightarrow> int" where
  "log10_floor n d =
     (if d \<le> n then int (length (format_nat (n div d))) - 1
      else - int (length (takeWhile (\<lambda>j. n * 10 ^ j < d) [0..<325])))"

text \<open>
  The shortest digits that are read back as the same double, and of those the closest:
  \<open>count\<close> digits, the last of which stands for \<open>10 ^ p\<close>.
\<close>

definition reads_back :: "nat \<Rightarrow> int \<Rightarrow> nat \<Rightarrow> bool" where
  "reads_back bits p m = (case decimal_fraction m p of (n, d) \<Rightarrow> float_bits n d = Some bits)"

definition digits_of_length :: "nat \<Rightarrow> nat \<Rightarrow> nat \<Rightarrow> nat \<Rightarrow> (nat \<times> int) option" where
  "digits_of_length bits n d count =
     (let p = log10_floor n d - int (count - 1);
          n' = n * 10 ^ nat (- p); d' = d * 10 ^ nat p;
          lo = n' div d'; near = round_half_even n' d'
      in if reads_back bits p near then Some (near, p)
         else if reads_back bits p lo then Some (lo, p)
         else if reads_back bits p (Suc lo) then Some (Suc lo, p)
         else None)"

fun first_some :: "'a option list \<Rightarrow> 'a option" where
  "first_some [] = None"
| "first_some (None # xs) = first_some xs"
| "first_some (Some x # xs) = Some x"

fun strip_zeros :: "nat \<Rightarrow> int \<Rightarrow> nat \<times> int" where
  "strip_zeros m p = (if m \<noteq> 0 \<and> m mod 10 = 0 then strip_zeros (m div 10) (p + 1) else (m, p))"

declare strip_zeros.simps [simp del]

text \<open>
  Seventeen digits are enough for every double; the default, all digits of the exact value
  (\<open>d\<close> is a power of two), is not met.
\<close>

definition shortest_digits :: "float64 \<Rightarrow> nat \<times> int" where
  "shortest_digits x =
     (case float_fraction x of
        (n, d) \<Rightarrow>
          (case first_some (map (digits_of_length (magnitude_bits x) n d) [1..<18]) of
             Some (m, p) \<Rightarrow> strip_zeros m p
           | None \<Rightarrow> (n * 5 ^ (bit_length d - 1), - int (bit_length d - 1))))"

definition fixed_notation :: "string \<Rightarrow> int \<Rightarrow> string" where
  "fixed_notation ds point =
     (if point \<le> 0 then ''0.'' @ replicate (nat (- point)) CHR ''0'' @ ds
      else if len ds \<le> point then ds @ replicate (nat (point - len ds)) CHR ''0''
      else take (nat point) ds @ ''.'' @ drop (nat point) ds)"

definition exponent_notation :: "string \<Rightarrow> int \<Rightarrow> string" where
  "exponent_notation ds point =
     take 1 ds @ (if length ds > 1 then CHR ''.'' # drop 1 ds else []) @
     (if point - 1 < 0 then ''e-'' else ''e+'') @ format_nat (nat \<bar>point - 1\<bar>)"

text \<open>
  The number \<open>encoding/json\<close> writes: fixed notation from \<open>1e-6\<close> (whose bits are the first
  constant) up to and without \<open>1e21\<close> (the second), exponents without a leading zero
  outside.
\<close>

definition json_float :: "float64 \<Rightarrow> string" where
  "json_float x =
     (if f64_sign x then ''-'' else []) @
     (if magnitude_bits x = 0 then ''0''
      else
        (case shortest_digits x of
           (m, p) \<Rightarrow>
             (let ds = format_nat m; point = len ds + p
              in if magnitude_bits x < 4517329193108106637 \<or> 4921056587992461136 \<le> magnitude_bits x
                 then exponent_notation ds point
                 else fixed_notation ds point)))"

end
