(* ===== verification/Base64.thy ===== *)
theory Base64
  imports GoStrings
begin

text \<open>
  \<open>base64.StdEncoding\<close>, in which \<open>encoding/json\<close> writes and reads a byte slice: the
  padded standard alphabet. Decoding skips line breaks and, not being strict, ignores the
  unused bits of the last digit.
\<close>

section \<open>The alphabet\<close>

definition base64_digit :: "nat \<Rightarrow> char" where
  "base64_digit n =
     (if n < 26 then char_of (65 + n) else if n < 52 then char_of (71 + n)
      else if n < 62 then char_of (n - 4) else if n = 62 then CHR ''+'' else CHR ''/'')"

definition base64_val :: "char \<Rightarrow> nat option" where
  "base64_val c =
     (if 65 \<le> byte c \<and> byte c \<le> 90 then Some (byte c - 65)
      else if 97 \<le> byte c \<and> byte c \<le> 122 then Some (byte c - 71)
      else if 48 \<le> byte c \<and> byte c \<le> 57 then Some (byte c + 4)
      else if c = CHR ''+'' then Some 62 else if c = CHR ''/'' then Some 63 else None)"

lemma base64_val_digit [simp]: "n < 64 \<Longrightarrow> base64_val (base64_digit n) = Some n"
  by (auto simp: base64_val_def base64_digit_def)

section \<open>Encoding and decoding\<close>

text \<open>Three bytes are one number, and so are four digits.\<close>

fun base64 :: "string \<Rightarrow> string" where
  "base64 (a # b # c # s) =
     (let n = byte a * 65536 + byte b * 256 + byte c
      in map base64_digit [n div 262144, n div 4096 mod 64, n div 64 mod 64, n mod 64]) @ base64 s"
| "base64 [a, b] =
     (let n = byte a * 65536 + byte b * 256
      in map base64_digit [n div 262144, n div 4096 mod 64, n div 64 mod 64]) @ ''=''"
| "base64 [a] =
     (let n = byte a * 65536 in map base64_digit [n div 262144, n div 4096 mod 64]) @ ''==''"
| "base64 [] = []"

definition digit_bytes :: "string \<Rightarrow> string option" where
  "digit_bytes ds =
     (if list_all (\<lambda>d. base64_val d \<noteq> None) ds
      then (let n = foldl (\<lambda>x d. x * 64 + the (base64_val d)) 0 ds * 64 ^ (4 - length ds)
            in Some (map char_of (take (length ds - 1) [n div 65536, n div 256 mod 256, n mod 256])))
      else None)"

fun base64_groups :: "string \<Rightarrow> string option" where
  "base64_groups [] = Some []"
| "base64_groups (a # b # c # d # s) =
     (if s = [] \<and> d = CHR ''='' then
        (if c = CHR ''='' then digit_bytes [a, b] else digit_bytes [a, b, c])
      else
        (case digit_bytes [a, b, c, d] of
           None \<Rightarrow> None
         | Some w \<Rightarrow> map_option (append w) (base64_groups s)))"
| "base64_groups s = None"

definition base64_decode :: "string \<Rightarrow> string option" where
  "base64_decode s = base64_groups (filter (\<lambda>c. c \<noteq> CHR 0x0D \<and> c \<noteq> CHR 0x0A) s)"

text \<open>\<open>DecodedLen\<close>: the size of the buffer the decoder allocates for an encoded text.\<close>

definition DecodedLen :: "string \<Rightarrow> nat" where
  "DecodedLen s = length s div 4 * 3"

section \<open>Decoding undoes encoding\<close>

lemma byte_less [simp]: "byte c < 256"
  by simp

lemma three_bytes:
  fixes a b c :: nat
  assumes "n = a * 65536 + b * 256 + c" "a < 256" "b < 256" "c < 256"
  shows "char_of (n div 65536) = (char_of a :: char)" "char_of (n div 256) = (char_of b :: char)"
    "char_of n = (char_of c :: char)"
proof -
  have "n = (a * 256 + b) * 256 + c" using assms(1) by simp
  with assms(4) have 1: "n div 256 = a * 256 + b" "n mod 256 = c"
    by (simp_all only: div_mult_self3 mod_mult_self3 div_less mod_less)
  with assms(3) have 2: "n div 256 div 256 = a" "n div 256 mod 256 = b" by simp_all
  have "n div 65536 = a" using 2(1) by (simp add: div_mult2_eq [symmetric])
  then show "char_of (n div 65536) = (char_of a :: char)" by simp
  have "char_of (n div 256 mod 256) = (char_of (n div 256) :: char)" "char_of (n mod 256) = (char_of n :: char)"
    by simp_all
  with 1(2) 2(2) show "char_of (n div 256) = (char_of b :: char)" "char_of n = (char_of c :: char)" by simp_all
qed

lemma four_digits:
  fixes n :: nat
  shows "((n div 262144 * 64 + n div 4096 mod 64) * 64 + n div 64 mod 64) * 64 + n mod 64 = n"
proof -
  have "n div 4096 = n div 64 div 64" "n div 262144 = n div 64 div 64 div 64"
    by (simp_all add: div_mult2_eq [symmetric])
  moreover have "n div 64 * 64 + n mod 64 = n" "n div 64 div 64 * 64 + n div 64 mod 64 = n div 64"
    "n div 64 div 64 div 64 * 64 + n div 64 div 64 mod 64 = n div 64 div 64"
    by (rule div_mult_mod_eq)+
  ultimately show ?thesis by presburger
qed

lemma three_digits:
  fixes n :: nat
  shows "((n * 256 div 262144 * 64 + n * 256 div 4096 mod 64) * 64 + n * 256 div 64 mod 64) * 64 = n * 256"
proof -
  have "n * 256 mod 64 = 0" by (simp add: mod_mult_right_eq [symmetric])
  with four_digits [of "n * 256"] show ?thesis by simp
qed

lemma two_digits:
  fixes a :: nat
  shows "(a * 65536 div 262144 * 64 + a * 65536 div 4096 mod 64) * 4096 = a * 65536"
proof -
  have "a * 65536 div 64 = a * 16 * 64" "a * 65536 mod 64 = 0"
    by (simp_all add: mod_mult_right_eq [symmetric])
  then have "a * 65536 div 64 mod 64 = 0" by simp
  with \<open>a * 65536 mod 64 = 0\<close> four_digits [of "a * 65536"] show ?thesis by simp
qed

lemma digit_char_not_special:
  "n < 64 \<Longrightarrow> base64_digit n \<noteq> CHR ''=''" "n < 64 \<Longrightarrow> base64_digit n \<noteq> CHR 0x0D"
  "n < 64 \<Longrightarrow> base64_digit n \<noteq> CHR 0x0A"
  using base64_val_digit [of n] by (auto simp: base64_val_def)

lemma base64_clean: "\<forall>d \<in> set (base64 s). d \<noteq> CHR 0x0D \<and> d \<noteq> CHR 0x0A"
proof (induction s rule: base64.induct)
  case (1 a b c s)
  have "byte a * 65536 + byte b * 256 + byte c < 64 * 262144"
    using byte_less [of a] byte_less [of b] byte_less [of c] by linarith
  with 1 show ?case by (auto simp: Let_def digit_char_not_special less_mult_imp_div_less)
next
  case (2 a b)
  have "byte a * 65536 + byte b * 256 < 64 * 262144" using byte_less [of a] byte_less [of b] by linarith
  then show ?case by (auto simp: Let_def digit_char_not_special less_mult_imp_div_less)
next
  case (3 a)
  have "byte a * 65536 < 64 * 262144" using byte_less [of a] by linarith
  then show ?case by (auto simp: Let_def digit_char_not_special less_mult_imp_div_less)
qed simp

lemma base64_groups_base64: "base64_groups (base64 s) = Some s"
proof (induction s rule: base64.induct)
  case (1 a b c s)
  define n where "n = byte a * 65536 + byte b * 256 + byte c"
  have "n < 64 * 262144" using byte_less [of a] byte_less [of b] byte_less [of c] unfolding n_def by linarith
  then have d: "n div 262144 < 64" by (rule less_mult_imp_div_less)
  have "digit_bytes (map base64_digit [n div 262144, n div 4096 mod 64, n div 64 mod 64, n mod 64]) = Some [a, b, c]"
    using d four_digits [of n] three_bytes [OF n_def]
    by (simp add: digit_bytes_def)
  moreover have "base64_digit (n mod 64) \<noteq> CHR ''=''" by (simp add: digit_char_not_special)
  ultimately show ?case using 1 by (simp add: Let_def flip: n_def)
next
  case (2 a b)
  define n where "n = byte a * 256 + byte b"
  have n: "byte a * 65536 + byte b * 256 = n * 256" by (simp add: n_def)
  have "n * 256 < 64 * 262144" using byte_less [of a] byte_less [of b] n by linarith
  then have d: "n * 256 div 262144 < 64" by (rule less_mult_imp_div_less)
  have "digit_bytes (map base64_digit [n * 256 div 262144, n * 256 div 4096 mod 64, n * 256 div 64 mod 64]) = Some [a, b]"
    using d three_digits [of n] three_bytes [of "n * 256" "byte a" "byte b" 0] n_def
    by (simp add: digit_bytes_def)
  moreover have "base64_digit (n * 256 div 64 mod 64) \<noteq> CHR ''=''" by (simp add: digit_char_not_special)
  ultimately show ?case by (simp add: Let_def n)
next
  case (3 a)
  have "byte a * 65536 < 64 * 262144" using byte_less [of a] by linarith
  then have d: "byte a * 65536 div 262144 < 64" by (rule less_mult_imp_div_less)
  have "digit_bytes (map base64_digit [byte a * 65536 div 262144, byte a * 65536 div 4096 mod 64]) = Some [a]"
    using d two_digits [of "byte a"] three_bytes [of "byte a * 65536" "byte a" 0 0] by (simp add: digit_bytes_def)
  then show ?case by (simp add: Let_def)
qed simp

theorem base64_round_trip: "base64_decode (base64 s) = Some s"
  using base64_clean [of s] base64_groups_base64 [of s]
  by (simp add: base64_decode_def filter_id_conv [THEN iffD2])

end
