(* ===== verification/JsonUnmarshal.thy ===== *)
theory JsonUnmarshal
  imports Json GoFloat Base64 "HOL-Library.AList"
begin

text \<open>
  \<open>json.Unmarshal\<close> into a struct. The package's types are described by \<open>gotype\<close> (a
  struct is its fields' tags and types, as \<open>reflect\<close> shows them to the decoder), the
  contents of a variable by \<open>goval\<close>. \<open>store\<close> follows the reflective decoder: it writes
  into the value that is already there, so an object or a slice that occurs twice is
  merged; \<open>null\<close> leaves a field as it is, or sets a pointer or a slice to nil; a member
  no field claims is skipped; a value of the wrong type or out of range leaves the field
  as it is and makes the call fail at its end. That a slice decoded again reuses the
  elements left in its backing array is part of this, hence the hidden tail of a slice.
\<close>

section \<open>Types and values\<close>

datatype gotype =
    GString
  | GBool
  | GInt
  | GUint
  | GFloat
  | GBytes
  | GPtr gotype
  | GSlice gotype
  | GMap gotype
  | GStruct "(string \<times> gotype) list"

text \<open>
  A slice is nil or its elements, with what its backing array holds beyond them; a byte
  slice likewise. A map with string keys is nil or its entries, in the order they came in.
\<close>

datatype goval =
    VString string
  | VBool bool
  | VInt int64
  | VUint uint64
  | VFloat float64
  | VBytes "string option" string
  | VPtr "goval option"
  | VSlice "goval list option" "goval list"
  | VMap "(string \<times> goval) list option"
  | VStruct "goval list"

fun zero_value :: "gotype \<Rightarrow> goval" where
  "zero_value GString = VString []"
| "zero_value GBool = VBool False"
| "zero_value GInt = VInt 0"
| "zero_value GUint = VUint 0"
| "zero_value GFloat = VFloat 0"
| "zero_value GBytes = VBytes None []"
| "zero_value (GPtr t) = VPtr None"
| "zero_value (GSlice t) = VSlice None []"
| "zero_value (GMap t) = VMap None"
| "zero_value (GStruct fs) = VStruct (map (\<lambda>(tag, t). zero_value t) fs)"

fun has_type :: "gotype \<Rightarrow> goval \<Rightarrow> bool" where
  "has_type GString v = (\<exists>s. v = VString s)"
| "has_type GBool v = (\<exists>b. v = VBool b)"
| "has_type GInt v = (\<exists>i. v = VInt i)"
| "has_type GUint v = (\<exists>i. v = VUint i)"
| "has_type GFloat v = (\<exists>x. v = VFloat x)"
| "has_type GBytes v = (\<exists>bs hidden. v = VBytes bs hidden)"
| "has_type (GPtr t) v = (\<exists>p. v = VPtr p \<and> pred_option (has_type t) p)"
| "has_type (GSlice t) v =
     (\<exists>vs hidden. v = VSlice vs hidden \<and> pred_option (list_all (has_type t)) vs \<and> list_all (has_type t) hidden)"
| "has_type (GMap t) v = (\<exists>es. v = VMap es \<and> pred_option (list_all (\<lambda>(k, w). has_type t w)) es)"
| "has_type (GStruct fs) v = (\<exists>vs. v = VStruct vs \<and> list_all2 (\<lambda>(tag, t). has_type t) fs vs)"

text \<open>Reading a value of a known type; the default is never met on one of that type.\<close>

definition fields_of :: "goval \<Rightarrow> goval list" where
  "fields_of v = (case v of VStruct vs \<Rightarrow> vs | _ \<Rightarrow> [])"

definition field_at :: "nat \<Rightarrow> goval \<Rightarrow> goval" where
  "field_at i v = fields_of v ! i"

definition as_string :: "goval \<Rightarrow> string" where
  "as_string v = (case v of VString s \<Rightarrow> s | _ \<Rightarrow> [])"

definition as_bool :: "goval \<Rightarrow> bool" where
  "as_bool v = (case v of VBool b \<Rightarrow> b | _ \<Rightarrow> False)"

definition as_int :: "goval \<Rightarrow> int64" where
  "as_int v = (case v of VInt i \<Rightarrow> i | _ \<Rightarrow> 0)"

definition as_uint :: "goval \<Rightarrow> uint64" where
  "as_uint v = (case v of VUint i \<Rightarrow> i | _ \<Rightarrow> 0)"

definition as_float :: "goval \<Rightarrow> float64" where
  "as_float v = (case v of VFloat x \<Rightarrow> x | _ \<Rightarrow> 0)"

definition as_bytes :: "goval \<Rightarrow> string" where
  "as_bytes v = (case v of VBytes (Some bs) hidden \<Rightarrow> bs | _ \<Rightarrow> [])"

definition as_pointer :: "(goval \<Rightarrow> 'a) \<Rightarrow> goval \<Rightarrow> 'a option" where
  "as_pointer f v = (case v of VPtr p \<Rightarrow> map_option f p | _ \<Rightarrow> None)"

definition as_slice :: "(goval \<Rightarrow> 'a) \<Rightarrow> goval \<Rightarrow> 'a list" where
  "as_slice f v = (case v of VSlice (Some vs) hidden \<Rightarrow> map f vs | _ \<Rightarrow> [])"

definition as_nil_slice :: "(goval \<Rightarrow> 'a) \<Rightarrow> goval \<Rightarrow> 'a list option" where
  "as_nil_slice f v = (case v of VSlice vs hidden \<Rightarrow> map_option (map f) vs | _ \<Rightarrow> None)"

definition as_map :: "(goval \<Rightarrow> 'a) \<Rightarrow> goval \<Rightarrow> (string \<times> 'a) list" where
  "as_map f v = (case v of VMap (Some es) \<Rightarrow> map (apsnd f) es | _ \<Rightarrow> [])"

lemmas readers = field_at_def fields_of_def as_string_def as_bool_def as_int_def as_uint_def
  as_float_def as_bytes_def as_pointer_def as_slice_def as_nil_slice_def as_map_def

section \<open>Field names\<close>

text \<open>The name is the part of the tag before the first comma (\<open>omitempty\<close> follows it).\<close>

definition field_name :: "string \<Rightarrow> string" where
  "field_name tag = takeWhile (\<lambda>c. c \<noteq> CHR '','') tag"

text \<open>
  A member is matched to a field by its exact name, or else by its folded name. The only
  runes outside ASCII that fold to ASCII letters are U+017F (an S) and U+212A (a K); the
  field names are ASCII, so no other rune matters.
\<close>

definition upper :: "char \<Rightarrow> char" where
  "upper c = (if 97 \<le> byte c \<and> byte c \<le> 122 then char_of (byte c - 32) else c)"

fun fold_name :: "string \<Rightarrow> string" where
  "fold_name [] = []"
| "fold_name (a # s) =
     (if byte a < 128 then upper a # fold_name s
      else
        (case s of
           b # t \<Rightarrow>
             if byte a = 197 \<and> byte b = 191 then CHR ''S'' # fold_name t
             else
               (case t of
                  c # u \<Rightarrow>
                    if byte a = 226 \<and> byte b = 132 \<and> byte c = 170 then CHR ''K'' # fold_name u
                    else a # fold_name s
                | [] \<Rightarrow> a # fold_name s)
         | [] \<Rightarrow> [a]))"

definition position :: "('a \<Rightarrow> bool) \<Rightarrow> 'a list \<Rightarrow> nat option" where
  "position P xs = (if list_ex P xs then Some (length (takeWhile (\<lambda>x. \<not> P x) xs)) else None)"

definition field_index :: "(string \<times> gotype) list \<Rightarrow> string \<Rightarrow> nat option" where
  "field_index fs k =
     (case position (\<lambda>f. field_name (fst f) = k) fs of
        Some i \<Rightarrow> Some i
      | None \<Rightarrow> position (\<lambda>f. fold_name (field_name (fst f)) = fold_name k) fs)"

section \<open>Storing a value\<close>

text \<open>\<open>strconv.ParseUint(s, 10, 64)\<close>.\<close>

definition ParseUint :: "string \<Rightarrow> uint64 option" where
  "ParseUint s =
     (case parse_digits s of
        None \<Rightarrow> None
      | Some n \<Rightarrow> if n \<ge> 2 ^ 64 then None else Some (word_of_nat n))"

definition store_number :: "gotype \<Rightarrow> goval \<Rightarrow> string \<Rightarrow> goval \<times> bool" where
  "store_number t v s =
     (case (case t of
              GInt \<Rightarrow> map_option VInt (ParseInt s)
            | GUint \<Rightarrow> map_option VUint (ParseUint s)
            | GFloat \<Rightarrow> map_option VFloat (ParseFloat s)
            | _ \<Rightarrow> None) of
        None \<Rightarrow> (v, False)
      | Some w \<Rightarrow> (w, True))"

definition store_scalar :: "gotype \<Rightarrow> goval \<Rightarrow> json \<Rightarrow> goval \<times> bool" where
  "store_scalar t v j =
     (case j of
        JNull \<Rightarrow> (v, True)
      | JBool b \<Rightarrow> if t = GBool then (VBool b, True) else (v, False)
      | JString s \<Rightarrow> if t = GString then (VString s, True) else (v, False)
      | JNumber s \<Rightarrow> store_number t v s
      | _ \<Rightarrow> (v, False))"

definition pointee :: "gotype \<Rightarrow> goval \<Rightarrow> goval" where
  "pointee t v = (case v of VPtr (Some w) \<Rightarrow> w | _ \<Rightarrow> zero_value t)"

definition backing :: "goval \<Rightarrow> goval list" where
  "backing v = (case v of VSlice (Some vs) hidden \<Rightarrow> vs @ hidden | _ \<Rightarrow> [])"

text \<open>
  A byte slice is given in base64, in a buffer of \<^const>\<open>DecodedLen\<close> bytes, or as an array of
  numbers below 256.
\<close>

definition byte_element :: "char \<Rightarrow> json \<Rightarrow> char option" where
  "byte_element old j =
     (case j of
        JNull \<Rightarrow> Some old
      | JNumber s \<Rightarrow>
          (case ParseUint s of
             None \<Rightarrow> None
           | Some n \<Rightarrow> if unat n < 256 then Some (char_of (unat n)) else None)
      | _ \<Rightarrow> None)"

fun store_byte_elements :: "string \<Rightarrow> json list \<Rightarrow> string \<times> string \<times> bool" where
  "store_byte_elements avail [] = ([], avail, True)"
| "store_byte_elements avail (j # js) =
     (let old = (case avail of [] \<Rightarrow> CHR 0x00 | c # _ \<Rightarrow> c)
      in case store_byte_elements (tl avail) js of
           (bs, rest, ok) \<Rightarrow>
             (case byte_element old j of
                None \<Rightarrow> (old # bs, rest, False)
              | Some c \<Rightarrow> (c # bs, rest, ok)))"

definition store_bytes :: "goval \<Rightarrow> json \<Rightarrow> goval \<times> bool" where
  "store_bytes v j =
     (case j of
        JNull \<Rightarrow> (VBytes None [], True)
      | JString s \<Rightarrow>
          (case base64_decode s of
             None \<Rightarrow> (v, False)
           | Some bs \<Rightarrow> (VBytes (Some bs) (replicate (DecodedLen s - length bs) CHR 0x00), True))
      | JArray js \<Rightarrow>
          (case store_byte_elements (case v of VBytes (Some bs) hidden \<Rightarrow> bs @ hidden | _ \<Rightarrow> []) js of
             (bs, rest, ok) \<Rightarrow> (VBytes (Some bs) (if js = [] then [] else rest), ok))
      | _ \<Rightarrow> (v, False))"

definition entries_of :: "goval \<Rightarrow> (string \<times> goval) list" where
  "entries_of v = (case v of VMap (Some es) \<Rightarrow> es | _ \<Rightarrow> [])"

text \<open>The result is the new value and whether nothing went wrong.\<close>

fun store :: "gotype \<Rightarrow> goval \<Rightarrow> json \<Rightarrow> goval \<times> bool"
  and store_elements :: "gotype \<Rightarrow> goval list \<Rightarrow> json list \<Rightarrow> goval list \<times> goval list \<times> bool"
  and store_members :: "(string \<times> gotype) list \<Rightarrow> goval list \<Rightarrow> (string \<times> json) list \<Rightarrow> goval list \<times> bool"
  and store_entries :: "gotype \<Rightarrow> (string \<times> goval) list \<Rightarrow> (string \<times> json) list \<Rightarrow> (string \<times> goval) list \<times> bool"
where
  "store (GPtr t) v j =
     (if j = JNull then (VPtr None, True)
      else (case store t (pointee t v) j of (w, ok) \<Rightarrow> (VPtr (Some w), ok)))"
| "store (GSlice t) v j =
     (case j of
        JNull \<Rightarrow> (VSlice None [], True)
      | JArray js \<Rightarrow>
          (case store_elements t (backing v) js of
             (vs, rest, ok) \<Rightarrow> (VSlice (Some vs) (if js = [] then [] else rest), ok))
      | _ \<Rightarrow> (v, False))"
| "store (GStruct fs) v j =
     (case j of
        JNull \<Rightarrow> (v, True)
      | JObject ms \<Rightarrow> (case store_members fs (fields_of v) ms of (vs, ok) \<Rightarrow> (VStruct vs, ok))
      | _ \<Rightarrow> (v, False))"
| "store (GMap t) v j =
     (case j of
        JNull \<Rightarrow> (VMap None, True)
      | JObject ms \<Rightarrow> (case store_entries t (entries_of v) ms of (es, ok) \<Rightarrow> (VMap (Some es), ok))
      | _ \<Rightarrow> (v, False))"
| "store GBytes v j = store_bytes v j"
| "store t v j = store_scalar t v j"
| "store_elements t avail [] = ([], avail, True)"
| "store_elements t avail (j # js) =
     (case store t (case avail of [] \<Rightarrow> zero_value t | a # _ \<Rightarrow> a) j of
        (v, ok) \<Rightarrow>
          (case store_elements t (tl avail) js of
             (vs, rest, ok') \<Rightarrow> (v # vs, rest, ok \<and> ok')))"
| "store_members fs vals [] = (vals, True)"
| "store_members fs vals ((k, j) # ms) =
     (case field_index fs k of
        None \<Rightarrow> store_members fs vals ms
      | Some i \<Rightarrow>
          (case store (snd (fs ! i)) (vals ! i) j of
             (v, ok) \<Rightarrow>
               (case store_members fs (vals[i := v]) ms of (vals', ok') \<Rightarrow> (vals', ok \<and> ok'))))"
| "store_entries t es [] = (es, True)"
| "store_entries t es ((k, j) # ms) =
     (case store t (zero_value t) j of
        (v, ok) \<Rightarrow>
          (case store_entries t (AList.update k v es) ms of (es', ok') \<Rightarrow> (es', ok \<and> ok')))"

text \<open>The whole call: the text must be one document; \<^const>\<open>False\<close> is an error.\<close>

definition Unmarshal :: "gotype \<Rightarrow> string \<Rightarrow> goval \<Rightarrow> goval \<times> bool" where
  "Unmarshal t data v =
     (case parse_document data of None \<Rightarrow> (v, False) | Some j \<Rightarrow> store t v j)"

section \<open>Storing keeps the types\<close>

lemma position_Some: "position P xs = Some i \<Longrightarrow> i < length xs \<and> P (xs ! i)"
  by (induction xs arbitrary: i) (auto simp: position_def split: if_splits)

lemma field_index_bound: "field_index fs k = Some i \<Longrightarrow> i < length fs"
  by (auto simp: field_index_def dest: position_Some split: option.splits)

lemma zero_value_type: "has_type t (zero_value t)"
proof (induction t)
  case (GStruct fs)
  have "has_type (snd f) (zero_value (snd f))" if "f \<in> set fs" for f
    using GStruct [OF that] by (cases f) auto
  then show ?case by (simp add: list_all2_conv_all_nth split_beta)
qed auto

lemma pointee_type: "has_type (GPtr t) v \<Longrightarrow> has_type t (pointee t v)"
  by (auto simp: pointee_def zero_value_type split: goval.split option.split)

lemma backing_type: "has_type (GSlice t) v \<Longrightarrow> list_all (has_type t) (backing v)"
  by (auto simp: backing_def split: goval.split option.split)

lemma fields_type: "has_type (GStruct fs) v \<Longrightarrow> list_all2 (\<lambda>(tag, t). has_type t) fs (fields_of v)"
  by (auto simp: fields_of_def)

lemma entries_type: "has_type (GMap t) v \<Longrightarrow> list_all (\<lambda>(k, w). has_type t w) (entries_of v)"
  by (auto simp: entries_of_def split: goval.split option.split)

lemma update_all: "list_all (\<lambda>(k, w). P w) es \<Longrightarrow> P w \<Longrightarrow> list_all (\<lambda>(k, w). P w) (AList.update k w es)"
  by (induction es) auto

lemma store_bytes_type: "has_type GBytes v \<Longrightarrow> has_type GBytes (fst (store_bytes v j))"
  by (auto simp: store_bytes_def split: json.split option.split prod.split)

lemma store_type:
  "has_type t v \<Longrightarrow> has_type t (fst (store t v j))"
  "list_all (has_type t) avail \<Longrightarrow>
    (case store_elements t avail js of (vs, rest, ok) \<Rightarrow> list_all (has_type t) vs \<and> list_all (has_type t) rest)"
  "list_all2 (\<lambda>(tag, t). has_type t) fs vals \<Longrightarrow>
    list_all2 (\<lambda>(tag, t). has_type t) fs (fst (store_members fs vals ms))"
  "list_all (\<lambda>(k, w). has_type t w) es \<Longrightarrow> list_all (\<lambda>(k, w). has_type t w) (fst (store_entries t es ms))"
proof (induction t v j and t avail js and fs vals ms and t es ms
    rule: store_store_elements_store_members_store_entries.induct)
  case (1 t v j)
  then show ?case using pointee_type [of t v] by (auto split: prod.split)
next
  case (2 t v j)
  then show ?case using backing_type [of t v] by (auto split: json.split prod.split)
next
  case (3 fs v j)
  then show ?case using fields_type [of fs v] by (auto split: json.split prod.split)
next
  case (4 t v j)
  then show ?case using entries_type [of t v] by (auto split: json.split prod.split)
next
  case (5 v j)
  then show ?case using store_bytes_type by simp
next
  case (8 t avail j js)
  have "has_type t (case avail of [] \<Rightarrow> zero_value t | a # as \<Rightarrow> a)" "list_all (has_type t) (tl avail)"
    using "8.prems" by (cases avail; auto simp: zero_value_type)+
  with "8.IH" show ?case by (auto split: prod.split)
next
  case (10 fs vals k j ms)
  show ?case
  proof (cases "field_index fs k")
    case None
    with 10 show ?thesis by simp
  next
    case (Some i)
    obtain v ok where v: "store (snd (fs ! i)) (vals ! i) j = (v, ok)" by fastforce
    have "i < length fs" using Some by (rule field_index_bound)
    with "10.prems" have "has_type (snd (fs ! i)) (vals ! i)"
      by (simp add: list_all2_conv_all_nth split_beta)
    then have "has_type (snd (fs ! i)) v" using "10.IH"(2) Some v by force
    with "10.prems" \<open>i < length fs\<close> have "list_all2 (\<lambda>(tag, t). has_type t) fs (vals[i := v])"
      by (auto simp: list_all2_conv_all_nth nth_list_update split_beta)
    then have "list_all2 (\<lambda>(tag, t). has_type t) fs (fst (store_members fs (vals[i := v]) ms))"
      by (rule "10.IH"(3) [OF Some v [symmetric]])
    with Some v show ?thesis by (cases "store_members fs (vals[i := v]) ms") simp
  qed
next
  case (12 t es k j ms)
  then have "list_all (\<lambda>(k, w). has_type t w) (AList.update k (fst (store t (zero_value t) j)) es)"
    by (simp add: update_all zero_value_type)
  with "12.IH"(2) show ?case by (auto split: prod.split)
qed (auto simp: store_scalar_def store_number_def split: json.split option.split)

lemma Unmarshal_type: "has_type t v \<Longrightarrow> has_type t (fst (Unmarshal t data v))"
  by (simp add: Unmarshal_def store_type split: option.split)

section \<open>Whether a value fits does not depend on what is there\<close>

text \<open>
  The documents a type can be decoded from: null fits every type, a pointer takes what its
  target takes, and members no field claims are of no account.
\<close>

fun fits :: "gotype \<Rightarrow> json \<Rightarrow> bool" where
  "fits (GPtr t) j = fits t j"
| "fits (GSlice t) j =
     (case j of JNull \<Rightarrow> True | JArray js \<Rightarrow> (\<forall>x \<in> set js. fits t x) | _ \<Rightarrow> False)"
| "fits (GStruct fs) j =
     (case j of
        JNull \<Rightarrow> True
      | JObject ms \<Rightarrow>
          (\<forall>(k, x) \<in> set ms. case field_index fs k of None \<Rightarrow> True | Some i \<Rightarrow> fits (snd (fs ! i)) x)
      | _ \<Rightarrow> False)"
| "fits (GMap t) j =
     (case j of JNull \<Rightarrow> True | JObject ms \<Rightarrow> (\<forall>(k, x) \<in> set ms. fits t x) | _ \<Rightarrow> False)"
| "fits GBytes j =
     (case j of
        JNull \<Rightarrow> True
      | JString s \<Rightarrow> base64_decode s \<noteq> None
      | JArray js \<Rightarrow> (\<forall>x \<in> set js. byte_element CHR 0x00 x \<noteq> None)
      | _ \<Rightarrow> False)"
| "fits GString j = (case j of JNull \<Rightarrow> True | JString s \<Rightarrow> True | _ \<Rightarrow> False)"
| "fits GBool j = (case j of JNull \<Rightarrow> True | JBool b \<Rightarrow> True | _ \<Rightarrow> False)"
| "fits GInt j = (case j of JNull \<Rightarrow> True | JNumber s \<Rightarrow> ParseInt s \<noteq> None | _ \<Rightarrow> False)"
| "fits GUint j = (case j of JNull \<Rightarrow> True | JNumber s \<Rightarrow> ParseUint s \<noteq> None | _ \<Rightarrow> False)"
| "fits GFloat j = (case j of JNull \<Rightarrow> True | JNumber s \<Rightarrow> ParseFloat s \<noteq> None | _ \<Rightarrow> False)"

lemma fits_null: "fits t JNull"
  by (induction t) simp_all

lemma byte_element_fits: "byte_element old j = None \<longleftrightarrow> byte_element old' j = None"
  by (auto simp: byte_element_def split: json.split option.split)

lemma store_byte_elements_fits:
  "snd (snd (store_byte_elements avail js)) \<longleftrightarrow> (\<forall>x \<in> set js. byte_element CHR 0x00 x \<noteq> None)"
proof (induction js arbitrary: avail)
  case (Cons j js)
  define old where "old = (case avail of [] \<Rightarrow> CHR 0x00 | c # _ \<Rightarrow> c)"
  show ?case
    using Cons [of "tl avail"] byte_element_fits [of old j "CHR 0x00"]
    by (auto simp flip: old_def split: prod.split option.split)
qed simp

lemma store_bytes_fits: "snd (store_bytes v j) \<longleftrightarrow> fits GBytes j"
proof (cases j)
  case (JArray js)
  define avail where "avail = (case v of VBytes (Some bs) hidden \<Rightarrow> bs @ hidden | _ \<Rightarrow> [])"
  have "snd (store_bytes v j) \<longleftrightarrow> snd (snd (store_byte_elements avail js))"
    by (simp add: JArray store_bytes_def avail_def split_beta)
  then show ?thesis by (simp only: store_byte_elements_fits) (simp add: JArray)
qed (auto simp: store_bytes_def split: option.split)

lemma store_fits:
  "snd (store t v j) \<longleftrightarrow> fits t j"
  "snd (snd (store_elements t avail js)) \<longleftrightarrow> (\<forall>x \<in> set js. fits t x)"
  "snd (store_members fs vals ms) \<longleftrightarrow>
    (\<forall>(k, x) \<in> set ms. case field_index fs k of None \<Rightarrow> True | Some i \<Rightarrow> fits (snd (fs ! i)) x)"
  "snd (store_entries t es ms) \<longleftrightarrow> (\<forall>(k, x) \<in> set ms. fits t x)"
proof (induction t v j and t avail js and fs vals ms and t es ms
    rule: store_store_elements_store_members_store_entries.induct)
  case (1 t v j)
  then show ?case by (cases "j = JNull") (auto simp: fits_null split: prod.split)
next
  case (2 t v j)
  then show ?case by (cases j) (auto split: prod.splits)
next
  case (3 fs v j)
  then show ?case by (cases j) (auto split: prod.splits)
next
  case (4 t v j)
  then show ?case by (cases j) (auto split: prod.splits)
next
  case (5 v j)
  then show ?case using store_bytes_fits by simp
next
  case (8 t avail j js)
  then show ?case by (auto split: prod.splits)
next
  case (10 fs vals k j ms)
  show ?case
  proof (cases "field_index fs k")
    case None
    with 10 show ?thesis by simp
  next
    case (Some i)
    obtain v ok where v: "store (snd (fs ! i)) (vals ! i) j = (v, ok)" by fastforce
    with "10.IH"(2) [OF Some] "10.IH"(3) [OF Some v [symmetric]] Some show ?thesis
      by (cases "store_members fs (vals[i := v]) ms") simp
  qed
next
  case (12 t es k j ms)
  obtain v ok where v: "store t (zero_value t) j = (v, ok)" by fastforce
  with "12.IH"(1) "12.IH"(2) [OF v [symmetric]] show ?case
    by (cases "store_entries t (AList.update k v es) ms") simp
qed (auto simp: store_scalar_def store_number_def split: json.split option.split)

declare store.simps(1-5) [simp del]

section \<open>Objects whose members are the fields, once each\<close>

text \<open>
  No folding and no merging happens then: every field is stored once, from the member of
  its name, and the call succeeds exactly when each of these stores does.
\<close>

abbreviation field_names :: "(string \<times> gotype) list \<Rightarrow> string list" where
  "field_names fs \<equiv> map (\<lambda>f. field_name (fst f)) fs"

lemma position_nth:
  "distinct (map f xs) \<Longrightarrow> i < length xs \<Longrightarrow> position (\<lambda>x. f x = f (xs ! i)) xs = Some i"
proof (induction xs arbitrary: i)
  case (Cons x xs)
  show ?case
  proof (cases i)
    case 0
    then show ?thesis by (simp add: position_def)
  next
    case (Suc j)
    with Cons have "position (\<lambda>x. f x = f (xs ! j)) xs = Some j" "f x \<noteq> f (xs ! j)" by auto
    with Suc show ?thesis by (simp add: position_def split: if_splits)
  qed
qed simp

lemma field_index_nth:
  assumes "distinct (field_names fs)" and "i < length fs"
  shows "field_index fs (field_names fs ! i) = Some i"
  using position_nth [OF assms] assms(2) by (simp add: field_index_def)

lemma all_but_one:
  fixes N :: nat
  assumes "\<And>i. i < N \<Longrightarrow> A i \<longleftrightarrow> (if i = k then c else B i)" and "B k" and "k < N"
  shows "c \<and> (\<forall>i < N. B i) \<longleftrightarrow> (\<forall>i < N. A i)"
  using assms by (auto split: if_splits)

lemma store_members_exact:
  assumes "distinct (field_names fs)"
  shows "distinct (map fst ms) \<Longrightarrow> fst ` set ms \<subseteq> set (field_names fs) \<Longrightarrow> length vals = length fs \<Longrightarrow>
    length (fst (store_members fs vals ms)) = length fs \<and>
    (\<forall>i < length fs. fst (store_members fs vals ms) ! i =
      (case map_of ms (field_names fs ! i) of
         None \<Rightarrow> vals ! i
       | Some j \<Rightarrow> fst (store (snd (fs ! i)) (vals ! i) j))) \<and>
    (snd (store_members fs vals ms) \<longleftrightarrow>
      (\<forall>i < length fs. pred_option (\<lambda>j. snd (store (snd (fs ! i)) (vals ! i) j))
        (map_of ms (field_names fs ! i))))"
proof (induction ms arbitrary: vals)
  case Nil
  then show ?case by simp
next
  case (Cons m ms)
  obtain k j where m: "m = (k, j)" by fastforce
  with Cons.prems(2) obtain n where n: "n < length fs" "k = field_names fs ! n"
    by (auto simp: in_set_conv_nth)
  obtain v ok where v: "store (snd (fs ! n)) (vals ! n) j = (v, ok)" by fastforce
  have step: "store_members fs vals (m # ms) =
      (fst (store_members fs (vals[n := v]) ms), ok \<and> snd (store_members fs (vals[n := v]) ms))"
    using field_index_nth [OF assms n(1)] by (simp add: m n(2) v split: prod.split)
  have other: "field_names fs ! i = k \<longleftrightarrow> i = n" if "i < length fs" for i
    unfolding n(2) using assms that n(1) by (intro nth_eq_iff_index_eq) simp_all
  have absent: "map_of ms k = None"
    using Cons.prems(1) m by (simp add: map_of_eq_None_iff)
  have look: "map_of (m # ms) (field_names fs ! i) =
      (if i = n then Some j else map_of ms (field_names fs ! i))" if "i < length fs" for i
    using other [OF that] m by auto
  have IH: "length (fst (store_members fs (vals[n := v]) ms)) = length fs"
    "\<And>i. i < length fs \<Longrightarrow> fst (store_members fs (vals[n := v]) ms) ! i =
      (case map_of ms (field_names fs ! i) of
         None \<Rightarrow> vals[n := v] ! i
       | Some j \<Rightarrow> fst (store (snd (fs ! i)) (vals[n := v] ! i) j))"
    "snd (store_members fs (vals[n := v]) ms) \<longleftrightarrow>
      (\<forall>i < length fs. pred_option (\<lambda>j. snd (store (snd (fs ! i)) (vals[n := v] ! i) j))
        (map_of ms (field_names fs ! i)))"
    using Cons.IH [of "vals[n := v]"] Cons.prems by simp_all
  have "fst (store_members fs vals (m # ms)) ! i =
      (case map_of (m # ms) (field_names fs ! i) of
         None \<Rightarrow> vals ! i
       | Some j \<Rightarrow> fst (store (snd (fs ! i)) (vals ! i) j))" if "i < length fs" for i
  proof (cases "i = n")
    case True
    with IH(2) [OF that] look [OF that] absent n v Cons.prems(3) show ?thesis by (simp add: step)
  next
    case False
    then have "vals[n := v] ! i = vals ! i" by simp
    with IH(2) [OF that] look [OF that] False show ?thesis by (simp only: step fst_conv if_False)
  qed
  moreover have "snd (store_members fs vals (m # ms)) \<longleftrightarrow>
      (\<forall>i < length fs. pred_option (\<lambda>j. snd (store (snd (fs ! i)) (vals ! i) j))
        (map_of (m # ms) (field_names fs ! i)))"
  proof -
    have "pred_option (\<lambda>j. snd (store (snd (fs ! i)) (vals ! i) j)) (map_of (m # ms) (field_names fs ! i)) \<longleftrightarrow>
        (if i = n then ok
         else pred_option (\<lambda>j. snd (store (snd (fs ! i)) (vals[n := v] ! i) j)) (map_of ms (field_names fs ! i)))"
      if "i < length fs" for i
      using look [OF that] v by (simp del: map_of.simps)
    moreover have "pred_option (\<lambda>j. snd (store (snd (fs ! n)) (vals[n := v] ! n) j)) (map_of ms (field_names fs ! n))"
      using absent n(2) by simp
    ultimately show ?thesis unfolding step IH(3) snd_conv using n(1) by (rule all_but_one)
  qed
  moreover have "length (fst (store_members fs vals (m # ms))) = length fs"
    using IH(1) by (simp only: step fst_conv)
  ultimately show ?case by blast
qed

text \<open>The same for the whole struct, field by field.\<close>

definition store_field :: "(string \<times> gotype) list \<Rightarrow> goval list \<Rightarrow> (string \<times> json) list \<Rightarrow> nat \<Rightarrow> goval \<times> bool" where
  "store_field fs vals ms i =
     (case map_of ms (field_names fs ! i) of
        None \<Rightarrow> (vals ! i, True)
      | Some j \<Rightarrow> store (snd (fs ! i)) (vals ! i) j)"

lemma store_struct_exact:
  assumes "distinct (field_names fs)" "distinct (map fst ms)" "fst ` set ms \<subseteq> set (field_names fs)"
    and "length vals = length fs"
  shows "store (GStruct fs) (VStruct vals) (JObject ms) =
    (VStruct (map (\<lambda>i. fst (store_field fs vals ms i)) [0..<length fs]),
     list_all (\<lambda>i. snd (store_field fs vals ms i)) [0..<length fs])"
proof -
  note all = store_members_exact [OF assms]
  have "fst (store_members fs vals ms) = map (\<lambda>i. fst (store_field fs vals ms i)) [0..<length fs]"
    using all by (intro nth_equalityI) (auto simp: store_field_def split: option.split)
  moreover have "snd (store_field fs vals ms i) =
      pred_option (\<lambda>j. snd (store (snd (fs ! i)) (vals ! i) j)) (map_of ms (field_names fs ! i))" for i
    by (cases "map_of ms (field_names fs ! i)") (simp_all add: store_field_def)
  then have "snd (store_members fs vals ms) = list_all (\<lambda>i. snd (store_field fs vals ms i)) [0..<length fs]"
    using all by (auto simp: list_all_iff)
  ultimately show ?thesis by (cases "store_members fs vals ms") (simp add: store.simps(3) fields_of_def)
qed

end
