(* ===== verification/HostJson.thy ===== *)
theory HostJson
  imports Host JsonUnmarshal
begin

text \<open>
  The structs of \<open>protocol/host.go\<close> as \<open>encoding/json\<close> sees them: the tag and the type of
  every field, in order, and how the contents of such a struct are the record of the
  model. The field of a record and the entry of the list are at the same place.
\<close>

definition HostScope_fields :: "(string \<times> gotype) list" where
  "HostScope_fields =
     [(''deployment'', GString), (''resource_scope'', GString), (''cgroup_version'', GInt),
      (''data_filesystem_scope'', GString)]"

definition read_HostScope :: "goval \<Rightarrow> HostScope" where
  "read_HostScope v =
     \<lparr>hs_Deployment = as_string (field_at 0 v), hs_ResourceScope = as_string (field_at 1 v),
      hs_CgroupVersion = as_int (field_at 2 v), hs_DataFilesystemScope = as_string (field_at 3 v)\<rparr>"

definition PlatformObservation_fields :: "(string \<times> gotype) list" where
  "PlatformObservation_fields =
     [(''os'', GString), (''arch'', GString), (''kernel_release,omitempty'', GString),
      (''distribution_id,omitempty'', GString), (''version_id,omitempty'', GString),
      (''logical_cpus'', GInt)]"

definition read_PlatformObservation :: "goval \<Rightarrow> PlatformObservation" where
  "read_PlatformObservation v =
     \<lparr>pl_OS = as_string (field_at 0 v), pl_Arch = as_string (field_at 1 v),
      pl_KernelRelease = as_string (field_at 2 v), pl_DistributionID = as_string (field_at 3 v),
      pl_VersionID = as_string (field_at 4 v), pl_LogicalCPUs = as_int (field_at 5 v)\<rparr>"

definition SystemCPUObservation_fields :: "(string \<times> gotype) list" where
  "SystemCPUObservation_fields =
     [(''counter_epoch'', GString), (''total'', GUint), (''idle'', GUint), (''iowait'', GUint),
      (''steal'', GUint)]"

definition read_SystemCPUObservation :: "goval \<Rightarrow> SystemCPUObservation" where
  "read_SystemCPUObservation v =
     \<lparr>su_CounterEpoch = as_string (field_at 0 v), su_Total = as_uint (field_at 1 v),
      su_Idle = as_uint (field_at 2 v), su_IOWait = as_uint (field_at 3 v),
      su_Steal = as_uint (field_at 4 v)\<rparr>"

definition CgroupCPUObservation_fields :: "(string \<times> gotype) list" where
  "CgroupCPUObservation_fields =
     [(''counter_epoch,omitempty'', GString), (''usage_us,omitempty'', GPtr GUint),
      (''user_us,omitempty'', GPtr GUint), (''system_us,omitempty'', GPtr GUint),
      (''nr_periods,omitempty'', GPtr GUint), (''nr_throttled,omitempty'', GPtr GUint),
      (''throttled_us,omitempty'', GPtr GUint), (''quota_us,omitempty'', GPtr GUint),
      (''period_us,omitempty'', GPtr GUint), (''effective_cpus,omitempty'', GPtr GUint)]"

definition read_CgroupCPUObservation :: "goval \<Rightarrow> CgroupCPUObservation" where
  "read_CgroupCPUObservation v =
     \<lparr>gc_CounterEpoch = as_string (field_at 0 v), gc_UsageUS = as_pointer as_uint (field_at 1 v),
      gc_UserUS = as_pointer as_uint (field_at 2 v),
      gc_SystemUS = as_pointer as_uint (field_at 3 v),
      gc_NrPeriods = as_pointer as_uint (field_at 4 v),
      gc_NrThrottled = as_pointer as_uint (field_at 5 v),
      gc_ThrottledUS = as_pointer as_uint (field_at 6 v),
      gc_QuotaUS = as_pointer as_uint (field_at 7 v),
      gc_PeriodUS = as_pointer as_uint (field_at 8 v),
      gc_EffectiveCPUs = as_pointer as_uint (field_at 9 v)\<rparr>"

definition CPUObservation_fields :: "(string \<times> gotype) list" where
  "CPUObservation_fields =
     [(''system,omitempty'', GPtr (GStruct SystemCPUObservation_fields)),
      (''cgroup,omitempty'', GPtr (GStruct CgroupCPUObservation_fields))]"

definition read_CPUObservation :: "goval \<Rightarrow> CPUObservation" where
  "read_CPUObservation v =
     \<lparr>cpu_System = as_pointer read_SystemCPUObservation (field_at 0 v),
      cpu_Cgroup = as_pointer read_CgroupCPUObservation (field_at 1 v)\<rparr>"

definition LoadObservation_fields :: "(string \<times> gotype) list" where
  "LoadObservation_fields =
     [(''load_1'', GFloat), (''load_5'', GFloat), (''load_15'', GFloat)]"

definition read_LoadObservation :: "goval \<Rightarrow> LoadObservation" where
  "read_LoadObservation v =
     \<lparr>ld_Load1 = as_float (field_at 0 v), ld_Load5 = as_float (field_at 1 v),
      ld_Load15 = as_float (field_at 2 v)\<rparr>"

definition SystemMemoryObservation_fields :: "(string \<times> gotype) list" where
  "SystemMemoryObservation_fields =
     [(''total_bytes'', GUint), (''available_bytes,omitempty'', GPtr GUint),
      (''swap_total_bytes'', GUint), (''swap_free_bytes'', GUint)]"

definition read_SystemMemoryObservation :: "goval \<Rightarrow> SystemMemoryObservation" where
  "read_SystemMemoryObservation v =
     \<lparr>sm_TotalBytes = as_uint (field_at 0 v),
      sm_AvailableBytes = as_pointer as_uint (field_at 1 v),
      sm_SwapTotalBytes = as_uint (field_at 2 v), sm_SwapFreeBytes = as_uint (field_at 3 v)\<rparr>"

definition CgroupMemoryObservation_fields :: "(string \<times> gotype) list" where
  "CgroupMemoryObservation_fields =
     [(''counter_epoch'', GString), (''current_bytes'', GUint),
      (''limit_bytes,omitempty'', GPtr GUint), (''swap_current_bytes,omitempty'', GPtr GUint),
      (''swap_limit_bytes,omitempty'', GPtr GUint), (''oom_events,omitempty'', GPtr GUint),
      (''oom_kill_events,omitempty'', GPtr GUint)]"

definition read_CgroupMemoryObservation :: "goval \<Rightarrow> CgroupMemoryObservation" where
  "read_CgroupMemoryObservation v =
     \<lparr>gm_CounterEpoch = as_string (field_at 0 v), gm_CurrentBytes = as_uint (field_at 1 v),
      gm_LimitBytes = as_pointer as_uint (field_at 2 v),
      gm_SwapCurrentBytes = as_pointer as_uint (field_at 3 v),
      gm_SwapLimitBytes = as_pointer as_uint (field_at 4 v),
      gm_OOMEvents = as_pointer as_uint (field_at 5 v),
      gm_OOMKillEvents = as_pointer as_uint (field_at 6 v)\<rparr>"

definition MemoryObservation_fields :: "(string \<times> gotype) list" where
  "MemoryObservation_fields =
     [(''system,omitempty'', GPtr (GStruct SystemMemoryObservation_fields)),
      (''cgroup,omitempty'', GPtr (GStruct CgroupMemoryObservation_fields))]"

definition read_MemoryObservation :: "goval \<Rightarrow> MemoryObservation" where
  "read_MemoryObservation v =
     \<lparr>mem_System = as_pointer read_SystemMemoryObservation (field_at 0 v),
      mem_Cgroup = as_pointer read_CgroupMemoryObservation (field_at 1 v)\<rparr>"

definition FilesystemObservation_fields :: "(string \<times> gotype) list" where
  "FilesystemObservation_fields =
     [(''total_bytes'', GUint), (''available_bytes'', GUint),
      (''total_inodes,omitempty'', GPtr GUint), (''available_inodes,omitempty'', GPtr GUint),
      (''read_only'', GBool)]"

definition read_FilesystemObservation :: "goval \<Rightarrow> FilesystemObservation" where
  "read_FilesystemObservation v =
     \<lparr>fs_TotalBytes = as_uint (field_at 0 v), fs_AvailableBytes = as_uint (field_at 1 v),
      fs_TotalInodes = as_pointer as_uint (field_at 2 v),
      fs_AvailableInodes = as_pointer as_uint (field_at 3 v), fs_ReadOnly = as_bool (field_at 4 v)\<rparr>"

definition NetworkInterfaceObservation_fields :: "(string \<times> gotype) list" where
  "NetworkInterfaceObservation_fields =
     [(''name'', GString), (''index'', GInt), (''mtu'', GInt), (''up'', GBool),
      (''operational_state,omitempty'', GString), (''link_speed_mbps,omitempty'', GPtr GUint),
      (''rx_bytes'', GUint), (''rx_packets'', GUint), (''rx_errors'', GUint),
      (''rx_dropped'', GUint), (''tx_bytes'', GUint), (''tx_packets'', GUint),
      (''tx_errors'', GUint), (''tx_dropped'', GUint)]"

definition read_NetworkInterfaceObservation :: "goval \<Rightarrow> NetworkInterfaceObservation" where
  "read_NetworkInterfaceObservation v =
     \<lparr>ni_Name = as_string (field_at 0 v), ni_Index = as_int (field_at 1 v),
      ni_MTU = as_int (field_at 2 v), ni_Up = as_bool (field_at 3 v),
      ni_OperationalState = as_string (field_at 4 v),
      ni_LinkSpeedMbps = as_pointer as_uint (field_at 5 v), ni_RXBytes = as_uint (field_at 6 v),
      ni_RXPackets = as_uint (field_at 7 v), ni_RXErrors = as_uint (field_at 8 v),
      ni_RXDropped = as_uint (field_at 9 v), ni_TXBytes = as_uint (field_at 10 v),
      ni_TXPackets = as_uint (field_at 11 v), ni_TXErrors = as_uint (field_at 12 v),
      ni_TXDropped = as_uint (field_at 13 v)\<rparr>"

definition NetworkObservation_fields :: "(string \<times> gotype) list" where
  "NetworkObservation_fields =
     [(''counter_epoch'', GString), (''default_ipv4_interface,omitempty'', GString),
      (''default_ipv6_interface,omitempty'', GString),
      (''interfaces'', GSlice (GStruct NetworkInterfaceObservation_fields))]"

definition read_NetworkObservation :: "goval \<Rightarrow> NetworkObservation" where
  "read_NetworkObservation v =
     \<lparr>nw_CounterEpoch = as_string (field_at 0 v),
      nw_DefaultIPv4Interface = as_string (field_at 1 v),
      nw_DefaultIPv6Interface = as_string (field_at 2 v),
      nw_Interfaces = as_slice read_NetworkInterfaceObservation (field_at 3 v)\<rparr>"

definition TCPObservation_fields :: "(string \<times> gotype) list" where
  "TCPObservation_fields =
     [(''counter_epoch'', GString), (''active_opens'', GUint), (''passive_opens'', GUint),
      (''attempt_fails'', GUint), (''estab_resets'', GUint), (''in_segments'', GUint),
      (''out_segments'', GUint), (''retrans_segments'', GUint), (''current_established'', GUint)]"

definition read_TCPObservation :: "goval \<Rightarrow> TCPObservation" where
  "read_TCPObservation v =
     \<lparr>tcp_CounterEpoch = as_string (field_at 0 v), tcp_ActiveOpens = as_uint (field_at 1 v),
      tcp_PassiveOpens = as_uint (field_at 2 v), tcp_AttemptFails = as_uint (field_at 3 v),
      tcp_EstabResets = as_uint (field_at 4 v), tcp_InSegments = as_uint (field_at 5 v),
      tcp_OutSegments = as_uint (field_at 6 v), tcp_RetransSegments = as_uint (field_at 7 v),
      tcp_CurrentEstablished = as_uint (field_at 8 v)\<rparr>"

definition SocketObservation_fields :: "(string \<times> gotype) list" where
  "SocketObservation_fields =
     [(''tcp_in_use'', GUint), (''tcp_orphan'', GUint), (''tcp_time_wait'', GUint),
      (''udp_in_use'', GUint), (''conntrack_current,omitempty'', GPtr GUint),
      (''conntrack_limit,omitempty'', GPtr GUint)]"

definition read_SocketObservation :: "goval \<Rightarrow> SocketObservation" where
  "read_SocketObservation v =
     \<lparr>sk_TCPInUse = as_uint (field_at 0 v), sk_TCPOrphan = as_uint (field_at 1 v),
      sk_TCPTimeWait = as_uint (field_at 2 v), sk_UDPInUse = as_uint (field_at 3 v),
      sk_ConntrackCurrent = as_pointer as_uint (field_at 4 v),
      sk_ConntrackLimit = as_pointer as_uint (field_at 5 v)\<rparr>"

definition ProcessMetrics_fields :: "(string \<times> gotype) list" where
  "ProcessMetrics_fields =
     [(''started_at_ms'', GInt), (''counter_epoch'', GString),
      (''cpu_time,omitempty'', GPtr GUint),
      (''cpu_time_units_per_second,omitempty'', GPtr GUint), (''rss_bytes'', GUint),
      (''open_fds'', GUint), (''fd_limit,omitempty'', GPtr GUint), (''threads'', GUint)]"

definition read_ProcessMetrics :: "goval \<Rightarrow> ProcessMetrics" where
  "read_ProcessMetrics v =
     \<lparr>pm_StartedAtMS = as_int (field_at 0 v), pm_CounterEpoch = as_string (field_at 1 v),
      pm_CPUTime = as_pointer as_uint (field_at 2 v),
      pm_CPUTimeUnitsPerSecond = as_pointer as_uint (field_at 3 v),
      pm_RSSBytes = as_uint (field_at 4 v), pm_OpenFDs = as_uint (field_at 5 v),
      pm_FDLimit = as_pointer as_uint (field_at 6 v), pm_Threads = as_uint (field_at 7 v)\<rparr>"

definition ProcessObservation_fields :: "(string \<times> gotype) list" where
  "ProcessObservation_fields =
     [(''agent'', GStruct ProcessMetrics_fields),
      (''core,omitempty'', GPtr (GStruct ProcessMetrics_fields))]"

definition read_ProcessObservation :: "goval \<Rightarrow> ProcessObservation" where
  "read_ProcessObservation v =
     \<lparr>po_Agent = read_ProcessMetrics (field_at 0 v),
      po_Core = as_pointer read_ProcessMetrics (field_at 1 v)\<rparr>"

definition RuntimeObservation_fields :: "(string \<times> gotype) list" where
  "RuntimeObservation_fields =
     [(''agent_started_at_ms'', GInt), (''core_restart_count'', GUint),
      (''core_unexpected_exit_count,omitempty'', GPtr GUint),
      (''last_core_unexpected_exit_at_ms,omitempty'', GInt),
      (''last_sync_success_at_ms,omitempty'', GInt),
      (''last_sync_failure_at_ms,omitempty'', GInt), (''consecutive_sync_failures'', GUint),
      (''sync_success_count'', GUint), (''sync_failure_count'', GUint),
      (''last_round_trip_ms,omitempty'', GPtr GUint),
      (''last_request_bytes,omitempty'', GPtr GUint),
      (''last_response_bytes,omitempty'', GPtr GUint), (''collector_duration_ms'', GUint)]"

definition read_RuntimeObservation :: "goval \<Rightarrow> RuntimeObservation" where
  "read_RuntimeObservation v =
     \<lparr>rt_AgentStartedAtMS = as_int (field_at 0 v), rt_CoreRestartCount = as_uint (field_at 1 v),
      rt_CoreUnexpectedExitCount = as_pointer as_uint (field_at 2 v),
      rt_LastCoreUnexpectedExitAtMS = as_int (field_at 3 v),
      rt_LastSyncSuccessAtMS = as_int (field_at 4 v),
      rt_LastSyncFailureAtMS = as_int (field_at 5 v),
      rt_ConsecutiveSyncFailures = as_uint (field_at 6 v),
      rt_SyncSuccessCount = as_uint (field_at 7 v), rt_SyncFailureCount = as_uint (field_at 8 v),
      rt_LastRoundTripMS = as_pointer as_uint (field_at 9 v),
      rt_LastRequestBytes = as_pointer as_uint (field_at 10 v),
      rt_LastResponseBytes = as_pointer as_uint (field_at 11 v),
      rt_CollectorDurationMS = as_uint (field_at 12 v)\<rparr>"

definition TuningObservation_fields :: "(string \<times> gotype) list" where
  "TuningObservation_fields =
     [(''tcp_available_congestion_controls,omitempty'', GSlice GString),
      (''tcp_default_congestion_control,omitempty'', GString),
      (''default_qdisc,omitempty'', GString)]"

definition read_TuningObservation :: "goval \<Rightarrow> TuningObservation" where
  "read_TuningObservation v =
     \<lparr>tu_TCPAvailableCongestionControls = as_slice as_string (field_at 0 v),
      tu_TCPDefaultCongestionControl = as_string (field_at 1 v),
      tu_DefaultQdisc = as_string (field_at 2 v)\<rparr>"

definition HostObservation_fields :: "(string \<times> gotype) list" where
  "HostObservation_fields =
     [(''sample_id'', GString), (''collected_at_ms'', GInt), (''uptime_ms'', GInt),
      (''boot_id,omitempty'', GString), (''scope'', GStruct HostScope_fields),
      (''platform'', GStruct PlatformObservation_fields),
      (''cpu,omitempty'', GPtr (GStruct CPUObservation_fields)),
      (''load,omitempty'', GPtr (GStruct LoadObservation_fields)),
      (''memory,omitempty'', GPtr (GStruct MemoryObservation_fields)),
      (''filesystem,omitempty'', GPtr (GStruct FilesystemObservation_fields)),
      (''network,omitempty'', GPtr (GStruct NetworkObservation_fields)),
      (''tcp,omitempty'', GPtr (GStruct TCPObservation_fields)),
      (''sockets,omitempty'', GPtr (GStruct SocketObservation_fields)),
      (''processes,omitempty'', GPtr (GStruct ProcessObservation_fields)),
      (''runtime,omitempty'', GPtr (GStruct RuntimeObservation_fields)),
      (''tuning,omitempty'', GPtr (GStruct TuningObservation_fields)),
      (''unavailable,omitempty'', GSlice GString)]"

definition read_HostObservation :: "goval \<Rightarrow> HostObservation" where
  "read_HostObservation v =
     \<lparr>ho_SampleID = as_string (field_at 0 v), ho_CollectedAtMS = as_int (field_at 1 v),
      ho_UptimeMS = as_int (field_at 2 v), ho_BootID = as_string (field_at 3 v),
      ho_Scope = read_HostScope (field_at 4 v),
      ho_Platform = read_PlatformObservation (field_at 5 v),
      ho_CPU = as_pointer read_CPUObservation (field_at 6 v),
      ho_Load = as_pointer read_LoadObservation (field_at 7 v),
      ho_Memory = as_pointer read_MemoryObservation (field_at 8 v),
      ho_Filesystem = as_pointer read_FilesystemObservation (field_at 9 v),
      ho_Network = as_pointer read_NetworkObservation (field_at 10 v),
      ho_TCP = as_pointer read_TCPObservation (field_at 11 v),
      ho_Sockets = as_pointer read_SocketObservation (field_at 12 v),
      ho_Processes = as_pointer read_ProcessObservation (field_at 13 v),
      ho_Runtime = as_pointer read_RuntimeObservation (field_at 14 v),
      ho_Tuning = as_pointer read_TuningObservation (field_at 15 v),
      ho_Unavailable = as_slice as_string (field_at 16 v)\<rparr>"

end
