(* ===== verification/JsonDecoder.thy ===== *)
theory JsonDecoder
  imports Json GoFloat
begin

text \<open>
  The token stream of \<open>json.Decoder\<close>, as \<open>protocol/upgrade.go\<close> reads it: the text that
  is left, the state between two tokens, and the states of the enclosing objects and
  arrays. \<open>Token\<close> and \<open>Decode\<close> may be mixed, which is what that code does.
\<close>

section \<open>The decoder's state\<close>

datatype token_state =
    TokenTopValue
  | TokenArrayStart
  | TokenArrayValue
  | TokenArrayComma
  | TokenObjectStart
  | TokenObjectKey
  | TokenObjectColon
  | TokenObjectValue
  | TokenObjectComma

record Decoder =
  jd_rest :: string
  jd_state :: token_state
  jd_stack :: "token_state list"

datatype token = Delim char | StringToken string | ScalarToken json

text \<open>Errors, of which the callers only distinguish the end of the input (\<open>io.EOF\<close>).\<close>

datatype decode_error = EndOfInput | BadJSON

definition NewDecoder :: "string \<Rightarrow> Decoder" where
  "NewDecoder data = \<lparr>jd_rest = data, jd_state = TokenTopValue, jd_stack = []\<rparr>"

definition tokenValueAllowed :: "Decoder \<Rightarrow> bool" where
  "tokenValueAllowed d \<longleftrightarrow>
     jd_state d \<in> {TokenTopValue, TokenArrayStart, TokenArrayValue, TokenObjectValue}"

fun after_value :: "token_state \<Rightarrow> token_state" where
  "after_value TokenArrayStart = TokenArrayComma"
| "after_value TokenArrayValue = TokenArrayComma"
| "after_value TokenObjectValue = TokenObjectComma"
| "after_value st = st"

definition tokenValueEnd :: "Decoder \<Rightarrow> Decoder" where
  "tokenValueEnd d = d\<lparr>jd_state := after_value (jd_state d)\<rparr>"

definition More :: "Decoder \<Rightarrow> bool" where
  "More d \<longleftrightarrow>
     (case skip_space (jd_rest d) of [] \<Rightarrow> False | c # r \<Rightarrow> c \<noteq> CHR '']'' \<and> c \<noteq> CHR ''}'')"

section \<open>Decode\<close>

text \<open>\<open>tokenPrepareForDecode\<close>: the comma or the colon before the value.\<close>

definition expect :: "char \<Rightarrow> token_state \<Rightarrow> Decoder \<Rightarrow> decode_error + Decoder" where
  "expect c st d =
     (case skip_space (jd_rest d) of
        [] \<Rightarrow> Inl EndOfInput
      | x # r \<Rightarrow> if x = c then Inr (d\<lparr>jd_rest := r, jd_state := st\<rparr>) else Inl BadJSON)"

definition tokenPrepareForDecode :: "Decoder \<Rightarrow> decode_error + Decoder" where
  "tokenPrepareForDecode d =
     (if jd_state d = TokenArrayComma then expect CHR '','' TokenArrayValue d
      else if jd_state d = TokenObjectColon then expect CHR '':'' TokenObjectValue d
      else Inr d)"

text \<open>
  The next value, raw: into a \<open>json.RawMessage\<close> nothing is checked beyond the grammar.
\<close>

definition DecodeRaw :: "Decoder \<Rightarrow> decode_error + (json \<times> Decoder)" where
  "DecodeRaw d =
     (case tokenPrepareForDecode d of
        Inl e \<Rightarrow> Inl e
      | Inr d1 \<Rightarrow>
          if \<not> tokenValueAllowed d1 then Inl BadJSON
          else if skip_space (jd_rest d1) = [] then Inl EndOfInput
          else
            (case scan_value (jd_rest d1) of
               None \<Rightarrow> Inl BadJSON
             | Some (v, r) \<Rightarrow> Inr (v, tokenValueEnd (d1\<lparr>jd_rest := r\<rparr>))))"

text \<open>
  Into an \<open>any\<close> the numbers become doubles, and one beyond their range is an error.
\<close>

fun numbers_in_range :: "json \<Rightarrow> bool" where
  "numbers_in_range (JNumber s) = (ParseFloat s \<noteq> None)"
| "numbers_in_range (JArray vs) = (\<forall>v \<in> set vs. numbers_in_range v)"
| "numbers_in_range (JObject ms) = (\<forall>(k, v) \<in> set ms. numbers_in_range v)"
| "numbers_in_range v = True"

definition DecodeAny :: "Decoder \<Rightarrow> decode_error + (json \<times> Decoder)" where
  "DecodeAny d =
     (case DecodeRaw d of
        Inl e \<Rightarrow> Inl e
      | Inr (v, d1) \<Rightarrow> if numbers_in_range v then Inr (v, d1) else Inl BadJSON)"

section \<open>Token\<close>

definition push :: "token_state \<Rightarrow> string \<Rightarrow> Decoder \<Rightarrow> Decoder" where
  "push st r d = \<lparr>jd_rest = r, jd_state = st, jd_stack = jd_state d # jd_stack d\<rparr>"

definition pop :: "string \<Rightarrow> Decoder \<Rightarrow> Decoder" where
  "pop r d = tokenValueEnd \<lparr>jd_rest = r, jd_state = hd (jd_stack d), jd_stack = tl (jd_stack d)\<rparr>"

definition value_token :: "json \<Rightarrow> token" where
  "value_token v = (case v of JString s \<Rightarrow> StringToken s | _ \<Rightarrow> ScalarToken v)"

text \<open>
  A comma or a colon moves the state on and the loop reads the next token; everything
  else returns. A member's key is a string decoded by itself.
\<close>

function Token :: "Decoder \<Rightarrow> decode_error + (token \<times> Decoder)" where
  "Token d =
     (case skip_space (jd_rest d) of
        [] \<Rightarrow> Inl EndOfInput
      | c # r \<Rightarrow>
          if c = CHR ''['' then
            (if tokenValueAllowed d then Inr (Delim c, push TokenArrayStart r d) else Inl BadJSON)
          else if c = CHR '']'' then
            (if jd_state d \<in> {TokenArrayStart, TokenArrayComma} then Inr (Delim c, pop r d)
             else Inl BadJSON)
          else if c = CHR ''{'' then
            (if tokenValueAllowed d then Inr (Delim c, push TokenObjectStart r d) else Inl BadJSON)
          else if c = CHR ''}'' then
            (if jd_state d \<in> {TokenObjectStart, TokenObjectComma} then Inr (Delim c, pop r d)
             else Inl BadJSON)
          else if c = CHR '':'' then
            (if jd_state d = TokenObjectColon
             then Token (d\<lparr>jd_rest := r, jd_state := TokenObjectValue\<rparr>) else Inl BadJSON)
          else if c = CHR '','' then
            (if jd_state d = TokenArrayComma
             then Token (d\<lparr>jd_rest := r, jd_state := TokenArrayValue\<rparr>)
             else if jd_state d = TokenObjectComma
             then Token (d\<lparr>jd_rest := r, jd_state := TokenObjectKey\<rparr>) else Inl BadJSON)
          else if c = quote \<and> jd_state d \<in> {TokenObjectStart, TokenObjectKey} then
            (case scan_string r of
               None \<Rightarrow> Inl BadJSON
             | Some (raw, r1) \<Rightarrow>
                 (case unquote raw of
                    None \<Rightarrow> Inl BadJSON
                  | Some k \<Rightarrow> Inr (StringToken k, d\<lparr>jd_rest := r1, jd_state := TokenObjectColon\<rparr>)))
          else if \<not> tokenValueAllowed d then Inl BadJSON
          else
            (case DecodeAny d of
               Inl e \<Rightarrow> Inl e
             | Inr (v, d1) \<Rightarrow> Inr (value_token v, d1)))"
  by pat_completeness auto
termination
  by (relation "measure (\<lambda>d. length (jd_rest d))") auto

declare Token.simps [simp del]

section \<open>Every call advances\<close>

lemma tokenValueEnd_rest [simp]: "jd_rest (tokenValueEnd d) = jd_rest d"
  by (simp add: tokenValueEnd_def)

lemma expect_advances: "expect c st d = Inr d1 \<Longrightarrow> length (jd_rest d1) < length (jd_rest d)"
  by (auto simp: expect_def dest: skip_space_Cons split: list.splits if_splits)

lemma prepare_length: "tokenPrepareForDecode d = Inr d1 \<Longrightarrow> length (jd_rest d1) \<le> length (jd_rest d)"
  by (auto simp: tokenPrepareForDecode_def dest: expect_advances split: if_splits)

lemma DecodeRaw_advances:
  assumes "DecodeRaw d = Inr (v, d2)"
  shows "length (jd_rest d2) < length (jd_rest d)"
proof -
  from assms obtain d1 r where "tokenPrepareForDecode d = Inr d1" "scan_value (jd_rest d1) = Some (v, r)"
    "jd_rest d2 = r"
    by (auto simp: DecodeRaw_def split: sum.splits if_splits option.splits)
  with prepare_length scan.advances show ?thesis by fastforce
qed

lemma DecodeAny_advances: "DecodeAny d = Inr (v, d2) \<Longrightarrow> length (jd_rest d2) < length (jd_rest d)"
  by (auto simp: DecodeAny_def dest: DecodeRaw_advances split: sum.splits if_splits)

lemma Token_advances: "Token d = Inr (t, d2) \<Longrightarrow> length (jd_rest d2) < length (jd_rest d)"
proof (induction d rule: Token.induct)
  case (1 d)
  obtain c r where r: "skip_space (jd_rest d) = c # r"
    using "1.prems" by (cases "skip_space (jd_rest d)") (simp_all add: Token.simps [of d])
  have len: "length r < length (jd_rest d)" using r by (rule skip_space_Cons)
  consider (colon) "c = CHR '':''" | (comma) "c = CHR '',''"
    | (key) "c = quote" "jd_state d \<in> {TokenObjectStart, TokenObjectKey}"
    | (other) "c \<noteq> CHR '':''" "c \<noteq> CHR '',''"
        "\<not> (c = quote \<and> jd_state d \<in> {TokenObjectStart, TokenObjectKey})"
    by blast
  then show ?case
  proof cases
    case colon
    with "1.prems" r have "jd_state d = TokenObjectColon"
      "Token (d\<lparr>jd_rest := r, jd_state := TokenObjectValue\<rparr>) = Inr (t, d2)"
      by (simp_all add: Token.simps [of d] split: if_splits)
    with "1.IH"(1) [OF r] colon len show ?thesis by force
  next
    case comma
    with "1.prems" r consider
        "jd_state d = TokenArrayComma" "Token (d\<lparr>jd_rest := r, jd_state := TokenArrayValue\<rparr>) = Inr (t, d2)"
      | "jd_state d = TokenObjectComma" "Token (d\<lparr>jd_rest := r, jd_state := TokenObjectKey\<rparr>) = Inr (t, d2)"
      by (auto simp: Token.simps [of d] split: if_splits)
    then show ?thesis
    proof cases
      case 1
      with "1.IH"(2) [OF r] comma len show ?thesis by force
    next
      case 2
      with "1.IH"(3) [OF r] comma len show ?thesis by force
    qed
  next
    case key
    with "1.prems" r len show ?thesis
      by (auto simp: Token.simps [of d] dest!: scan_string_shorter split: option.splits)
  next
    case other
    show ?thesis
    proof (cases "c \<in> set ''[]{}''")
      case True
      with "1.prems" r len other show ?thesis
        by (auto simp: Token.simps [of d] push_def pop_def split: if_splits)
    next
      case False
      with "1.prems" r other obtain v where "DecodeAny d = Inr (v, d2)"
        by (auto simp: Token.simps [of d] split: if_splits sum.splits)
      then show ?thesis by (rule DecodeAny_advances)
    qed
  qed
qed

section \<open>The tokens of an object\<close>

lemma Token_open:
  "skip_space (jd_rest d) = CHR ''{'' # r \<Longrightarrow> tokenValueAllowed d \<Longrightarrow>
    Token d = Inr (Delim CHR ''{'', push TokenObjectStart r d)"
  by (simp add: Token.simps [of d])

lemma Token_close:
  "skip_space (jd_rest d) = CHR ''}'' # r \<Longrightarrow> jd_state d \<in> {TokenObjectStart, TokenObjectComma} \<Longrightarrow>
    Token d = Inr (Delim CHR ''}'', pop r d)"
  by (auto simp: Token.simps [of d])

lemma Token_comma:
  "skip_space (jd_rest d) = CHR '','' # r \<Longrightarrow> jd_state d = TokenObjectComma \<Longrightarrow>
    Token d = Token (d\<lparr>jd_rest := r, jd_state := TokenObjectKey\<rparr>)"
  by (simp add: Token.simps [of d])

lemma Token_key:
  "skip_space (jd_rest d) = quote # r \<Longrightarrow> jd_state d \<in> {TokenObjectStart, TokenObjectKey} \<Longrightarrow>
    scan_string r = Some (raw, r1) \<Longrightarrow> unquote raw = Some k \<Longrightarrow>
    Token d = Inr (StringToken k, d\<lparr>jd_rest := r1, jd_state := TokenObjectColon\<rparr>)"
  by (auto simp: Token.simps [of d])

lemma scan_value_nonspace: "scan_value s = Some (v, r) \<Longrightarrow> skip_space s \<noteq> []"
  by (auto simp: scan_value_step value_with_def)

lemma DecodeRaw_member:
  "skip_space (jd_rest d) = CHR '':'' # r \<Longrightarrow> jd_state d = TokenObjectColon \<Longrightarrow>
    scan_value r = Some (v, r1) \<Longrightarrow>
    DecodeRaw d = Inr (v, d\<lparr>jd_rest := r1, jd_state := TokenObjectComma\<rparr>)"
  using scan_value_nonspace [of r v r1]
  by (simp add: DecodeRaw_def tokenPrepareForDecode_def expect_def tokenValueAllowed_def tokenValueEnd_def)

text \<open>At the top, the decoder is at the end exactly when only white space is left.\<close>

lemma DecodeAny_end:
  "jd_state d = TokenTopValue \<Longrightarrow> DecodeAny d = Inl EndOfInput \<longleftrightarrow> skip_space (jd_rest d) = []"
  by (auto simp: DecodeAny_def DecodeRaw_def tokenPrepareForDecode_def tokenValueAllowed_def
      split: option.split)

text \<open>One round of the loop over the members, on text the grammar accepts.\<close>

lemma member_tokens:
  assumes "member scan_value s = Some ((k, v), r)"
    and "jd_state d = TokenObjectStart \<and> skip_space (jd_rest d) = skip_space s \<or>
      jd_state d = TokenObjectComma \<and> skip_space (jd_rest d) = CHR '','' # s"
  shows "More d \<and> (\<exists>d1. Token d = Inr (StringToken k, d1) \<and>
    DecodeRaw d1 = Inr (v, d\<lparr>jd_rest := r, jd_state := TokenObjectComma\<rparr>))"
proof -
  from assms(1) obtain q raw r1 r2 where s: "skip_space s = quote # q"
    "scan_string q = Some (raw, r1)" "unquote raw = Some k" "skip_space r1 = CHR '':'' # r2"
    "scan_value r2 = Some (v, r)"
    by (auto simp: member_def split: list.splits if_splits option.splits)
  let ?d1 = "d\<lparr>jd_rest := r1, jd_state := TokenObjectColon\<rparr>"
  from assms(2) have "Token d = Inr (StringToken k, ?d1)"
  proof
    assume d: "jd_state d = TokenObjectStart \<and> skip_space (jd_rest d) = skip_space s"
    with s show ?thesis by (intro Token_key) simp_all
  next
    assume d: "jd_state d = TokenObjectComma \<and> skip_space (jd_rest d) = CHR '','' # s"
    with s Token_key [of "d\<lparr>jd_rest := s, jd_state := TokenObjectKey\<rparr>"] show ?thesis
      by (simp add: Token_comma)
  qed
  moreover have "DecodeRaw ?d1 = Inr (v, d\<lparr>jd_rest := r, jd_state := TokenObjectComma\<rparr>)"
    using DecodeRaw_member [of ?d1] s by simp
  moreover have "More d" using assms(2) s by (auto simp: More_def)
  ultimately show ?thesis by blast
qed

end
