(* ===== verification/Upgrade.thy ===== *)
theory Upgrade
  imports JsonDecoder JsonUnmarshal
begin

text \<open>
  The exact decoder of task bodies, \<open>protocol/upgrade.go\<close>, and the two bodies of the
  upgrade task: a first pass over the token stream checks the names of the members, a
  second one decodes the whole text. The lemmas relate the pass over the tokens to the
  grammar: on a well-formed document it is the loop that refuses an unknown or a repeated
  name, over the names of the document's members.
\<close>

section \<open>The exact decoder\<close>

datatype exact_error =
    TargetNotStruct
  | InvalidObject
  | NotAnObject
  | InvalidKey
  | UnknownField string
  | DuplicateField string
  | FieldValue string decode_error
  | NotOneValue
  | MissingField string
  | InvalidDocument

definition exact_fields :: "(string \<times> gotype) list \<Rightarrow> string list" where
  "exact_fields fs = filter (\<lambda>name. name \<noteq> [] \<and> name \<noteq> ''-'') (field_names fs)"

definition key_step :: "string set \<Rightarrow> string set \<Rightarrow> string \<Rightarrow> exact_error + string set" where
  "key_step allowed seen field = after_checks
     [check (field \<notin> allowed) (UnknownField field),
      check (field \<in> seen) (DuplicateField field)]
     (insert field seen)"

text \<open>The loop \<open>for decoder.More()\<close>: the names seen and the decoder after it.\<close>

function exact_loop :: "string set \<Rightarrow> string set \<Rightarrow> Decoder \<Rightarrow> exact_error + (string set \<times> Decoder)" where
  "exact_loop allowed seen d =
     (if \<not> More d then Inr (seen, d)
      else
        (case Token d of
           Inr (StringToken field, d1) \<Rightarrow>
             (case key_step allowed seen field of
                Inl e \<Rightarrow> Inl e
              | Inr seen' \<Rightarrow>
                  (case DecodeRaw d1 of
                     Inl e \<Rightarrow> Inl (FieldValue field e)
                   | Inr (v, d2) \<Rightarrow> exact_loop allowed seen' d2))
         | Inr (t, d1) \<Rightarrow> Inl InvalidKey
         | Inl e \<Rightarrow> Inl InvalidObject))"
  by pat_completeness auto
termination
  by (relation "measure (\<lambda>(allowed, seen, d). length (jd_rest d))")
    (auto dest!: Token_advances DecodeRaw_advances)

declare exact_loop.simps [simp del]

text \<open>Everything up to the call of \<open>json.Unmarshal\<close>: the error, if any.\<close>

definition exact_names :: "string \<Rightarrow> (string \<times> gotype) list \<Rightarrow> string list \<Rightarrow> exact_error option" where
  "exact_names data fs optional =
     (case Token (NewDecoder data) of
        Inl e \<Rightarrow> Some InvalidObject
      | Inr (t, d) \<Rightarrow>
          if t \<noteq> Delim CHR ''{'' then Some NotAnObject
          else
            (case exact_loop (set (exact_fields fs)) {} d of
               Inl e \<Rightarrow> Some e
             | Inr (seen, d1) \<Rightarrow>
                 (case Token d1 of
                    Inl e \<Rightarrow> Some InvalidObject
                  | Inr (t2, d2) \<Rightarrow>
                      first_error
                        [check (DecodeAny d2 \<noteq> Inl EndOfInput) NotOneValue,
                         for_each (\<lambda>field. check (field \<notin> seen \<and> field \<notin> set optional) (MissingField field))
                           (exact_fields fs)])))"

definition decodeExactObjectMayOmit ::
  "string \<Rightarrow> gotype \<Rightarrow> goval \<Rightarrow> string list \<Rightarrow> goval \<times> exact_error option" where
  "decodeExactObjectMayOmit data target v optional =
     (case target of
        GPtr (GStruct fs) \<Rightarrow>
          (case exact_names data fs optional of
             Some e \<Rightarrow> (v, Some e)
           | None \<Rightarrow>
               (case Unmarshal (GStruct fs) data v of
                  (w, ok) \<Rightarrow> (w, if ok then None else Some InvalidDocument)))
      | _ \<Rightarrow> (v, Some TargetNotStruct))"

definition decodeExactObject :: "string \<Rightarrow> gotype \<Rightarrow> goval \<Rightarrow> goval \<times> exact_error option" where
  "decodeExactObject data target v = decodeExactObjectMayOmit data target v []"

section \<open>The names of a well-formed document\<close>

interpretation keys_loop: dedup_loop "key_step allowed" "\<lambda>field. field" "\<lambda>field. field \<in> allowed" for allowed
  by unfold_locales (auto simp: key_step_def)

lemma NewDecoder_simps [simp]:
  "jd_rest (NewDecoder data) = data" "jd_state (NewDecoder data) = TokenTopValue"
  "jd_stack (NewDecoder data) = []" "tokenValueAllowed (NewDecoder data)"
  by (simp_all add: NewDecoder_def tokenValueAllowed_def)

lemma first_error_last: "first_error [check False e, c] = c"
  by (cases c) (simp_all add: check_def)

lemma exact_loop_members:
  "members scan_value s = Some (ms, r) \<Longrightarrow>
    jd_state d = TokenObjectStart \<and> skip_space (jd_rest d) = skip_space s \<or>
    jd_state d = TokenObjectComma \<and> skip_space (jd_rest d) = CHR '','' # s \<Longrightarrow>
    \<exists>q. skip_space q = CHR ''}'' # r \<and>
      (\<forall>seen. exact_loop allowed seen d =
        (case for_range (key_step allowed) seen (map fst ms) of
           Inl e \<Rightarrow> Inl e
         | Inr seen' \<Rightarrow> Inr (seen', d\<lparr>jd_rest := q, jd_state := TokenObjectComma\<rparr>)))"
proof (induction s arbitrary: ms d rule: length_induct)
  case (1 s)
  from "1.prems"(1) obtain k v r1 c r2 where
    m: "member scan_value s = Some ((k, v), r1)" and c: "skip_space r1 = c # r2"
    by (subst (asm) scan.members_step) (auto split: option.splits list.splits)
  let ?d2 = "d\<lparr>jd_rest := r1, jd_state := TokenObjectComma\<rparr>"
  from member_tokens [OF m "1.prems"(2)] obtain d1 where
    step: "More d" "Token d = Inr (StringToken k, d1)" "DecodeRaw d1 = Inr (v, ?d2)" by blast
  then have loop: "exact_loop allowed seen d =
      (case key_step allowed seen k of Inl e \<Rightarrow> Inl e | Inr seen' \<Rightarrow> exact_loop allowed seen' ?d2)" for seen
    by (simp add: exact_loop.simps [of allowed seen d] split: sum.split)
  show ?case
  proof (cases "c = CHR ''}''")
    case True
    with "1.prems"(1) m c have ms: "ms = [(k, v)]" "r = r2"
      by (simp_all add: scan.members_step [of s])
    have "exact_loop allowed seen' ?d2 = Inr (seen', ?d2)" for seen'
      using True c by (simp add: exact_loop.simps [of allowed seen' ?d2] More_def)
    with loop ms True c show ?thesis by (auto intro!: exI [of _ r1] split: sum.split)
  next
    case False
    with "1.prems"(1) m c obtain ms' where
      ms: "c = CHR '',''" "members scan_value r2 = Some (ms', r)" "ms = (k, v) # ms'"
      by (auto simp: scan.members_step [of s] prepend_Some split: if_splits)
    have "length r2 < length s"
      using scan.member_advances [OF m] skip_space_Cons [OF c] by simp
    moreover have "jd_state ?d2 = TokenObjectComma \<and> skip_space (jd_rest ?d2) = CHR '','' # r2"
      using c ms(1) by simp
    ultimately obtain q where q: "skip_space q = CHR ''}'' # r"
      "\<And>seen'. exact_loop allowed seen' ?d2 =
        (case for_range (key_step allowed) seen' (map fst ms') of
           Inl e \<Rightarrow> Inl e
         | Inr s2 \<Rightarrow> Inr (s2, ?d2\<lparr>jd_rest := q, jd_state := TokenObjectComma\<rparr>))"
      using "1.IH" [rule_format, of r2 ms' ?d2] ms(2) by blast
    with loop ms(3) show ?thesis by (auto intro!: exI [of _ q] split: sum.split)
  qed
qed

text \<open>Whole objects, the empty one included.\<close>

lemma exact_loop_object:
  assumes "object_body scan_value s = Some (JObject ms, r)"
    and "jd_state d = TokenObjectStart" and "jd_rest d = s"
  shows "\<exists>q st. skip_space q = CHR ''}'' # r \<and> st \<in> {TokenObjectStart, TokenObjectComma} \<and>
    (\<forall>seen. exact_loop allowed seen d =
      (case for_range (key_step allowed) seen (map fst ms) of
         Inl e \<Rightarrow> Inl e
       | Inr seen' \<Rightarrow> Inr (seen', d\<lparr>jd_rest := q, jd_state := st\<rparr>)))"
proof -
  from assms(1) obtain c q where c: "skip_space s = c # q"
    by (auto simp: object_body_def split: list.splits)
  show ?thesis
  proof (cases "c = CHR ''}''")
    case True
    with assms(1) c have "ms = []" "q = r" by (simp_all add: object_body_def)
    moreover have "exact_loop allowed seen d = Inr (seen, d)" for seen
      using True c assms(3) by (simp add: exact_loop.simps [of allowed seen d] More_def)
    moreover have "d = d\<lparr>jd_rest := s, jd_state := TokenObjectStart\<rparr>" using assms(2,3) by simp
    ultimately show ?thesis using c True by (intro exI [of _ s] exI [of _ TokenObjectStart]) simp
  next
    case False
    with assms(1) c have "members scan_value s = Some (ms, r)"
      by (auto simp: object_body_def apfst_def)
    from exact_loop_members [OF this, of d allowed] assms(2,3) obtain q where
      "skip_space q = CHR ''}'' # r"
      "\<forall>seen. exact_loop allowed seen d =
        (case for_range (key_step allowed) seen (map fst ms) of
           Inl e \<Rightarrow> Inl e
         | Inr seen' \<Rightarrow> Inr (seen', d\<lparr>jd_rest := q, jd_state := TokenObjectComma\<rparr>))"
      by auto
    then show ?thesis by (intro exI [of _ q] exI [of _ TokenObjectComma]) simp
  qed
qed

lemma exact_names_object:
  assumes "parse_document data = Some (JObject ms)"
  shows "exact_names data fs optional =
    (case for_range (key_step (set (exact_fields fs))) {} (map fst ms) of
       Inl e \<Rightarrow> Some e
     | Inr seen \<Rightarrow>
         for_each (\<lambda>field. check (field \<notin> seen \<and> field \<notin> set optional) (MissingField field))
           (exact_fields fs))"
proof -
  from assms obtain r where r: "scan_value data = Some (JObject ms, r)" "skip_space r = []"
    by (auto simp: parse_document_def split: option.splits if_splits)
  from scan_object [OF r(1)] obtain s where s: "skip_space data = CHR ''{'' # s"
    "object_body scan_value s = Some (JObject ms, r)" by blast
  let ?d = "push TokenObjectStart s (NewDecoder data)"
  have open_brace: "Token (NewDecoder data) = Inr (Delim CHR ''{'', ?d)"
    using s(1) by (intro Token_open) simp_all
  from exact_loop_object [OF s(2), of ?d "set (exact_fields fs)"] obtain q st where
    q: "skip_space q = CHR ''}'' # r" "st \<in> {TokenObjectStart, TokenObjectComma}"
    "exact_loop (set (exact_fields fs)) {} ?d =
      (case for_range (key_step (set (exact_fields fs))) {} (map fst ms) of
         Inl e \<Rightarrow> Inl e
       | Inr seen' \<Rightarrow> Inr (seen', ?d\<lparr>jd_rest := q, jd_state := st\<rparr>))"
    by (auto simp: push_def)
  let ?d1 = "?d\<lparr>jd_rest := q, jd_state := st\<rparr>"
  have close_brace: "Token ?d1 = Inr (Delim CHR ''}'', pop r ?d1)"
    using q(1,2) by (intro Token_close) simp_all
  have "DecodeAny (pop r ?d1) = Inl EndOfInput"
    using r(2) by (subst DecodeAny_end) (simp_all add: pop_def push_def tokenValueEnd_def)
  with open_brace close_brace q(3) show ?thesis
    by (simp add: exact_names_def first_error_last split: sum.split)
qed

lemma Token_brace:
  assumes "Token (NewDecoder data) = Inr (Delim CHR ''{'', d)"
  shows "\<exists>s. skip_space data = CHR ''{'' # s"
proof -
  from assms obtain c r where c: "skip_space data = c # r"
    by (cases "skip_space data") (simp_all add: Token.simps [of "NewDecoder data"])
  have "value_token v \<noteq> Delim x" for v x by (cases v) (simp_all add: value_token_def)
  with assms c show ?thesis
    by (auto simp: Token.simps [of "NewDecoder data"] split: if_splits sum.splits)
qed

lemma value_at_brace:
  assumes "skip_space s = CHR ''{'' # q" and "scan_value s = Some (v, r)"
  shows "\<exists>ms. v = JObject ms"
proof -
  from assms(2) have "object_body scan_inner q = Some (v, r)"
    by (simp only: scan_value_step value_with_object [OF assms(1)])
  then show ?thesis by (auto simp: object_body_def split: list.splits if_splits)
qed

lemma exact_names_not_object:
  assumes "parse_document data = Some j" and "\<And>ms. j \<noteq> JObject ms"
  shows "exact_names data fs optional \<noteq> None"
proof -
  from assms(1) obtain r where r: "scan_value data = Some (j, r)"
    by (auto simp: parse_document_def split: option.splits if_splits)
  have "Token (NewDecoder data) \<noteq> Inr (Delim CHR ''{'', d)" for d
    using Token_brace [of data d] value_at_brace [OF _ r] assms(2) by blast
  then show ?thesis by (auto simp: exact_names_def split: sum.split)
qed

section \<open>What the exact decoder accepts\<close>

definition names_exact :: "string list \<Rightarrow> string list \<Rightarrow> string list \<Rightarrow> bool" where
  "names_exact required optional names \<longleftrightarrow>
     distinct names \<and> set names \<subseteq> set required \<and> set required \<subseteq> set names \<union> set optional"

lemma exact_names_accepts:
  assumes "parse_document data = Some (JObject ms)"
  shows "exact_names data fs optional = None \<longleftrightarrow> names_exact (exact_fields fs) optional (map fst ms)"
proof (cases "for_range (key_step (set (exact_fields fs))) {} (map fst ms)")
  case (Inl e)
  then have "\<not> (list_all (\<lambda>k. k \<in> set (exact_fields fs)) (map fst ms) \<and> distinct (map fst ms))"
    using keys_loop.loop_passes [of "set (exact_fields fs)" "map fst ms"] by simp
  with Inl show ?thesis by (auto simp: exact_names_object [OF assms] names_exact_def list_all_iff)
next
  case (Inr seen)
  then have "list_all (\<lambda>k. k \<in> set (exact_fields fs)) (map fst ms) \<and> distinct (map fst ms) \<and>
      seen = set (map fst ms)"
    by (simp add: keys_loop.loop_accepts)
  with Inr show ?thesis
    by (auto simp: exact_names_object [OF assms] names_exact_def for_each_None list_all_iff)
qed

lemma decodeExactObjectMayOmit_accepts:
  "decodeExactObjectMayOmit data (GPtr (GStruct fs)) v optional = (w, None) \<longleftrightarrow>
    (\<exists>ms. parse_document data = Some (JObject ms) \<and>
      names_exact (exact_fields fs) optional (map fst ms) \<and>
      store (GStruct fs) v (JObject ms) = (w, True))"
proof (cases "parse_document data")
  case None
  then show ?thesis
    by (auto simp: decodeExactObjectMayOmit_def Unmarshal_def split: option.split)
next
  case (Some j)
  show ?thesis
  proof (cases "\<exists>ms. j = JObject ms")
    case False
    with exact_names_not_object [OF Some] obtain e where "exact_names data fs optional = Some e"
      by blast
    with False Some show ?thesis by (auto simp: decodeExactObjectMayOmit_def)
  next
    case True
    then obtain ms where j: "j = JObject ms" by blast
    with Some exact_names_accepts [of data ms fs optional] show ?thesis
      by (auto simp: decodeExactObjectMayOmit_def Unmarshal_def split: option.split prod.split
          simp del: store.simps)
  qed
qed

text \<open>
  C18. The exact decoder accepts exactly the texts that are one well-formed JSON object and
  nothing else, whose members' names are all known, none repeated and none of the required
  ones missing, and whose values fit the fields, where null fits every field. Reading the
  tokens first and the whole text again afterwards adds and loses nothing.
\<close>

theorem decodeExactObjectMayOmit_accepts_exactly:
  "snd (decodeExactObjectMayOmit data (GPtr (GStruct fs)) v optional) = None \<longleftrightarrow>
    (\<exists>ms. parse_document data = Some (JObject ms) \<and>
      names_exact (exact_fields fs) optional (map fst ms) \<and> fits (GStruct fs) (JObject ms))"
  (is "?accepted \<longleftrightarrow> ?exact")
proof -
  have "?accepted \<longleftrightarrow>
      (\<exists>w. decodeExactObjectMayOmit data (GPtr (GStruct fs)) v optional = (w, None))"
    by (cases "decodeExactObjectMayOmit data (GPtr (GStruct fs)) v optional") simp
  also have "\<dots> \<longleftrightarrow> ?exact"
    unfolding decodeExactObjectMayOmit_accepts store_fits(1) [of _ v, symmetric]
    by (metis prod.collapse snd_conv)
  finally show ?thesis .
qed

section \<open>The two bodies of the upgrade task\<close>

record AgentUpgradeArgs =
  ua_Version :: string
  ua_ExpectedVersion :: string

record AgentUpgradeResult =
  ur_Version :: string
  ur_PreviousVersion :: string
  ur_BinarySHA256 :: string
  ur_Restarted :: bool

text \<open>The structs as the decoder sees them, and the records their contents are.\<close>

definition AgentUpgradeArgs_fields :: "(string \<times> gotype) list" where
  "AgentUpgradeArgs_fields = [(''version'', GString), (''expected_version'', GString)]"

definition AgentUpgradeResult_fields :: "(string \<times> gotype) list" where
  "AgentUpgradeResult_fields =
     [(''version'', GString), (''previous_version'', GString), (''binary_sha256'', GString),
      (''restarted'', GBool)]"

definition read_AgentUpgradeArgs :: "goval \<Rightarrow> AgentUpgradeArgs" where
  "read_AgentUpgradeArgs v =
     \<lparr>ua_Version = as_string (field_at 0 v), ua_ExpectedVersion = as_string (field_at 1 v)\<rparr>"

definition read_AgentUpgradeResult :: "goval \<Rightarrow> AgentUpgradeResult" where
  "read_AgentUpgradeResult v =
     \<lparr>ur_Version = as_string (field_at 0 v), ur_PreviousVersion = as_string (field_at 1 v),
      ur_BinarySHA256 = as_string (field_at 2 v), ur_Restarted = as_bool (field_at 3 v)\<rparr>"

definition DecodeAgentUpgradeArgs :: "string \<Rightarrow> AgentUpgradeArgs \<times> exact_error option" where
  "DecodeAgentUpgradeArgs data =
     apfst read_AgentUpgradeArgs
       (decodeExactObject data (GPtr (GStruct AgentUpgradeArgs_fields))
         (zero_value (GStruct AgentUpgradeArgs_fields)))"

definition DecodeAgentUpgradeResult :: "string \<Rightarrow> AgentUpgradeResult \<times> exact_error option" where
  "DecodeAgentUpgradeResult data =
     apfst read_AgentUpgradeResult
       (decodeExactObject data (GPtr (GStruct AgentUpgradeResult_fields))
         (zero_value (GStruct AgentUpgradeResult_fields)))"

text \<open>What a member gives a field of scalar type: \<open>null\<close> gives it the zero value.\<close>

definition text_member :: "(string \<times> json) list \<Rightarrow> string \<Rightarrow> string option" where
  "text_member ms k =
     (case map_of ms k of Some (JString s) \<Rightarrow> Some s | Some JNull \<Rightarrow> Some [] | _ \<Rightarrow> None)"

definition flag_member :: "(string \<times> json) list \<Rightarrow> string \<Rightarrow> bool option" where
  "flag_member ms k =
     (case map_of ms k of Some (JBool b) \<Rightarrow> Some b | Some JNull \<Rightarrow> Some False | _ \<Rightarrow> None)"

definition int_member :: "(string \<times> json) list \<Rightarrow> string \<Rightarrow> int64 option" where
  "int_member ms k =
     (case map_of ms k of Some (JNumber s) \<Rightarrow> ParseInt s | Some JNull \<Rightarrow> Some 0 | _ \<Rightarrow> None)"

section \<open>Decoding a fresh struct\<close>

definition proper_tags :: "(string \<times> gotype) list \<Rightarrow> bool" where
  "proper_tags fs \<longleftrightarrow>
     list_all (\<lambda>f. field_name (fst f) \<notin> {[], ''-''}) fs \<and> distinct (field_names fs)"

lemma exact_fields_names: "proper_tags fs \<Longrightarrow> exact_fields fs = field_names fs"
  by (auto simp: proper_tags_def exact_fields_def list_all_iff filter_id_conv)

abbreviation fresh :: "(string \<times> gotype) list \<Rightarrow> (string \<times> json) list \<Rightarrow> nat \<Rightarrow> goval \<times> bool" where
  "fresh fs ms i \<equiv> store_field fs (map (\<lambda>f. zero_value (snd f)) fs) ms i"

lemma apfst_None: "apfst f x = (a, None) \<longleftrightarrow> (\<exists>w. x = (w, None) \<and> f w = a)"
  by (cases x) auto

lemma names_exact_required:
  "names_exact required [] (map fst ms) \<longleftrightarrow> distinct (map fst ms) \<and> fst ` set ms = set required"
  by (auto simp: names_exact_def)

lemma exists_swap:
  "(\<And>w. D w \<longleftrightarrow> (\<exists>m. P m \<and> S m w)) \<Longrightarrow> (\<And>m. P m \<Longrightarrow> (\<exists>w. S m w \<and> R w) \<longleftrightarrow> T m) \<Longrightarrow>
    (\<exists>w. D w \<and> R w) \<longleftrightarrow> (\<exists>m. P m \<and> T m)"
  by blast

lemma decode_struct:
  assumes "proper_tags fs"
  shows "apfst rd (decodeExactObject data (GPtr (GStruct fs)) (zero_value (GStruct fs))) = (a, None) \<longleftrightarrow>
    (\<exists>ms. (parse_document data = Some (JObject ms) \<and> distinct (map fst ms) \<and>
        fst ` set ms = set (field_names fs)) \<and>
      list_all (\<lambda>i. snd (fresh fs ms i)) [0..<length fs] \<and>
      rd (VStruct (map (\<lambda>i. fst (fresh fs ms i)) [0..<length fs])) = a)"
proof -
  have zero: "zero_value (GStruct fs) = VStruct (map (\<lambda>f. zero_value (snd f)) fs)"
    by (simp add: split_beta)
  have stored: "store (GStruct fs) (zero_value (GStruct fs)) (JObject ms) =
      (VStruct (map (\<lambda>i. fst (fresh fs ms i)) [0..<length fs]),
       list_all (\<lambda>i. snd (fresh fs ms i)) [0..<length fs])"
    if "distinct (map fst ms)" "fst ` set ms = set (field_names fs)" for ms
    using assms that unfolding zero by (intro store_struct_exact) (simp_all add: proper_tags_def)
  show ?thesis
    unfolding decodeExactObject_def apfst_None
  proof (rule exists_swap)
    show "decodeExactObjectMayOmit data (GPtr (GStruct fs)) (zero_value (GStruct fs)) [] = (w, None) \<longleftrightarrow>
      (\<exists>ms. (parse_document data = Some (JObject ms) \<and> distinct (map fst ms) \<and>
          fst ` set ms = set (field_names fs)) \<and>
        store (GStruct fs) (zero_value (GStruct fs)) (JObject ms) = (w, True))" for w
      unfolding decodeExactObjectMayOmit_accepts names_exact_required exact_fields_names [OF assms]
      by (simp only: conj_assoc)
  qed (use stored in auto)
qed

text \<open>One field of a fresh struct, given by the member of its name.\<close>

lemma fresh_fields:
  assumes "i < length fs" and "field_names fs ! i = k" and "k \<in> fst ` set ms"
  shows
    "snd (fs ! i) = GString \<Longrightarrow>
      snd (fresh fs ms i) \<and> as_string (fst (fresh fs ms i)) = s \<longleftrightarrow> text_member ms k = Some s"
    "snd (fs ! i) = GBool \<Longrightarrow>
      snd (fresh fs ms i) \<and> as_bool (fst (fresh fs ms i)) = b \<longleftrightarrow> flag_member ms k = Some b"
    "snd (fs ! i) = GInt \<Longrightarrow>
      snd (fresh fs ms i) \<and> as_int (fst (fresh fs ms i)) = n \<longleftrightarrow> int_member ms k = Some n"
  using assms
  by (cases "map_of ms k";
    auto simp: store_field_def text_member_def flag_member_def int_member_def map_of_eq_None_iff
      store_scalar_def store_number_def readers split: json.splits option.splits)+

lemma ex_cong_under: "(\<And>m. P m \<Longrightarrow> Q m \<longleftrightarrow> R m) \<Longrightarrow> (\<exists>m. P m \<and> Q m) \<longleftrightarrow> (\<exists>m. P m \<and> R m)"
  by blast

lemma upgrade_fields:
  "proper_tags AgentUpgradeArgs_fields" "proper_tags AgentUpgradeResult_fields"
  "field_names AgentUpgradeArgs_fields = [''version'', ''expected_version'']"
  "field_names AgentUpgradeResult_fields =
    [''version'', ''previous_version'', ''binary_sha256'', ''restarted'']"
  by (simp_all add: AgentUpgradeArgs_fields_def AgentUpgradeResult_fields_def proper_tags_def field_name_def)

text \<open>
  C20. The upgrade request is decoded exactly: a text is accepted precisely when it is one
  well-formed JSON object, with nothing after it, whose members are \<open>version\<close> and
  \<open>expected_version\<close>, each once, in any order and with any escaping of the names, and each
  a string or null; the fields are then those strings, unquoted, or empty for a null.
\<close>

theorem DecodeAgentUpgradeArgs_accepts_exactly:
  "DecodeAgentUpgradeArgs data = (a, None) \<longleftrightarrow>
    (\<exists>ms. (parse_document data = Some (JObject ms) \<and> distinct (map fst ms) \<and>
        fst ` set ms = {''version'', ''expected_version''}) \<and>
      text_member ms ''version'' = Some (ua_Version a) \<and>
      text_member ms ''expected_version'' = Some (ua_ExpectedVersion a))"
  unfolding DecodeAgentUpgradeArgs_def decode_struct [OF upgrade_fields(1)] upgrade_fields(3) list.set
proof (rule ex_cong_under, elim conjE)
  fix ms :: "(string \<times> json) list"
  assume names: "fst ` set ms = {''version'', ''expected_version''}"
  have "snd (fresh AgentUpgradeArgs_fields ms 0) \<and>
      as_string (fst (fresh AgentUpgradeArgs_fields ms 0)) = s \<longleftrightarrow> text_member ms ''version'' = Some s"
    "snd (fresh AgentUpgradeArgs_fields ms 1) \<and>
      as_string (fst (fresh AgentUpgradeArgs_fields ms 1)) = s \<longleftrightarrow> text_member ms ''expected_version'' = Some s"
    for s
    by (rule fresh_fields(1); simp add: names AgentUpgradeArgs_fields_def field_name_def)+
  moreover have "[0..<length AgentUpgradeArgs_fields] = [0, 1]"
    by (simp add: AgentUpgradeArgs_fields_def upt_rec)
  ultimately show "list_all (\<lambda>i. snd (fresh AgentUpgradeArgs_fields ms i)) [0..<length AgentUpgradeArgs_fields] \<and>
      read_AgentUpgradeArgs (VStruct (map (\<lambda>i. fst (fresh AgentUpgradeArgs_fields ms i))
        [0..<length AgentUpgradeArgs_fields])) = a \<longleftrightarrow>
      text_member ms ''version'' = Some (ua_Version a) \<and>
      text_member ms ''expected_version'' = Some (ua_ExpectedVersion a)"
    by (cases a) (auto simp del: One_nat_def simp: read_AgentUpgradeArgs_def field_at_def fields_of_def)
qed

text \<open>
  The upgrade result is decoded exactly, like the request: the accepted texts are the
  single JSON objects whose members are the four fields, once each, three strings and a
  boolean (or null), and the fields get those values.
\<close>

theorem DecodeAgentUpgradeResult_accepts_exactly:
  "DecodeAgentUpgradeResult data = (a, None) \<longleftrightarrow>
    (\<exists>ms. (parse_document data = Some (JObject ms) \<and> distinct (map fst ms) \<and>
        fst ` set ms = {''version'', ''previous_version'', ''binary_sha256'', ''restarted''}) \<and>
      text_member ms ''version'' = Some (ur_Version a) \<and>
      text_member ms ''previous_version'' = Some (ur_PreviousVersion a) \<and>
      text_member ms ''binary_sha256'' = Some (ur_BinarySHA256 a) \<and>
      flag_member ms ''restarted'' = Some (ur_Restarted a))"
  unfolding DecodeAgentUpgradeResult_def decode_struct [OF upgrade_fields(2)] upgrade_fields(4) list.set
proof (rule ex_cong_under, elim conjE)
  fix ms :: "(string \<times> json) list"
  assume names: "fst ` set ms = {''version'', ''previous_version'', ''binary_sha256'', ''restarted''}"
  let ?f = "fresh AgentUpgradeResult_fields ms"
  have "snd (?f 0) \<and> as_string (fst (?f 0)) = s \<longleftrightarrow> text_member ms ''version'' = Some s"
    "snd (?f 1) \<and> as_string (fst (?f 1)) = s \<longleftrightarrow> text_member ms ''previous_version'' = Some s"
    "snd (?f 2) \<and> as_string (fst (?f 2)) = s \<longleftrightarrow> text_member ms ''binary_sha256'' = Some s" for s
    by (rule fresh_fields(1); simp add: names AgentUpgradeResult_fields_def field_name_def)+
  moreover have "snd (?f 3) \<and> as_bool (fst (?f 3)) = b \<longleftrightarrow> flag_member ms ''restarted'' = Some b" for b
    by (rule fresh_fields(2); simp add: names AgentUpgradeResult_fields_def field_name_def)
  moreover have "[0..<length AgentUpgradeResult_fields] = [0, 1, 2, 3]"
    by (simp add: AgentUpgradeResult_fields_def upt_rec numeral_eq_Suc)
  ultimately show "list_all (\<lambda>i. snd (?f i)) [0..<length AgentUpgradeResult_fields] \<and>
      read_AgentUpgradeResult (VStruct (map (\<lambda>i. fst (?f i)) [0..<length AgentUpgradeResult_fields])) = a \<longleftrightarrow>
      text_member ms ''version'' = Some (ur_Version a) \<and>
      text_member ms ''previous_version'' = Some (ur_PreviousVersion a) \<and>
      text_member ms ''binary_sha256'' = Some (ur_BinarySHA256 a) \<and>
      flag_member ms ''restarted'' = Some (ur_Restarted a)"
    by (cases a) (auto simp del: One_nat_def simp: read_AgentUpgradeResult_def field_at_def fields_of_def)
qed

section \<open>Null, errors, types\<close>

text \<open>Null is refused by no type; only a pointer, a slice and a map are set by it.\<close>

definition kept_by_null :: "gotype \<Rightarrow> bool" where
  "kept_by_null t =
     (case t of GPtr u \<Rightarrow> False | GSlice u \<Rightarrow> False | GMap u \<Rightarrow> False | GBytes \<Rightarrow> False | _ \<Rightarrow> True)"

lemma store_null: "kept_by_null t \<Longrightarrow> store t v JNull = (v, True)"
  by (cases t) (simp_all add: kept_by_null_def store_scalar_def store.simps(3))

lemma store_members_null:
  "list_all (\<lambda>f. kept_by_null (snd f)) fs \<Longrightarrow> \<forall>m \<in> set ms. snd m = JNull \<Longrightarrow>
    store_members fs vals ms = (vals, True)"
proof (induction ms)
  case (Cons m ms)
  moreover have "kept_by_null (snd (fs ! i))" if "field_index fs (fst m) = Some i" for i
    using field_index_bound [OF that] Cons.prems(1) by (simp add: list_all_length)
  ultimately show ?case by (cases m) (auto simp: store_null split: option.split)
qed simp

text \<open>
  A null counts as a present field: an object that names every required field and gives
  each of them null is accepted by the exact decoder and leaves the target as it was, so
  the request and the result of an upgrade can be empty in all but form.
\<close>

theorem null_counts_as_present:
  assumes "parse_document data = Some (JObject ms)"
    and "names_exact (exact_fields fs) optional (map fst ms)"
    and "\<forall>m \<in> set ms. snd m = JNull"
    and "list_all (\<lambda>f. kept_by_null (snd f)) fs"
  shows "decodeExactObjectMayOmit data (GPtr (GStruct fs)) (VStruct vals) optional = (VStruct vals, None)"
  unfolding decodeExactObjectMayOmit_accepts
  using assms store_members_null [OF assms(4,3)] by (auto simp: store.simps(3) fields_of_def)

theorem null_counts_as_present_witness:
  "decodeExactObjectMayOmit ''{\"version\":null,\"expected_version\":null}''
    (GPtr (GStruct AgentUpgradeArgs_fields)) (VStruct [VString [], VString []]) [] =
    (VStruct [VString [], VString []], None)"
proof (rule null_counts_as_present)
  show "parse_document ''{\"version\":null,\"expected_version\":null}'' =
      Some (JObject [(''version'', JNull), (''expected_version'', JNull)])"
    by (simp add: json_eval)
qed (auto simp: names_exact_def exact_fields_def AgentUpgradeArgs_fields_def field_name_def kept_by_null_def)

text \<open>
  C19. The pass over the tokens refines the check of the parsed document: on a text that is
  one well-formed object, whatever its members, the decoder returns the error of the loop
  over the members' names (the first unknown or repeated one), or else that of the first
  required field that is missing, or else that of a value that does not fit its field, or
  none; and until the names have passed it leaves the target alone.
\<close>

theorem decodeExactObject_refines_check:
  assumes "parse_document data = Some (JObject ms)"
  shows "decodeExactObjectMayOmit data (GPtr (GStruct fs)) v optional =
    (case for_range (key_step (set (exact_fields fs))) {} (map fst ms) of
       Inl e \<Rightarrow> (v, Some e)
     | Inr seen \<Rightarrow>
         (case find (\<lambda>field. field \<notin> set (map fst ms) \<union> set optional) (exact_fields fs) of
            Some field \<Rightarrow> (v, Some (MissingField field))
          | None \<Rightarrow>
              (fst (store (GStruct fs) v (JObject ms)),
               if snd (store (GStruct fs) v (JObject ms)) then None else Some InvalidDocument)))"
proof (cases "for_range (key_step (set (exact_fields fs))) {} (map fst ms)")
  case (Inl e)
  then show ?thesis by (simp add: decodeExactObjectMayOmit_def exact_names_object [OF assms])
next
  case (Inr seen)
  then have seen: "seen = set (map fst ms)" by (simp add: keys_loop.loop_accepts)
  have missing: "for_each (\<lambda>field. check (field \<notin> seen \<and> field \<notin> set optional) (MissingField field)) xs =
      map_option MissingField (find (\<lambda>field. field \<notin> set (map fst ms) \<union> set optional) xs)" for xs
    by (induction xs) (simp_all add: seen check_def)
  show ?thesis
    using Inr missing [of "exact_fields fs"] assms
    by (cases "find (\<lambda>field. field \<notin> set (map fst ms) \<union> set optional) (exact_fields fs)")
      (simp_all add: decodeExactObjectMayOmit_def exact_names_object [OF assms] Unmarshal_def split_beta)
qed

theorem decodeExactObject_refines_check_witness:
  "decodeExactObjectMayOmit ''{\"version\":\"v2\",\"url\":7}''
    (GPtr (GStruct AgentUpgradeArgs_fields)) (VStruct [VString [], VString []]) [] =
    (VStruct [VString [], VString []], Some (UnknownField ''url''))"
proof -
  have "parse_document ''{\"version\":\"v2\",\"url\":7}'' =
      Some (JObject [(''version'', JString ''v2''), (''url'', JNumber ''7'')])"
    by (simp add: json_eval)
  then show ?thesis
    by (subst decodeExactObject_refines_check)
      (auto simp: exact_fields_def AgentUpgradeArgs_fields_def field_name_def key_step_def after_checks_def check_def)
qed

section \<open>The loop ends\<close>

text \<open>The loop with a bound on its rounds: \<open>None\<close> when the rounds run out.\<close>

fun exact_loop_rounds ::
  "nat \<Rightarrow> string set \<Rightarrow> string set \<Rightarrow> Decoder \<Rightarrow> (exact_error + (string set \<times> Decoder)) option" where
  "exact_loop_rounds 0 allowed seen d = None"
| "exact_loop_rounds (Suc n) allowed seen d =
     (if \<not> More d then Some (Inr (seen, d))
      else
        (case Token d of
           Inr (StringToken field, d1) \<Rightarrow>
             (case key_step allowed seen field of
                Inl e \<Rightarrow> Some (Inl e)
              | Inr seen' \<Rightarrow>
                  (case DecodeRaw d1 of
                     Inl e \<Rightarrow> Some (Inl (FieldValue field e))
                   | Inr (v, d2) \<Rightarrow> exact_loop_rounds n allowed seen' d2))
         | Inr (t, d1) \<Rightarrow> Some (Inl InvalidKey)
         | Inl e \<Rightarrow> Some (Inl InvalidObject)))"

text \<open>
  C38. The loop over the members ends on every input, well-formed or not and in whatever state
  the decoder is: each round that goes on consumes a name and a value, so there is at most
  one round for every two bytes that are left, and one to find the end.
\<close>

theorem exact_loop_ends:
  "exact_loop_rounds (Suc (length (jd_rest d) div 2)) allowed seen d = Some (exact_loop allowed seen d)"
proof -
  have "length (jd_rest d) < 2 * n \<Longrightarrow> exact_loop_rounds n allowed seen d = Some (exact_loop allowed seen d)" for n
  proof (induction n arbitrary: seen d)
    case (Suc n)
    show ?case
    proof (cases "\<exists>field d1 seen' v d2. More d \<and> Token d = Inr (StringToken field, d1) \<and>
        key_step allowed seen field = Inr seen' \<and> DecodeRaw d1 = Inr (v, d2)")
      case True
      then obtain field d1 seen' v d2 where step: "More d" "Token d = Inr (StringToken field, d1)"
        "key_step allowed seen field = Inr seen'" "DecodeRaw d1 = Inr (v, d2)" by blast
      have "length (jd_rest d2) < 2 * n"
        using Suc.prems Token_advances [OF step(2)] DecodeRaw_advances [OF step(4)] by simp
      from Suc.IH [OF this] step show ?thesis by (simp add: exact_loop.simps [of allowed seen d])
    next
      case False
      then show ?thesis
        by (auto simp: exact_loop.simps [of allowed seen d] split: sum.split token.split)
    qed
  qed simp
  from this [of "Suc (length (jd_rest d) div 2)"] show ?thesis by simp
qed

end
