(* ===== verification/DiagnosticsJson.thy ===== *)
theory DiagnosticsJson
  imports Diagnostics HostJson Upgrade
begin

text \<open>
  The two documents of the remote diagnostic, \<open>protocol/diagnostics.go\<close>, decoded: their
  structs as \<open>encoding/json\<close> sees them, and the two functions that pass them to the exact
  decoder of \<open>protocol/upgrade.go\<close>.
\<close>

section \<open>The structs\<close>

definition DiagnosticsArgs_fields :: "(string \<times> gotype) list" where
  "DiagnosticsArgs_fields =
     [(''schema_version'', GInt), (''sections'', GSlice GString), (''max_events'', GInt)]"

definition read_DiagnosticsArgs :: "goval \<Rightarrow> DiagnosticsArgs" where
  "read_DiagnosticsArgs v =
     \<lparr>da_SchemaVersion = as_int (field_at 0 v), da_Sections = as_slice as_string (field_at 1 v),
      da_MaxEvents = as_int (field_at 2 v)\<rparr>"

definition DiagnosticsRuntime_fields :: "(string \<times> gotype) list" where
  "DiagnosticsRuntime_fields =
     [(''core_state'', GString), (''core_config_digest'', GString)]"

definition read_DiagnosticsRuntime :: "goval \<Rightarrow> DiagnosticsRuntime" where
  "read_DiagnosticsRuntime v =
     \<lparr>dr_CoreState = as_string (field_at 0 v), dr_CoreConfigDigest = as_string (field_at 1 v)\<rparr>"

definition DiagnosticsState_fields :: "(string \<times> gotype) list" where
  "DiagnosticsState_fields =
     [(''sqlite_quick_check'', GString), (''outbox_pending'', GInt), (''tasks_queued'', GInt)]"

definition read_DiagnosticsState :: "goval \<Rightarrow> DiagnosticsState" where
  "read_DiagnosticsState v =
     \<lparr>ds_SQLiteQuickCheck = as_string (field_at 0 v), ds_OutboxPending = as_int (field_at 1 v),
      ds_TasksQueued = as_int (field_at 2 v)\<rparr>"

definition DiagnosticsEvent_fields :: "(string \<times> gotype) list" where
  "DiagnosticsEvent_fields =
     [(''code'', GString), (''at_ms'', GInt), (''severity'', GString), (''summary'', GString)]"

definition read_DiagnosticsEvent :: "goval \<Rightarrow> DiagnosticsEvent" where
  "read_DiagnosticsEvent v =
     \<lparr>de_Code = as_string (field_at 0 v), de_AtMS = as_int (field_at 1 v),
      de_Severity = as_string (field_at 2 v), de_Summary = as_string (field_at 3 v)\<rparr>"

definition DiagnosticsCheck_fields :: "(string \<times> gotype) list" where
  "DiagnosticsCheck_fields =
     [(''code'', GString), (''status'', GString), (''summary'', GString)]"

definition read_DiagnosticsCheck :: "goval \<Rightarrow> DiagnosticsCheck" where
  "read_DiagnosticsCheck v =
     \<lparr>dc_Code = as_string (field_at 0 v), dc_Status = as_string (field_at 1 v),
      dc_Summary = as_string (field_at 2 v)\<rparr>"

definition DiagnosticsResult_fields :: "(string \<times> gotype) list" where
  "DiagnosticsResult_fields =
     [(''schema_version'', GInt), (''collected_at_ms'', GInt), (''recovered'', GBool),
      (''truncated'', GBool), (''host,omitempty'', GPtr (GStruct HostObservation_fields)),
      (''runtime,omitempty'', GPtr (GStruct DiagnosticsRuntime_fields)),
      (''state,omitempty'', GPtr (GStruct DiagnosticsState_fields)),
      (''events,omitempty'', GSlice (GStruct DiagnosticsEvent_fields)),
      (''checks'', GSlice (GStruct DiagnosticsCheck_fields))]"

definition read_DiagnosticsResult :: "goval \<Rightarrow> DiagnosticsResult" where
  "read_DiagnosticsResult v =
     \<lparr>dg_SchemaVersion = as_int (field_at 0 v), dg_CollectedAtMS = as_int (field_at 1 v),
      dg_Recovered = as_bool (field_at 2 v), dg_Truncated = as_bool (field_at 3 v),
      dg_Host = as_pointer read_HostObservation (field_at 4 v),
      dg_Runtime = as_pointer read_DiagnosticsRuntime (field_at 5 v),
      dg_State = as_pointer read_DiagnosticsState (field_at 6 v),
      dg_Events = as_nil_slice read_DiagnosticsEvent (field_at 7 v),
      dg_Checks = as_slice read_DiagnosticsCheck (field_at 8 v)\<rparr>"

section \<open>Decoding\<close>

definition DecodeDiagnosticsArgs :: "string \<Rightarrow> DiagnosticsArgs \<times> exact_error option" where
  "DecodeDiagnosticsArgs data =
     apfst read_DiagnosticsArgs
       (decodeExactObject data (GPtr (GStruct DiagnosticsArgs_fields))
         (zero_value (GStruct DiagnosticsArgs_fields)))"

definition DecodeDiagnosticsResult :: "string \<Rightarrow> DiagnosticsResult \<times> exact_error option" where
  "DecodeDiagnosticsResult data =
     apfst read_DiagnosticsResult
       (decodeExactObjectMayOmit data (GPtr (GStruct DiagnosticsResult_fields))
         (zero_value (GStruct DiagnosticsResult_fields))
         [''host'', ''runtime'', ''state'', ''events''])"

section \<open>The request\<close>

definition texts_member :: "(string \<times> json) list \<Rightarrow> string \<Rightarrow> string list option" where
  "texts_member ms k =
     (case map_of ms k of
        Some JNull \<Rightarrow> Some []
      | Some (JArray js) \<Rightarrow>
          if list_all (fits GString) js
          then Some (map (\<lambda>j. case j of JString s \<Rightarrow> s | _ \<Rightarrow> []) js) else None
      | _ \<Rightarrow> None)"

lemma store_fresh_texts:
  "store_elements GString [] js =
    (map (\<lambda>j. VString (case j of JString s \<Rightarrow> s | _ \<Rightarrow> [])) js, [], list_all (fits GString) js)"
  by (induction js)
    (auto simp: store_scalar_def store_number_def split: json.split)

lemma fresh_texts:
  assumes "i < length fs" "field_names fs ! i = k" "k \<in> fst ` set ms" "snd (fs ! i) = GSlice GString"
  shows "snd (fresh fs ms i) \<and> as_slice as_string (fst (fresh fs ms i)) = ss \<longleftrightarrow> texts_member ms k = Some ss"
  using assms
  by (cases "map_of ms k")
    (auto simp: store_field_def texts_member_def map_of_eq_None_iff store.simps(2) backing_def
      store_fresh_texts readers comp_def split: json.splits)

lemma DiagnosticsArgs_tags:
  "proper_tags DiagnosticsArgs_fields"
  "field_names DiagnosticsArgs_fields = [''schema_version'', ''sections'', ''max_events'']"
  by (simp_all add: DiagnosticsArgs_fields_def proper_tags_def field_name_def)

text \<open>
  A diagnostic request is decoded exactly: the accepted texts are the single JSON objects
  whose members are the three fields, once each, two integers in the range of int64 and an
  array of strings (null standing for zero, for no sections and for the empty string), and
  the fields get those values, sections in their order and with repeats.
\<close>

theorem DecodeDiagnosticsArgs_accepts_exactly:
  "DecodeDiagnosticsArgs data = (a, None) \<longleftrightarrow>
    (\<exists>ms. (parse_document data = Some (JObject ms) \<and> distinct (map fst ms) \<and>
        fst ` set ms = {''schema_version'', ''sections'', ''max_events''}) \<and>
      int_member ms ''schema_version'' = Some (da_SchemaVersion a) \<and>
      texts_member ms ''sections'' = Some (da_Sections a) \<and>
      int_member ms ''max_events'' = Some (da_MaxEvents a))"
  unfolding DecodeDiagnosticsArgs_def decode_struct [OF DiagnosticsArgs_tags(1)] DiagnosticsArgs_tags(2)
    list.set
proof (rule ex_cong_under, elim conjE)
  fix ms :: "(string \<times> json) list"
  assume names: "fst ` set ms = {''schema_version'', ''sections'', ''max_events''}"
  let ?f = "fresh DiagnosticsArgs_fields ms"
  have "snd (?f 0) \<and> as_int (fst (?f 0)) = n \<longleftrightarrow> int_member ms ''schema_version'' = Some n"
    "snd (?f 2) \<and> as_int (fst (?f 2)) = n \<longleftrightarrow> int_member ms ''max_events'' = Some n" for n
    by (rule fresh_fields(3); simp add: names DiagnosticsArgs_fields_def field_name_def)+
  moreover have "snd (?f 1) \<and> as_slice as_string (fst (?f 1)) = ss \<longleftrightarrow>
      texts_member ms ''sections'' = Some ss" for ss
    by (rule fresh_texts; simp add: names DiagnosticsArgs_fields_def field_name_def)
  moreover have "[0..<length DiagnosticsArgs_fields] = [0, 1, 2]"
    by (simp add: DiagnosticsArgs_fields_def upt_rec numeral_eq_Suc)
  ultimately show "list_all (\<lambda>i. snd (?f i)) [0..<length DiagnosticsArgs_fields] \<and>
      read_DiagnosticsArgs (VStruct (map (\<lambda>i. fst (?f i)) [0..<length DiagnosticsArgs_fields])) = a \<longleftrightarrow>
      int_member ms ''schema_version'' = Some (da_SchemaVersion a) \<and>
      texts_member ms ''sections'' = Some (da_Sections a) \<and>
      int_member ms ''max_events'' = Some (da_MaxEvents a)"
    by (cases a) (auto simp del: One_nat_def simp: read_DiagnosticsArgs_def field_at_def fields_of_def)
qed

section \<open>The result\<close>

lemma DiagnosticsResult_tags:
  "proper_tags DiagnosticsResult_fields"
  "field_names DiagnosticsResult_fields =
    [''schema_version'', ''collected_at_ms'', ''recovered'', ''truncated'', ''host'', ''runtime'',
     ''state'', ''events'', ''checks'']"
  by (simp_all add: DiagnosticsResult_fields_def proper_tags_def field_name_def)

lemma names_exact_optional:
  "names_exact required optional (map fst ms) \<longleftrightarrow>
    distinct (map fst ms) \<and> fst ` set ms \<subseteq> set required \<and> set required - set optional \<subseteq> fst ` set ms"
  by (auto simp: names_exact_def)

text \<open>
  A diagnostic result may leave out its four sections and nothing else: the accepted
  texts are the single JSON objects whose names are known and not repeated, that carry the
  schema version, the time, both flags and the checks, and whose values fit their fields.
\<close>

theorem DecodeDiagnosticsResult_accepts_exactly:
  "snd (DecodeDiagnosticsResult data) = None \<longleftrightarrow>
    (\<exists>ms. parse_document data = Some (JObject ms) \<and> distinct (map fst ms) \<and>
      fst ` set ms \<subseteq> {''schema_version'', ''collected_at_ms'', ''recovered'', ''truncated'', ''host'',
        ''runtime'', ''state'', ''events'', ''checks''} \<and>
      {''schema_version'', ''collected_at_ms'', ''recovered'', ''truncated'', ''checks''} \<subseteq> fst ` set ms \<and>
      fits (GStruct DiagnosticsResult_fields) (JObject ms))"
proof -
  have "set [''schema_version'', ''collected_at_ms'', ''recovered'', ''truncated'', ''host'', ''runtime'',
      ''state'', ''events'', ''checks''] - set [''host'', ''runtime'', ''state'', ''events''] =
      {''schema_version'', ''collected_at_ms'', ''recovered'', ''truncated'', ''checks''}"
    by auto
  then show ?thesis
    unfolding DecodeDiagnosticsResult_def apfst_def map_prod_def
    by (simp only: split_beta snd_conv id_apply decodeExactObjectMayOmit_accepts_exactly
        names_exact_optional exact_fields_names [OF DiagnosticsResult_tags(1)] DiagnosticsResult_tags(2)
        list.set conj_assoc)
qed

section \<open>The sections of a result\<close>

lemma fresh_pointer:
  assumes "i < length fs" "field_names fs ! i = k" "snd (fs ! i) = GPtr t"
  shows "as_pointer f (fst (fresh fs ms i)) = None \<longleftrightarrow> map_of ms k \<in> {None, Some JNull}"
  using assms
  by (cases "map_of ms k") (auto simp: store_field_def store.simps(1) as_pointer_def split: prod.split)

lemma store_elements_length: "length (fst (store_elements t avail js)) = length js"
proof (induction js arbitrary: avail)
  case (Cons j js)
  obtain v ok where v: "store t (case avail of [] \<Rightarrow> zero_value t | a # as \<Rightarrow> a) j = (v, ok)"
    by fastforce
  obtain vs rest oks where vs: "store_elements t (tl avail) js = (vs, rest, oks)"
    by (cases "store_elements t (tl avail) js")
  from Cons [of "tl avail"] v vs show ?case by simp
qed simp

lemma fresh_nil_slice:
  assumes "i < length fs" "field_names fs ! i = k" "snd (fs ! i) = GSlice t" "snd (fresh fs ms i)"
  shows "as_nil_slice f (fst (fresh fs ms i)) = None \<longleftrightarrow> map_of ms k \<in> {None, Some JNull}"
    and "as_nil_slice f (fst (fresh fs ms i)) = Some [] \<longleftrightarrow> map_of ms k = Some (JArray [])"
proof -
  have "(as_nil_slice f (fst (fresh fs ms i)) = None \<longleftrightarrow> map_of ms k \<in> {None, Some JNull}) \<and>
    (as_nil_slice f (fst (fresh fs ms i)) = Some [] \<longleftrightarrow> map_of ms k = Some (JArray []))"
  proof (cases "\<exists>js. map_of ms k = Some (JArray js)")
    case True
    then obtain js where js: "map_of ms k = Some (JArray js)" by blast
    obtain vs rest ok where vs: "store_elements t [] js = (vs, rest, ok)"
      by (cases "store_elements t [] js")
    have "length vs = length js" using store_elements_length [of t "[]" js] by (simp add: vs)
    then have "vs = [] \<longleftrightarrow> js = []" by (metis length_0_conv)
    with assms(1-3) js vs show ?thesis
      by (simp add: store_field_def store.simps(2) backing_def as_nil_slice_def)
  next
    case False
    with assms show ?thesis
      by (cases "map_of ms k")
        (auto simp: store_field_def store.simps(2) as_nil_slice_def split: json.splits)
  qed
  then show "as_nil_slice f (fst (fresh fs ms i)) = None \<longleftrightarrow> map_of ms k \<in> {None, Some JNull}"
    and "as_nil_slice f (fst (fresh fs ms i)) = Some [] \<longleftrightarrow> map_of ms k = Some (JArray [])" by blast+
qed

lemma DecodeDiagnosticsResult_fields:
  assumes "DecodeDiagnosticsResult data = (r, None)" and "parse_document data = Some (JObject ms)"
  shows "list_all (\<lambda>i. snd (fresh DiagnosticsResult_fields ms i)) [0..<9] \<and>
    r = read_DiagnosticsResult (VStruct (map (\<lambda>i. fst (fresh DiagnosticsResult_fields ms i)) [0..<9]))"
proof -
  let ?fs = "DiagnosticsResult_fields"
  from assms obtain w where w: "store (GStruct ?fs) (zero_value (GStruct ?fs)) (JObject ms) = (w, True)"
    "names_exact (exact_fields ?fs) [''host'', ''runtime'', ''state'', ''events''] (map fst ms)"
    "r = read_DiagnosticsResult w"
    by (auto simp: DecodeDiagnosticsResult_def apfst_None decodeExactObjectMayOmit_accepts
        simp del: zero_value.simps)
  have zero: "zero_value (GStruct ?fs) = VStruct (map (\<lambda>f. zero_value (snd f)) ?fs)"
    by (simp add: split_beta)
  have len: "length ?fs = 9" by (simp add: DiagnosticsResult_fields_def)
  from w(2) have "distinct (map fst ms)" "fst ` set ms \<subseteq> set (field_names ?fs)"
    by (simp_all add: names_exact_optional exact_fields_names [OF DiagnosticsResult_tags(1)])
  from store_struct_exact [OF _ this, of "map (\<lambda>f. zero_value (snd f)) ?fs"] w(1,3) len
  show ?thesis using DiagnosticsResult_tags(1) unfolding zero by (auto simp: proper_tags_def)
qed

lemma DecodeDiagnosticsResult_ok:
  assumes "parse_document data = Some (JObject ms)"
    and "names_exact (exact_fields DiagnosticsResult_fields) [''host'', ''runtime'', ''state'', ''events''] (map fst ms)"
    and "fits (GStruct DiagnosticsResult_fields) (JObject ms)"
  shows "\<exists>r. DecodeDiagnosticsResult data = (r, None)"
proof -
  let ?zero = "zero_value (GStruct DiagnosticsResult_fields)"
  have "snd (store (GStruct DiagnosticsResult_fields) ?zero (JObject ms))"
    using assms(3) by (simp only: store_fits(1))
  then obtain w where "store (GStruct DiagnosticsResult_fields) ?zero (JObject ms) = (w, True)"
    by (cases "store (GStruct DiagnosticsResult_fields) ?zero (JObject ms)") simp
  with assms(1,2) show ?thesis
    unfolding DecodeDiagnosticsResult_def apfst_None decodeExactObjectMayOmit_accepts by blast
qed

text \<open>
  C36. The decoder keeps a section that was not collected apart from one that was and found
  nothing: in a result it accepts, each of the four sections, the events included, is nil
  exactly when the text leaves it out or gives null for it; and the events are the empty
  list that is not nil exactly when the text gives an empty array.
\<close>

theorem sections_present_as_sent:
  assumes "DecodeDiagnosticsResult data = (r, None)" and "parse_document data = Some (JObject ms)"
  shows "(dg_Host r = None \<longleftrightarrow> map_of ms ''host'' \<in> {None, Some JNull}) \<and>
    (dg_Runtime r = None \<longleftrightarrow> map_of ms ''runtime'' \<in> {None, Some JNull}) \<and>
    (dg_State r = None \<longleftrightarrow> map_of ms ''state'' \<in> {None, Some JNull}) \<and>
    (dg_Events r = None \<longleftrightarrow> map_of ms ''events'' \<in> {None, Some JNull}) \<and>
    (dg_Events r = Some [] \<longleftrightarrow> map_of ms ''events'' = Some (JArray []))"
proof -
  let ?fs = "DiagnosticsResult_fields"
  let ?f = "fresh ?fs ms"
  from DecodeDiagnosticsResult_fields [OF assms]
  have ok: "snd (?f 7)" and r: "dg_Host r = as_pointer read_HostObservation (fst (?f 4))"
    "dg_Runtime r = as_pointer read_DiagnosticsRuntime (fst (?f 5))"
    "dg_State r = as_pointer read_DiagnosticsState (fst (?f 6))"
    "dg_Events r = as_nil_slice read_DiagnosticsEvent (fst (?f 7))"
    by (simp_all add: read_DiagnosticsResult_def field_at_def fields_of_def list_all_iff)
  have at: "4 < length ?fs \<and> field_names ?fs ! 4 = ''host'' \<and> snd (?fs ! 4) = GPtr (GStruct HostObservation_fields)"
    "5 < length ?fs \<and> field_names ?fs ! 5 = ''runtime'' \<and> snd (?fs ! 5) = GPtr (GStruct DiagnosticsRuntime_fields)"
    "6 < length ?fs \<and> field_names ?fs ! 6 = ''state'' \<and> snd (?fs ! 6) = GPtr (GStruct DiagnosticsState_fields)"
    "7 < length ?fs \<and> field_names ?fs ! 7 = ''events'' \<and> snd (?fs ! 7) = GSlice (GStruct DiagnosticsEvent_fields)"
    by (simp_all add: DiagnosticsResult_fields_def field_name_def)
  show ?thesis
    unfolding r using at ok by (simp only: fresh_pointer fresh_nil_slice simp_thms)
qed

theorem sections_present_as_sent_witness:
  "\<exists>r. DecodeDiagnosticsResult ''{\"schema_version\":1,\"collected_at_ms\":5,\"recovered\":false,\"truncated\":false,\"state\":null,\"runtime\":{},\"events\":[],\"checks\":[]}'' = (r, None) \<and>
    dg_Host r = None \<and> dg_State r = None \<and> dg_Runtime r \<noteq> None \<and> dg_Events r = Some []"
  (is "\<exists>r. DecodeDiagnosticsResult ?text = _ \<and> _")
proof -
  let ?ms = "[(''schema_version'', JNumber ''1''), (''collected_at_ms'', JNumber ''5''),
      (''recovered'', JBool False), (''truncated'', JBool False), (''state'', JNull),
      (''runtime'', JObject []), (''events'', JArray []), (''checks'', JArray [])]"
  have parsed: "parse_document ?text = Some (JObject ?ms)" by (simp add: json_eval)
  have "names_exact (exact_fields DiagnosticsResult_fields) [''host'', ''runtime'', ''state'', ''events''] (map fst ?ms)"
    by (simp add: names_exact_def exact_fields_names [OF DiagnosticsResult_tags(1)] DiagnosticsResult_tags(2))
  moreover have "fits (GStruct DiagnosticsResult_fields) (JObject ?ms)"
    by (simp add: field_index_def position_def DiagnosticsResult_fields_def field_name_def
        ParseInt_def parse_digits_def parse_nat_def digit_val_def is_digit_def)
  ultimately obtain r where r: "DecodeDiagnosticsResult ?text = (r, None)"
    using DecodeDiagnosticsResult_ok [OF parsed] by blast
  from sections_present_as_sent [OF r parsed] have "dg_Host r = None" "dg_State r = None"
    "dg_Runtime r \<noteq> None" "dg_Events r = Some []" by simp_all
  with r show ?thesis by blast
qed

text \<open>
  What is skipped inside: storing does not see a member no field claims, at any place where
  a struct is decoded.
\<close>

lemma store_members_skip:
  "field_index fs k = None \<Longrightarrow>
    store_members fs vals (xs @ (k, j) # ys) = store_members fs vals (xs @ ys)"
proof (induction xs arbitrary: vals)
  case (Cons x xs)
  then show ?case by (cases x) (auto split: option.split prod.split)
qed simp

lemma store_members_replace:
  "(\<And>i v. field_index fs k = Some i \<Longrightarrow> store (snd (fs ! i)) v j = store (snd (fs ! i)) v j') \<Longrightarrow>
    store_members fs vals (xs @ (k, j) # ys) = store_members fs vals (xs @ (k, j') # ys)"
proof (induction xs arbitrary: vals)
  case Nil
  then show ?case by (simp split: option.split)
next
  case (Cons x xs)
  then show ?case by (cases x) (auto split: option.split prod.split)
qed

text \<open>
  C40. Exactness ends at the top level: one level down, in a section that is a struct or a
  pointer to one, a member the struct has no field for is skipped, and the text decodes to
  the same result, error included, as the text without it. A field a peer adds to a section
  is dropped in silence.
\<close>

theorem nested_unknown_members_skipped:
  assumes "parse_document data = Some (JObject (xs @ (k, JObject (us @ (u, j) # ws)) # ys))"
    and "parse_document data' = Some (JObject (xs @ (k, JObject (us @ ws)) # ys))"
    and "field_index fs k = Some i"
    and "snd (fs ! i) \<in> {GStruct gs, GPtr (GStruct gs)}" and "field_index gs u = None"
  shows "decodeExactObjectMayOmit data (GPtr (GStruct fs)) v optional =
    decodeExactObjectMayOmit data' (GPtr (GStruct fs)) v optional"
proof -
  have "store (GStruct gs) w (JObject (us @ (u, j) # ws)) = store (GStruct gs) w (JObject (us @ ws))" for w
    by (simp add: store.simps(3) store_members_skip [OF assms(5)])
  then have "store (snd (fs ! i)) w (JObject (us @ (u, j) # ws)) = store (snd (fs ! i)) w (JObject (us @ ws))" for w
    using assms(4) by (auto simp: store.simps(1))
  with assms(3) have "store_members fs vals (xs @ (k, JObject (us @ (u, j) # ws)) # ys) =
      store_members fs vals (xs @ (k, JObject (us @ ws)) # ys)" for vals
    by (intro store_members_replace) simp
  then have "Unmarshal (GStruct fs) data v = Unmarshal (GStruct fs) data' v"
    by (simp add: Unmarshal_def assms(1,2) store.simps(3))
  moreover have "exact_names data fs optional = exact_names data' fs optional"
    by (simp add: exact_names_object [OF assms(1)] exact_names_object [OF assms(2)])
  ultimately show ?thesis by (simp add: decodeExactObjectMayOmit_def split: option.split)
qed

theorem nested_unknown_members_skipped_witness:
  "decodeExactObjectMayOmit ''{\"runtime\":{\"core_state\":\"up\",\"pid\":7}}''
      (GPtr (GStruct DiagnosticsResult_fields)) (zero_value (GStruct DiagnosticsResult_fields))
      [''schema_version'', ''collected_at_ms'', ''recovered'', ''truncated'', ''host'', ''state'', ''events'', ''checks''] =
    decodeExactObjectMayOmit ''{\"runtime\":{\"core_state\":\"up\"}}''
      (GPtr (GStruct DiagnosticsResult_fields)) (zero_value (GStruct DiagnosticsResult_fields))
      [''schema_version'', ''collected_at_ms'', ''recovered'', ''truncated'', ''host'', ''state'', ''events'', ''checks'']"
proof (rule nested_unknown_members_skipped [where xs = "[]" and us = "[(''core_state'', JString ''up'')]"
      and ws = "[]" and ys = "[]" and u = "''pid''" and j = "JNumber ''7''" and k = "''runtime''"
      and i = 5 and gs = DiagnosticsRuntime_fields])
  show "parse_document ''{\"runtime\":{\"core_state\":\"up\",\"pid\":7}}'' =
      Some (JObject ([] @ (''runtime'', JObject ([(''core_state'', JString ''up'')] @ (''pid'', JNumber ''7'') # [])) # []))"
    by (simp add: json_eval)
  show "parse_document ''{\"runtime\":{\"core_state\":\"up\"}}'' =
      Some (JObject ([] @ (''runtime'', JObject ([(''core_state'', JString ''up'')] @ [])) # []))"
    by (simp add: json_eval)
  show "field_index DiagnosticsResult_fields ''runtime'' = Some 5" by code_simp
  show "field_index DiagnosticsRuntime_fields ''pid'' = None" by code_simp
qed (simp add: DiagnosticsResult_fields_def)

end
