(* ===== verification/FloatText.thy ===== *)
theory FloatText
  imports GoFloat
begin

text \<open>
  A finite double is read back from the text it is printed as: the parser's rounding
  depends on the value of a fraction alone, is exact on the value of a double, and so gives
  the double for the digits the printer settled on.
\<close>

section \<open>The logarithm\<close>

lemma bit_length_bounds: "0 < n \<Longrightarrow> 2 ^ (bit_length n - 1) \<le> n \<and> n < 2 ^ bit_length n \<and> 0 < bit_length n"
proof (induction n rule: bit_length.induct)
  case (1 n)
  show ?case
  proof (cases "n div 2 = 0")
    case True
    with 1 have "n = 1" by simp
    then show ?thesis by (simp add: bit_length.simps [of "Suc 0"] bit_length.simps [of 0])
  next
    case False
    define k where "k = bit_length (n div 2)"
    have k: "2 ^ (k - 1) \<le> n div 2" "n div 2 < 2 ^ k" "0 < k"
      using 1 False by (auto simp: k_def)
    then obtain j where j: "k = Suc j" by (cases k) auto
    have "bit_length n = Suc k" using 1 by (simp add: k_def bit_length.simps [of n])
    moreover have "2 * (n div 2) \<le> n" "n < 2 * (n div 2) + 2" by presburger+
    moreover have "(2 :: nat) ^ k = 2 * 2 ^ j" by (simp add: j)
    ultimately show ?thesis using k by (simp add: j)
  qed
qed

text \<open>\<open>2 ^ e\<close> is at most \<open>n / d\<close>; multiplied out with any large enough power.\<close>

definition pow2_le :: "int \<Rightarrow> nat \<Rightarrow> nat \<Rightarrow> bool" where
  "pow2_le e n d \<longleftrightarrow> d * 2 ^ nat e \<le> n * 2 ^ nat (- e)"

lemma pow2_le_iff: "0 \<le> e + int K \<Longrightarrow> pow2_le e n d \<longleftrightarrow> d * 2 ^ nat (e + int K) \<le> n * 2 ^ K"
proof (cases "0 \<le> e")
  case True
  then have "nat (e + int K) = nat e + K" by (simp add: nat_add_distrib)
  with True show ?thesis by (simp add: pow2_le_def power_add flip: mult.assoc)
next
  case False
  assume "0 \<le> e + int K"
  with False have "K = nat (e + int K) + nat (- e)" by linarith
  then have "(2 :: nat) ^ K = 2 ^ nat (- e) * 2 ^ nat (e + int K)" by (simp flip: power_add)
  with False show ?thesis by (simp add: pow2_le_def flip: mult.assoc)
qed

lemma pow2_le_mono: "pow2_le e n d \<Longrightarrow> e' \<le> e \<Longrightarrow> pow2_le e' n d"
proof -
  assume e: "pow2_le e n d" "e' \<le> e"
  define K where "K = nat (- e')"
  have K: "0 \<le> e' + int K" "0 \<le> e + int K" using e(2) by (auto simp: K_def)
  have "(2 :: nat) ^ nat (e' + int K) \<le> 2 ^ nat (e + int K)" using e(2) by (simp add: nat_mono)
  with e(1) show ?thesis unfolding pow2_le_iff [OF K(1)] pow2_le_iff [OF K(2)]
    using mult_le_mono2 order_trans by blast
qed

lemma log2_floor_bounds:
  assumes "0 < n" "0 < d"
  shows "pow2_le (log2_floor n d) n d" "\<not> pow2_le (log2_floor n d + 1) n d"
proof -
  define bn bd where "bn = bit_length n" and "bd = bit_length d"
  define k where "k = int bn - int bd"
  have n: "2 ^ (bn - 1) \<le> n" "n < 2 ^ bn" "0 < bn" and d: "2 ^ (bd - 1) \<le> d" "d < 2 ^ bd" "0 < bd"
    using bit_length_bounds assms by (auto simp: bn_def bd_def)
  have above: "\<not> pow2_le (k + 1) n d"
  proof -
    have "n * 2 ^ bd < 2 ^ bn * 2 ^ bd" using n(2) by simp
    also have "\<dots> = 2 ^ (bd - 1) * 2 ^ Suc bn" using d(3) by (cases bd) simp_all
    also have "\<dots> \<le> d * 2 ^ Suc bn" using d(1) by (rule mult_le_mono1)
    finally have "n * 2 ^ bd < d * 2 ^ Suc bn" .
    moreover have "nat (k + 1 + int bd) = Suc bn" by (simp add: k_def)
    ultimately show ?thesis by (subst pow2_le_iff [where K = bd]) (simp_all add: k_def)
  qed
  have below: "pow2_le (k - 1) n d"
  proof -
    have "d * 2 ^ (bn - 1) \<le> 2 ^ bd * 2 ^ (bn - 1)" using d(2) by simp
    also have "\<dots> \<le> n * 2 ^ bd" using n(1) by simp
    finally have "d * 2 ^ (bn - 1) \<le> n * 2 ^ bd" .
    moreover have "nat (k - 1 + int bd) = bn - 1" by (simp add: k_def nat_diff_distrib')
    ultimately show ?thesis using n(3) by (subst pow2_le_iff [where K = bd]) (simp_all add: k_def)
  qed
  have "log2_floor n d = (if pow2_le k n d then k else k - 1)"
    by (simp add: log2_floor_def Let_def pow2_le_def k_def bn_def bd_def)
  with above below show "pow2_le (log2_floor n d) n d" "\<not> pow2_le (log2_floor n d + 1) n d" by auto
qed

lemma log2_floor_unique:
  assumes "0 < n" "0 < d" "pow2_le e n d" "\<not> pow2_le (e + 1) n d"
  shows "log2_floor n d = e"
proof (rule ccontr)
  assume "log2_floor n d \<noteq> e"
  then have "log2_floor n d + 1 \<le> e \<or> e + 1 \<le> log2_floor n d" by linarith
  with log2_floor_bounds [OF assms(1,2)] assms(3,4) pow2_le_mono show False by blast
qed

lemma pow2_le_scale: "0 < k \<Longrightarrow> pow2_le e (k * n) (k * d) \<longleftrightarrow> pow2_le e n d"
  by (simp add: pow2_le_def mult.assoc)

lemma log2_floor_scale: "0 < k \<Longrightarrow> 0 < n \<Longrightarrow> 0 < d \<Longrightarrow> log2_floor (k * n) (k * d) = log2_floor n d"
  using log2_floor_bounds [of n d] by (intro log2_floor_unique) (simp_all add: pow2_le_scale)

section \<open>Rounding a fraction\<close>

lemma round_half_even_scale:
  assumes "0 < k"
  shows "round_half_even (k * n) (k * d) = round_half_even n d"
proof -
  have "k * n div (k * d) = n div d" using assms by simp
  moreover have "k * n mod (k * d) = k * (n mod d)" by (rule mod_mult_mult1)
  moreover have "2 * (k * r) < k * d \<longleftrightarrow> 2 * r < d" "2 * (k * r) = k * d \<longleftrightarrow> 2 * r = d" for r
    using assms mult.left_commute [of 2 k r] by (metis nat_mult_less_cancel1, metis nat_mult_eq_cancel1)
  ultimately show ?thesis unfolding round_half_even_def Let_def by (simp only:)
qed

lemma round_half_even_exact: "0 < d \<Longrightarrow> round_half_even (m * d) d = m"
  by (simp add: round_half_even_def)

lemma float_bits_scale:
  assumes "0 < k" "0 < d"
  shows "float_bits (k * n) (k * d) = float_bits n d"
proof (cases "n = 0")
  case False
  then have "0 < n" by simp
  note log2_floor_scale [OF assms(1) this assms(2)]
  moreover have "round_half_even (k * n * a) (k * d * b) = round_half_even (n * a) (d * b)" for a b
    unfolding mult.assoc by (rule round_half_even_scale [OF assms(1)])
  ultimately show ?thesis using False assms(1) by (simp add: float_bits_def)
qed (simp add: float_bits_def)

lemma float_bits_log:
  assumes "0 < n" "log2_floor n d \<le> e" "e = max (log2_floor n d) (- 1022)"
    and "n * 2 ^ nat (52 - e) = m * (d * 2 ^ nat (e - 52))" "0 < d"
    and "nat (e + 1022) * 2 ^ 52 + m < 2047 * 2 ^ 52"
  shows "float_bits n d = Some (nat (e + 1022) * 2 ^ 52 + m)"
proof -
  have "round_half_even (n * 2 ^ nat (52 - e)) (d * 2 ^ nat (e - 52)) = m"
    unfolding assms(4) using assms(5) by (intro round_half_even_exact) simp
  with assms(1,3,6) show ?thesis by (simp add: float_bits_def flip: assms(3))
qed

section \<open>The value of a double\<close>

lemma magnitude_parts: "magnitude_bits x = f64_exponent x * 2 ^ 52 + f64_fraction x"
  using mod_mult2_eq [of "unat x" "2 ^ 52" "2 ^ 11"]
  by (simp add: magnitude_bits_def f64_exponent_def f64_fraction_def)

lemma fraction_bound: "f64_fraction x < 2 ^ 52"
  by (simp add: f64_fraction_def)

lemma pow2_le_dyadic: "e \<le> a \<Longrightarrow> pow2_le a (m * 2 ^ nat e) (2 ^ nat (- e)) \<longleftrightarrow> 2 ^ nat (a - e) \<le> m"
proof (cases "0 \<le> e")
  case True
  assume "e \<le> a"
  with True have "nat a = nat (a - e) + nat e" "nat (- e) = 0" "nat (- a) = 0" by auto
  then show ?thesis unfolding pow2_le_def by (simp add: power_add)
next
  case False
  assume "e \<le> a"
  with False have K: "0 \<le> a + int (nat (- e))" "a + int (nat (- e)) = a - e" "nat e = 0" by auto
  show ?thesis unfolding pow2_le_iff [OF K(1)] K(2,3) by (simp add: mult.commute)
qed

lemma float_bits_dyadic:
  assumes "0 < m" "m < 2 ^ 53" "e = - 1074 \<or> - 1074 \<le> e \<and> e < 972 \<and> 2 ^ 52 \<le> m"
  shows "float_bits (m * 2 ^ nat e) (2 ^ nat (- e)) = Some (nat (e + 1074) * 2 ^ 52 + m)"
proof -
  define n d where "n = m * 2 ^ nat e" and "d = (2 :: nat) ^ nat (- e)"
  have pos: "0 < n" "0 < d" using assms(1) by (simp_all add: n_def d_def)
  have "\<not> pow2_le (e + 53) n d" using assms(2) pow2_le_dyadic [of e "e + 53" m] by (simp add: n_def d_def)
  with log2_floor_bounds(1) [OF pos] pow2_le_mono have "\<not> e + 53 \<le> log2_floor n d" by blast
  then have upper: "log2_floor n d < e + 53" by simp
  have "log2_floor n d = e + 52" if "2 ^ 52 \<le> m"
    using that \<open>\<not> pow2_le (e + 53) n d\<close> pow2_le_dyadic [of e "e + 52" m]
    by (intro log2_floor_unique pos) (simp_all add: n_def d_def add.assoc)
  with upper assms(3) have e: "log2_floor n d \<le> e + 52" "e + 52 = max (log2_floor n d) (- 1022)" by auto
  have "n * 2 ^ nat (52 - (e + 52)) = m * (d * 2 ^ nat (e + 52 - 52))"
    by (simp add: n_def d_def mult_ac)
  moreover have "nat (e + 1074) * 2 ^ 52 + m < 2047 * 2 ^ 52"
  proof -
    have "nat (e + 1074) \<le> 2045" using assms(3) by auto
    then have "nat (e + 1074) * 2 ^ 52 \<le> 2045 * 2 ^ 52" by (rule mult_le_mono1)
    with assms(2) show ?thesis by simp
  qed
  ultimately show ?thesis
    using float_bits_log [OF pos(1) e _ pos(2)] by (simp add: n_def d_def)
qed

text \<open>The parser is exact on the value of a finite double that is not zero.\<close>

lemma float_fraction_exact:
  assumes "magnitude_bits x \<noteq> 0" "f64_exponent x \<noteq> 2047"
  obtains m j where "float_fraction x = (m, 2 ^ j)" "0 < m" "float_bits m (2 ^ j) = Some (magnitude_bits x)"
proof (cases "f64_exponent x = 0")
  case True
  with assms(1) have m: "0 < f64_fraction x" by (simp add: magnitude_parts)
  have "float_bits (f64_fraction x * 2 ^ nat (- 1074)) (2 ^ nat (- (- 1074))) =
      Some (nat (- 1074 + 1074) * 2 ^ 52 + f64_fraction x)"
    using fraction_bound [of x] by (intro float_bits_dyadic m) simp_all
  then have "float_bits (f64_fraction x) (2 ^ nat 1074) = Some (magnitude_bits x)"
    unfolding magnitude_parts True by (simp only: minus_minus) simp
  moreover have "float_fraction x = (f64_fraction x, 2 ^ nat 1074)"
    using True by (simp only: float_fraction_def Let_def if_True minus_minus) simp
  ultimately show thesis using m that by blast
next
  case False
  define e where "e = int (f64_exponent x) - 1075"
  define m where "m = f64_fraction x + 2 ^ 52"
  have k: "f64_exponent x < 2047"
    using assms(2) mod_less_divisor [of "2 ^ 11" "unat x div 2 ^ 52"] by (simp add: f64_exponent_def)
  have frac: "float_fraction x = (m * 2 ^ nat e, 2 ^ nat (- e))"
    using False by (simp add: float_fraction_def m_def e_def Let_def)
  have "float_bits (m * 2 ^ nat e) (2 ^ nat (- e)) = Some (nat (e + 1074) * 2 ^ 52 + m)"
    using fraction_bound [of x] False k by (intro float_bits_dyadic) (auto simp: m_def e_def)
  moreover have "nat (e + 1074) * 2 ^ 52 + m = magnitude_bits x"
  proof -
    have "nat (e + 1074) = f64_exponent x - 1" by (simp add: e_def)
    with False show ?thesis unfolding magnitude_parts m_def by (cases "f64_exponent x") simp_all
  qed
  ultimately show thesis using frac that by (simp add: m_def)
qed

section \<open>The digits of a double\<close>

lemma decimal_fraction_scale:
  "float_bits (fst (decimal_fraction (m * 10) p)) (snd (decimal_fraction (m * 10) p)) =
   float_bits (fst (decimal_fraction m (p + 1))) (snd (decimal_fraction m (p + 1)))"
proof (cases "0 \<le> p")
  case True
  then have "nat (p + 1) = Suc (nat p)" by simp
  with True show ?thesis by (simp add: decimal_fraction_def mult.assoc)
next
  case False
  then have "nat p = 0" "nat (p + 1) = 0" "nat (- p) = Suc (nat (- (p + 1)))" by auto
  with float_bits_scale [of 10 "10 ^ nat (- (p + 1))" m] show ?thesis
    by (simp add: decimal_fraction_def mult.commute)
qed

lemma reads_back_iff:
  "reads_back bits p m \<longleftrightarrow> float_bits (fst (decimal_fraction m p)) (snd (decimal_fraction m p)) = Some bits"
  by (simp add: reads_back_def split_beta)

lemma strip_zeros_reads_back:
  "m \<noteq> 0 \<Longrightarrow> reads_back bits p m \<Longrightarrow>
    reads_back bits (snd (strip_zeros m p)) (fst (strip_zeros m p)) \<and> fst (strip_zeros m p) \<noteq> 0"
proof (induction m p rule: strip_zeros.induct)
  case (1 m p)
  show ?case
  proof (cases "m mod 10 = 0")
    case True
    then have m: "m div 10 * 10 = m" by presburger
    with 1 have "m div 10 \<noteq> 0" by auto
    moreover have "reads_back bits (p + 1) (m div 10)"
      using "1.prems"(2) decimal_fraction_scale [of "m div 10" p] by (simp add: reads_back_iff m)
    ultimately show ?thesis using 1 True by (simp add: strip_zeros.simps [of m p])
  next
    case False
    with 1 show ?thesis by (simp add: strip_zeros.simps [of m p])
  qed
qed

lemma digits_of_length_reads_back: "digits_of_length bits n d c = Some (m, p) \<Longrightarrow> reads_back bits p m"
  by (auto simp: digits_of_length_def Let_def split: if_splits)

lemma first_some_Some: "first_some xs = Some x \<Longrightarrow> Some x \<in> set xs"
  by (induction xs rule: first_some.induct) auto

lemma reads_back_nonzero: "reads_back bits p m \<Longrightarrow> bits \<noteq> 0 \<Longrightarrow> m \<noteq> 0"
  by (cases "m = 0") (auto simp: reads_back_def decimal_fraction_def float_bits_def)

lemma bit_length_power: "bit_length (2 ^ j) = Suc j"
  by (induction j) (simp_all add: bit_length.simps [of "Suc 0"] bit_length.simps [of 0] bit_length.simps [of "2 * _"])

lemma exact_digits_read_back:
  assumes "float_bits n (2 ^ j) = Some bits"
  shows "reads_back bits (- int j) (n * 5 ^ j)"
proof -
  have "(10 :: nat) ^ j = 5 ^ j * 2 ^ j" by (simp flip: power_mult_distrib)
  with float_bits_scale [of "5 ^ j" "2 ^ j" n] assms show ?thesis
    by (simp add: reads_back_def decimal_fraction_def mult.commute)
qed

lemma shortest_digits_read_back:
  assumes "magnitude_bits x \<noteq> 0" "f64_exponent x \<noteq> 2047" "shortest_digits x = (m, p)"
  shows "reads_back (magnitude_bits x) p m" "m \<noteq> 0"
proof -
  obtain n j where x: "float_fraction x = (n, 2 ^ j)" "0 < n" "float_bits n (2 ^ j) = Some (magnitude_bits x)"
    using float_fraction_exact [OF assms(1,2)] .
  let ?tries = "map (digits_of_length (magnitude_bits x) n (2 ^ j)) [1..<18]"
  have "reads_back (magnitude_bits x) p m \<and> m \<noteq> 0"
  proof (cases "first_some ?tries")
    case None
    with assms(3) have "m = n * 5 ^ j" "p = - int j"
      by (simp_all add: shortest_digits_def x(1) bit_length_power del: upt_rec_numeral)
    with exact_digits_read_back [OF x(3)] x(2) show ?thesis by simp
  next
    case (Some mp)
    obtain m0 p0 where mp: "mp = (m0, p0)" by fastforce
    have "mp \<in> {mp. \<exists>c. digits_of_length (magnitude_bits x) n (2 ^ j) c = Some mp}"
      using first_some_Some [OF Some] by (auto simp del: upt_rec_numeral)
    then have m0: "reads_back (magnitude_bits x) p0 m0" by (auto simp: mp dest: digits_of_length_reads_back)
    have "m0 \<noteq> 0" by (rule reads_back_nonzero [OF m0 assms(1)])
    from strip_zeros_reads_back [OF this m0] assms(3) Some show ?thesis
      by (simp add: shortest_digits_def x(1) mp del: upt_rec_numeral)
  qed
  then show "reads_back (magnitude_bits x) p m" "m \<noteq> 0" by simp_all
qed

section \<open>Numerals\<close>

definition digits :: "string \<Rightarrow> bool" where
  "digits w \<longleftrightarrow> w \<noteq> [] \<and> list_all is_digit w"

lemma byte_is: "byte d = n \<Longrightarrow> byte c = n \<longleftrightarrow> c = d"
  by auto

lemma digits_format_nat [simp]: "digits (format_nat n)"
  by (simp add: digits_def format_nat_digits)

lemma digit_char_zero: "d < 10 \<Longrightarrow> digit_char d = CHR ''0'' \<longleftrightarrow> d = 0"
  using byte_is [of "CHR ''0''" 48 "digit_char d"] by simp

lemma format_nat_leading: "n \<noteq> 0 \<Longrightarrow> hd (format_nat n) \<noteq> CHR ''0''"
proof (induction n rule: format_nat.induct)
  case (1 n)
  show ?case
  proof (cases "n < 10")
    case True
    then show ?thesis using 1(2) by (simp add: format_nat_unfold(1) digit_char_zero)
  next
    case False
    with 1 show ?thesis by (simp add: format_nat_unfold(2))
  qed
qed

lemma digits_append: "digits v \<Longrightarrow> list_all is_digit w \<Longrightarrow> digits (v @ w)"
  "digits w \<Longrightarrow> list_all is_digit v \<Longrightarrow> digits (v @ w)"
  by (simp_all add: digits_def)

lemma zero_digits: "list_all is_digit (replicate n CHR ''0'')"
  by (simp add: list_all_iff is_digit_def)

lemma digits_take_drop:
  "digits ds \<Longrightarrow> 0 < n \<Longrightarrow> digits (take n ds)" "digits ds \<Longrightarrow> n < length ds \<Longrightarrow> digits (drop n ds)"
  by (auto simp: digits_def list_all_iff dest: in_set_takeD in_set_dropD)

lemma is_digit_not_punct: "is_digit c \<Longrightarrow> c \<notin> set ''.eE+-''"
  by (auto simp: is_digit_def)

lemma parse_nat_append_zeros: "parse_nat (ds @ replicate k CHR ''0'') = parse_nat ds * 10 ^ k"
  by (induction k) (simp_all add: replicate_append_same [symmetric] parse_nat_snoc digit_val_def flip: append_assoc)

lemma parse_nat_zeros_append: "parse_nat (replicate k CHR ''0'' @ ds) = parse_nat ds"
proof -
  have "foldl (\<lambda>a c. a * 10 + digit_val c) 0 (replicate k CHR ''0'') = 0"
    by (induction k) (simp_all add: digit_val_def)
  then show ?thesis by (simp add: parse_nat_def)
qed

text \<open>The parts of a numeral are found again; the sign, the point and the exponent end the digits.\<close>

lemma takeWhile_digits:
  "list_all is_digit w \<Longrightarrow> r = [] \<or> \<not> is_digit (hd r) \<Longrightarrow>
    takeWhile is_digit (w @ r) = w \<and> dropWhile is_digit (w @ r) = r"
  by (induction w) (cases r; auto)+

definition exponent_text :: "string \<Rightarrow> bool" where
  "exponent_text x \<longleftrightarrow> x = [] \<or> (\<exists>g ds. x = CHR ''e'' # g # ds \<and> g \<in> set ''+-'' \<and> digits ds)"

lemma numeral_parts_whole:
  assumes "g = [] \<or> g = ''-''" "digits i" "exponent_text x"
  shows "numeral_parts (g @ i @ x) = (g = ''-'', parse_nat i, exponent_value (tl x))"
proof -
  have i: "list_all is_digit i" "take 1 (i @ x) \<noteq> ''-''"
    using assms(2) by (cases i; auto simp: digits_def dest: is_digit_not_sign)+
  have x: "x = [] \<or> \<not> is_digit (hd x)" "take 1 x \<noteq> ''.''"
    using assms(3) by (auto simp: exponent_text_def is_digit_def)
  from takeWhile_digits [OF i(1) x(1)] i(2) x(2) assms(1) show ?thesis
    by (auto simp: numeral_parts_def Let_def)
qed

lemma numeral_parts_point:
  assumes "g = [] \<or> g = ''-''" "digits i" "digits f" "exponent_text x"
  shows "numeral_parts (g @ i @ ''.'' @ f @ x) = (g = ''-'', parse_nat (i @ f), exponent_value (tl x) - len f)"
proof -
  have i: "list_all is_digit i" "take 1 (i @ ''.'' @ f @ x) \<noteq> ''-''" and f: "list_all is_digit f"
    using assms(2,3) by (cases i; auto simp: digits_def dest: is_digit_not_sign)+
  have p: "''.'' @ f @ x = [] \<or> \<not> is_digit (hd (''.'' @ f @ x))" by (simp add: is_digit_def)
  have x: "x = [] \<or> \<not> is_digit (hd x)"
    using assms(4) by (auto simp: exponent_text_def is_digit_def)
  from takeWhile_digits [OF i(1) p] takeWhile_digits [OF f x] i(2) assms(1) show ?thesis
    by (auto simp: numeral_parts_def Let_def)
qed

section \<open>The round trip\<close>

lemma exponent_text_Nil [simp]: "exponent_text []"
  by (simp add: exponent_text_def)

lemma fixed_notation_value:
  assumes "g = [] \<or> g = ''-''" "digits ds"
  obtains m p where "numeral_parts (g @ fixed_notation ds point) = (g = ''-'', m, p)"
    "decimal_fraction m p = decimal_fraction (parse_nat ds) (point - len ds)"
proof -
  note point = numeral_parts_point [OF assms(1) _ _ exponent_text_Nil]
  consider "point \<le> 0" | "0 < point" "len ds \<le> point" | "0 < point" "point < len ds" by linarith
  then show thesis
  proof cases
    case 1
    have "digits ''0''" by (simp add: digits_def is_digit_def)
    moreover have "parse_nat (''0'' @ replicate (nat (- point)) CHR ''0'' @ ds) = parse_nat ds"
      using parse_nat_zeros_append [of "Suc (nat (- point))" ds] by simp
    ultimately show thesis
      using that [of "parse_nat ds" "point - len ds"] 1
        point [of "''0''" "replicate (nat (- point)) CHR ''0'' @ ds"] digits_append(2) [OF assms(2) zero_digits]
      by (simp add: fixed_notation_def exponent_value_def)
  next
    case 2
    have "decimal_fraction (parse_nat ds * 10 ^ nat (point - len ds)) 0 =
        decimal_fraction (parse_nat ds) (point - len ds)"
      using 2 by (simp add: decimal_fraction_def)
    then show thesis
      using that 2 numeral_parts_whole [OF assms(1) digits_append(1) [OF assms(2) zero_digits] exponent_text_Nil,
          of "nat (point - len ds)"]
      by (simp add: fixed_notation_def exponent_value_def parse_nat_append_zeros)
  next
    case 3
    then have "0 < nat point" "nat point < length ds" by linarith+
    with that [of "parse_nat ds" "point - len ds"] 3
      point [of "take (nat point) ds" "drop (nat point) ds"] digits_take_drop [OF assms(2)]
    show thesis by (simp add: fixed_notation_def exponent_value_def of_nat_diff)
  qed
qed

lemma exponent_value_signed:
  "exponent_value ((if e < 0 then ''-'' else ''+'') @ format_nat (nat \<bar>e\<bar>)) = e"
  by (simp add: exponent_value_def)

lemma exponent_notation_value:
  assumes "g = [] \<or> g = ''-''" "digits ds"
  shows "numeral_parts (g @ exponent_notation ds point) = (g = ''-'', parse_nat ds, point - len ds)"
proof -
  define x where "x = (if point - 1 < 0 then ''e-'' else ''e+'') @ format_nat (nat \<bar>point - 1\<bar>)"
  have x: "exponent_text x" by (auto simp: x_def exponent_text_def)
  have ev: "exponent_value (tl x) = point - 1"
    using exponent_value_signed [of "point - 1"] by (simp add: x_def split: if_splits)
  from assms(2) obtain c q where ds: "ds = c # q" "is_digit c" "list_all is_digit q"
    by (cases ds) (auto simp: digits_def)
  have c: "digits [c]" using ds by (simp add: digits_def)
  have shape: "exponent_notation (c # q) point = [c] @ (if q = [] then [] else ''.'' @ q) @ x"
    by (simp add: exponent_notation_def x_def)
  show ?thesis
  proof (cases "q = []")
    case True
    with numeral_parts_whole [OF assms(1) c x] ev show ?thesis unfolding ds(1) shape by simp
  next
    case False
    then have "digits q" using ds(3) by (simp add: digits_def)
    from False numeral_parts_point [OF assms(1) c this x] ev show ?thesis unfolding ds(1) shape by simp
  qed
qed

lemma ParseFloat_parts:
  assumes "numeral_parts s = (f64_sign x, m, p)" "reads_back (magnitude_bits x) p m"
  shows "ParseFloat s = Some x"
proof -
  have "magnitude_bits x + (if f64_sign x then 2 ^ 63 else 0) = unat x"
  proof (cases "f64_sign x")
    case True
    then have "2 ^ 63 \<le> unat x" by (simp add: f64_sign_def)
    moreover have "unat x < 2 ^ 63 + 2 ^ 63" using unsigned_less [of x] by simp
    ultimately have "unat x mod 2 ^ 63 = unat x - 2 ^ 63" by (simp only: le_mod_geq mod_less less_diff_conv2)
    with \<open>2 ^ 63 \<le> unat x\<close> have "unat x = 2 ^ 63 + unat x mod 2 ^ 63" by linarith
    with True show ?thesis by (simp add: magnitude_bits_def)
  next
    case False
    then show ?thesis by (simp add: f64_sign_def magnitude_bits_def)
  qed
  then have "word_of_nat (magnitude_bits x + (if f64_sign x then 2 ^ 63 else 0)) = x"
    by (simp only: unsigned_of_nat of_nat_unat ucast_id)
  with assms show ?thesis
    by (simp only: ParseFloat_def reads_back_def split_beta fst_conv snd_conv option.map)
qed

theorem ParseFloat_json_float:
  assumes "\<not> IsNaN x" "\<not> IsInf x"
  shows "ParseFloat (json_float x) = Some x"
proof -
  have finite: "f64_exponent x \<noteq> 2047" using assms by (auto simp: IsNaN_def IsInf_def)
  define g where "g = (if f64_sign x then ''-'' else [])"
  have g: "g = [] \<or> g = ''-''" "(g = ''-'') = f64_sign x" by (simp_all add: g_def)
  show ?thesis
  proof (cases "magnitude_bits x = 0")
    case True
    have "numeral_parts (g @ ''0'' @ []) = (f64_sign x, 0, 0)"
      using numeral_parts_whole [OF g(1), of "''0''" "[]"] g(2)
      by (simp add: digits_def is_digit_def parse_nat_def digit_val_def exponent_value_def)
    moreover have "reads_back (magnitude_bits x) 0 0"
      by (simp add: True reads_back_def decimal_fraction_def float_bits_def)
    ultimately show ?thesis using True ParseFloat_parts by (simp add: json_float_def flip: g_def)
  next
    case False
    obtain m p where mp: "shortest_digits x = (m, p)" by fastforce
    let ?ds = "format_nat m"
    define w where "w = (if magnitude_bits x < 4517329193108106637 \<or> 4921056587992461136 \<le> magnitude_bits x
      then exponent_notation ?ds (len ?ds + p) else fixed_notation ?ds (len ?ds + p))"
    obtain m' p' where parts: "numeral_parts (g @ w) = (g = ''-'', m', p')"
      and same: "decimal_fraction m' p' = decimal_fraction m p"
      using exponent_notation_value [OF g(1), of ?ds "len ?ds + p"]
        fixed_notation_value [OF g(1), of ?ds "len ?ds + p"]
      by (cases "magnitude_bits x < 4517329193108106637 \<or> 4921056587992461136 \<le> magnitude_bits x")
        (auto simp: w_def)
    have "reads_back (magnitude_bits x) p' m'"
      using shortest_digits_read_back(1) [OF False finite mp] by (simp add: reads_back_def same)
    moreover have "json_float x = g @ w"
      using False by (simp add: json_float_def mp w_def Let_def flip: g_def)
    ultimately show ?thesis using ParseFloat_parts parts g(2) by simp
  qed
qed

end
