(* ===== verification/JsonMarshal.thy ===== *)
theory JsonMarshal
  imports JsonUnmarshal FloatText "HOL-Library.List_Lexorder"
begin

text \<open>
  \<open>json.Marshal\<close>, with the types and values of \<open>json.Unmarshal\<close>: from a value to a JSON
  tree, and from the tree to the text, with the escaping the package applies by default.
  The lemmas show that the text is read back as the tree, with every string made
  well-formed UTF-8 on the way.
\<close>

section \<open>The tree of a value\<close>

text \<open>What \<open>omitempty\<close> drops: a struct is never empty.\<close>

fun is_empty :: "goval \<Rightarrow> bool" where
  "is_empty (VString s) = (s = [])"
| "is_empty (VBool b) = (\<not> b)"
| "is_empty (VInt i) = (i = 0)"
| "is_empty (VUint i) = (i = 0)"
| "is_empty (VFloat x) = (magnitude_bits x = 0)"
| "is_empty (VBytes bs hidden) = (bs = None \<or> bs = Some [])"
| "is_empty (VPtr p) = (p = None)"
| "is_empty (VSlice vs hidden) = (vs = None \<or> vs = Some [])"
| "is_empty (VMap m) = (m = None \<or> m = Some [])"
| "is_empty (VStruct vs) = False"

definition omitempty :: "string \<Rightarrow> bool" where
  "omitempty tag \<longleftrightarrow> dropWhile (\<lambda>c. c \<noteq> CHR '','') tag = '',omitempty''"

definition by_key :: "(string \<times> json) list \<Rightarrow> (string \<times> json) list" where
  "by_key ms = sort_key (\<lambda>m. map (of_char :: char \<Rightarrow> nat) (fst m)) ms"

text \<open>
  There is none for a double that is infinite or not a number: the call fails. The entries
  of a map are sorted by key.
\<close>

fun tree :: "gotype \<Rightarrow> goval \<Rightarrow> json option"
  and tree_elements :: "gotype \<Rightarrow> goval list \<Rightarrow> json list option"
  and tree_fields :: "(string \<times> gotype) list \<Rightarrow> goval list \<Rightarrow> (string \<times> json) list option"
  and tree_entries :: "gotype \<Rightarrow> (string \<times> goval) list \<Rightarrow> (string \<times> json) list option"
where
  "tree GString v = Some (JString (as_string v))"
| "tree GBool v = Some (JBool (as_bool v))"
| "tree GInt v = Some (JNumber (FormatInt (sint (as_int v))))"
| "tree GUint v = Some (JNumber (format_nat (unat (as_uint v))))"
| "tree GFloat v =
     (if IsNaN (as_float v) \<or> IsInf (as_float v) then None else Some (JNumber (json_float (as_float v))))"
| "tree GBytes v = (case v of VBytes (Some bs) hidden \<Rightarrow> Some (JString (base64 bs)) | _ \<Rightarrow> Some JNull)"
| "tree (GPtr t) v = (case v of VPtr (Some w) \<Rightarrow> tree t w | _ \<Rightarrow> Some JNull)"
| "tree (GSlice t) v =
     (case v of VSlice (Some vs) hidden \<Rightarrow> map_option JArray (tree_elements t vs) | _ \<Rightarrow> Some JNull)"
| "tree (GMap t) v =
     (case v of VMap (Some es) \<Rightarrow> map_option (\<lambda>ms. JObject (by_key ms)) (tree_entries t es) | _ \<Rightarrow> Some JNull)"
| "tree (GStruct fs) v = map_option JObject (tree_fields fs (fields_of v))"
| "tree_elements t [] = Some []"
| "tree_elements t (v # vs) =
     (case (tree t v, tree_elements t vs) of (Some j, Some js) \<Rightarrow> Some (j # js) | _ \<Rightarrow> None)"
| "tree_fields ((tag, t) # fs) (v # vs) =
     (if omitempty tag \<and> is_empty v then tree_fields fs vs
      else (case (tree t v, tree_fields fs vs) of
              (Some j, Some ms) \<Rightarrow> Some ((field_name tag, j) # ms) | _ \<Rightarrow> None))"
| "tree_fields fs vs = Some []"
| "tree_entries t [] = Some []"
| "tree_entries t ((k, v) # es) =
     (case (tree t v, tree_entries t es) of (Some j, Some ms) \<Rightarrow> Some ((k, j) # ms) | _ \<Rightarrow> None)"

section \<open>The text\<close>

text \<open>
  \<open>appendString\<close>: quotes, backslashes, control characters, the characters HTML gives a
  meaning and the two line separators are escaped; a byte that is no part of well-formed
  UTF-8 is written as the escape of U+FFFD.
\<close>

definition escape_byte :: "char \<Rightarrow> string" where
  "escape_byte c =
     (if c = backslash \<or> c = quote then [backslash, c]
      else if byte c = 8 then backslash # ''b''
      else if byte c = 12 then backslash # ''f''
      else if byte c = 10 then backslash # ''n''
      else if byte c = 13 then backslash # ''r''
      else if byte c = 9 then backslash # ''t''
      else if byte c < 32 \<or> c \<in> set ''<>&''
      then backslash # ''u00'' @ [hex_digit (byte c div 16), hex_digit (byte c mod 16)]
      else [c])"

definition line_separator :: "string \<Rightarrow> string option" where
  "line_separator w =
     (if w = map char_of [226, 128, 168 :: nat] then Some (backslash # ''u2028'')
      else if w = map char_of [226, 128, 169 :: nat] then Some (backslash # ''u2029'')
      else None)"

definition escape_rune :: "string \<Rightarrow> string" where
  "escape_rune w = (case line_separator w of Some e \<Rightarrow> e | None \<Rightarrow> w)"

function escape_string :: "string \<Rightarrow> string" where
  "escape_string s =
     (case s of
        [] \<Rightarrow> []
      | c # r \<Rightarrow>
          if byte c < 128 then escape_byte c @ escape_string r
          else
            (case utf8_rest s of
               Some t \<Rightarrow> escape_rune (take (length s - length t) s) @ escape_string t
             | None \<Rightarrow> (backslash # ''ufffd'') @ escape_string r))"
  by pat_completeness auto
termination
  by (relation "measure length") (auto dest: utf8_rest_shorter simp del: utf8_rest.simps)

declare escape_string.simps [simp del]

definition print_string :: "string \<Rightarrow> string" where
  "print_string s = quote # escape_string s @ [quote]"

fun print_json :: "json \<Rightarrow> string"
  and print_elements :: "json list \<Rightarrow> string"
  and print_members :: "(string \<times> json) list \<Rightarrow> string"
where
  "print_json JNull = ''null''"
| "print_json (JBool b) = (if b then ''true'' else ''false'')"
| "print_json (JNumber s) = s"
| "print_json (JString s) = print_string s"
| "print_json (JArray vs) = CHR ''['' # print_elements vs"
| "print_json (JObject ms) = CHR ''{'' # print_members ms"
| "print_elements [] = '']''"
| "print_elements [v] = print_json v @ '']''"
| "print_elements (v # w # vs) = print_json v @ '','' @ print_elements (w # vs)"
| "print_members [] = ''}''"
| "print_members [(k, v)] = print_string k @ '':'' @ print_json v @ ''}''"
| "print_members ((k, v) # m # ms) = print_string k @ '':'' @ print_json v @ '','' @ print_members (m # ms)"

section \<open>Strings are read back\<close>

function to_valid :: "string \<Rightarrow> string" where
  "to_valid s =
     (case s of
        [] \<Rightarrow> []
      | c # r \<Rightarrow>
          if byte c < 128 then c # to_valid r
          else
            (case utf8_rest s of
               Some t \<Rightarrow> take (length s - length t) s @ to_valid t
             | None \<Rightarrow> replacement_char @ to_valid r))"
  by pat_completeness auto
termination
  by (relation "measure length") (auto dest: utf8_rest_shorter simp del: utf8_rest.simps)

declare to_valid.simps [simp del]

text \<open>A rune is its bytes, whatever follows it.\<close>

lemma utf8_rest_rune:
  "utf8_rest s = Some t \<Longrightarrow> 128 \<le> byte (hd s) \<Longrightarrow>
    \<exists>w. s = w @ t \<and> w \<noteq> [] \<and> (\<forall>c \<in> set w. 128 \<le> byte c) \<and> (\<forall>q. utf8_rest (w @ q) = Some q)"
  by (cases s) (auto simp: utf8_cont_def split: if_splits list.splits)

lemma escape_string_Nil [simp]: "escape_string [] = []"
  by (simp add: escape_string.simps)

lemma to_valid_Nil [simp]: "to_valid [] = []"
  by (simp add: to_valid.simps)

lemma escape_string_ascii: "byte c < 128 \<Longrightarrow> escape_string (c # r) = escape_byte c @ escape_string r"
  by (subst escape_string.simps) simp

lemma to_valid_ascii: "byte c < 128 \<Longrightarrow> to_valid (c # r) = c # to_valid r"
  by (subst to_valid.simps) simp

lemma escape_string_rune:
  assumes "w \<noteq> []" "\<forall>c \<in> set w. 128 \<le> byte c" "\<forall>q. utf8_rest (w @ q) = Some q"
  shows "escape_string (w @ t) = escape_rune w @ escape_string t"
    and "to_valid (w @ t) = w @ to_valid t"
proof -
  from assms(1) obtain c r where w: "w = c # r" by (cases w) auto
  with assms have c: "\<not> byte c < 128" "utf8_rest (c # r @ t) = Some t" by auto
  from c show "escape_string (w @ t) = escape_rune w @ escape_string t"
    by (subst escape_string.simps) (simp add: w del: utf8_rest.simps)
  from c show "to_valid (w @ t) = w @ to_valid t"
    by (subst to_valid.simps) (simp add: w del: utf8_rest.simps)
qed

lemma escape_string_stray:
  assumes "\<not> byte c < 128" "utf8_rest (c # r) = None"
  shows "escape_string (c # r) = backslash # ''ufffd'' @ escape_string r"
    and "to_valid (c # r) = replacement_char @ to_valid r"
  using assms by (subst escape_string.simps to_valid.simps; simp del: utf8_rest.simps)+

lemma string_pieces [case_names Nil ascii rune stray]:
  assumes "P []"
    and "\<And>c r. byte c < 128 \<Longrightarrow> P r \<Longrightarrow> P (c # r)"
    and "\<And>w t. w \<noteq> [] \<Longrightarrow> \<forall>c \<in> set w. 128 \<le> byte c \<Longrightarrow> \<forall>q. utf8_rest (w @ q) = Some q \<Longrightarrow> P t \<Longrightarrow> P (w @ t)"
    and "\<And>c r. \<not> byte c < 128 \<Longrightarrow> utf8_rest (c # r) = None \<Longrightarrow> P r \<Longrightarrow> P (c # r)"
  shows "P s"
proof (induction s rule: length_induct)
  case (1 s)
  show ?case
  proof (cases s)
    case Nil
    with assms(1) show ?thesis by simp
  next
    case (Cons c r)
    with 1 have r: "P r" by simp
    show ?thesis
    proof (cases "byte c < 128")
      case True
      with assms(2) r Cons show ?thesis by simp
    next
      case False
      show ?thesis
      proof (cases "utf8_rest s")
        case None
        with assms(4) False r Cons show ?thesis by simp
      next
        case (Some t)
        from utf8_rest_rune [OF Some] False Cons obtain w where
          w: "s = w @ t" "w \<noteq> []" "\<forall>c \<in> set w. 128 \<le> byte c" "\<forall>q. utf8_rest (w @ q) = Some q" by auto
        with 1 have "P t" using utf8_rest_shorter [OF Some] by blast
        with assms(3) w show ?thesis by blast
      qed
    qed
  qed
qed

text \<open>Each piece is scanned and unquoted by itself.\<close>

lemma byte_eq: "n < 256 \<Longrightarrow> byte c = n \<longleftrightarrow> c = char_of n"
  by auto

lemma hex_pair: "n < 256 \<Longrightarrow> hex4 [CHR ''0'', CHR ''0'', hex_digit (n div 16), hex_digit (n mod 16)] = Some n"
proof -
  assume "n < 256"
  then have "n div 16 < 16" by (simp add: less_mult_imp_div_less)
  then have "hex_val (hex_digit (n div 16)) = Some (n div 16)" "hex_val (hex_digit (n mod 16)) = Some (n mod 16)"
    by simp_all
  moreover have "hex_val CHR ''0'' = Some 0" by (simp add: hex_val_def)
  ultimately show ?thesis by (simp add: hex4_def)
qed

text \<open>The bytes with a short escape, those written in hexadecimal, and the others.\<close>

lemma short_escape_bytes:
  "byte c = 8 \<longleftrightarrow> c = CHR 0x08" "byte c = 12 \<longleftrightarrow> c = CHR 0x0C" "byte c = 10 \<longleftrightarrow> c = CHR 0x0A"
  "byte c = 13 \<longleftrightarrow> c = CHR 0x0D" "byte c = 9 \<longleftrightarrow> c = CHR 0x09"
  by (rule byte_is, simp)+

lemma escape_byte_short:
  "c = backslash \<or> c = quote \<Longrightarrow> escape_byte c = [backslash, c]"
  "escape_byte CHR 0x08 = backslash # ''b''" "escape_byte CHR 0x0C = backslash # ''f''"
  "escape_byte CHR 0x0A = backslash # ''n''" "escape_byte CHR 0x0D = backslash # ''r''"
  "escape_byte CHR 0x09 = backslash # ''t''"
  by (simp_all add: escape_byte_def)

lemma escaped_short:
  "escaped quote = Some quote" "escaped backslash = Some backslash"
  "escaped CHR ''b'' = Some CHR 0x08" "escaped CHR ''f'' = Some CHR 0x0C" "escaped CHR ''n'' = Some CHR 0x0A"
  "escaped CHR ''r'' = Some CHR 0x0D" "escaped CHR ''t'' = Some CHR 0x09"
  by (simp_all add: escaped_def)

definition short_escapes :: "char list" where
  "short_escapes = [backslash, quote, CHR 0x08, CHR 0x0C, CHR 0x0A, CHR 0x0D, CHR 0x09]"

lemma escape_byte_long:
  "c \<notin> set short_escapes \<Longrightarrow>
    escape_byte c =
      (if byte c < 32 \<or> c \<in> set ''<>&''
       then backslash # ''u00'' @ [hex_digit (byte c div 16), hex_digit (byte c mod 16)] else [c])"
  by (simp add: escape_byte_def short_escapes_def short_escape_bytes del: of_char_eq_iff)

lemma escape_byte_cases:
  obtains (short) e where "escape_byte c = [backslash, e]" "e \<in> set (quote # backslash # ''/bfnrt'')"
      "escaped e = Some c"
    | (hex) "byte c < 128"
        "escape_byte c = backslash # ''u00'' @ [hex_digit (byte c div 16), hex_digit (byte c mod 16)]"
    | (plain) "escape_byte c = [c]" "c \<noteq> backslash" "c \<noteq> quote" "\<not> byte c < 32"
proof (cases "c \<in> set short_escapes")
  case True
  then consider "c = backslash" | "c = quote" | "c = CHR 0x08" | "c = CHR 0x0C" | "c = CHR 0x0A"
    | "c = CHR 0x0D" | "c = CHR 0x09"
    unfolding short_escapes_def list.set insert_iff empty_iff by blast
  then show thesis
  proof cases
    case 1 show thesis by (rule short [of "backslash"]) (simp_all add: 1 escape_byte_short escaped_short)
  next
    case 2 show thesis by (rule short [of "quote"]) (simp_all add: 2 escape_byte_short escaped_short)
  next
    case 3 show thesis by (rule short [of "CHR ''b''"]) (simp_all add: 3 escape_byte_short escaped_short)
  next
    case 4 show thesis by (rule short [of "CHR ''f''"]) (simp_all add: 4 escape_byte_short escaped_short)
  next
    case 5 show thesis by (rule short [of "CHR ''n''"]) (simp_all add: 5 escape_byte_short escaped_short)
  next
    case 6 show thesis by (rule short [of "CHR ''r''"]) (simp_all add: 6 escape_byte_short escaped_short)
  next
    case 7 show thesis by (rule short [of "CHR ''t''"]) (simp_all add: 7 escape_byte_short escaped_short)
  qed
next
  case long: False
  show thesis
  proof (cases "byte c < 32 \<or> c \<in> set ''<>&''")
    case True
    then have "byte c < 128" by (elim disjE) (simp, auto)
    with True long show thesis by (intro hex) (simp_all add: escape_byte_long)
  next
    case False
    with long show thesis by (intro plain) (simp_all add: escape_byte_long, auto simp: short_escapes_def)
  qed
qed

lemma escape_byte_scan: "scan_string (escape_byte c @ q) = prepend (escape_byte c) (scan_string q)"
proof (cases c rule: escape_byte_cases)
  case (short e)
  then show ?thesis by (simp only: append.simps scan_string.simps) (auto simp: prepend_def)
next
  case hex
  have "hex_val (hex_digit (byte c div 16)) \<noteq> None" "hex_val (hex_digit (byte c mod 16)) \<noteq> None"
    using hex(1) by (simp_all add: less_mult_imp_div_less)
  moreover have "hex_val CHR ''0'' \<noteq> None" by (simp add: hex_val_def)
  ultimately show ?thesis by (simp add: hex(2))
next
  case plain
  then show ?thesis by simp
qed

lemma escape_byte_unquote:
  assumes "byte c < 128"
  shows "unquote (escape_byte c @ q) = map_option (Cons c) (unquote q)"
proof (cases c rule: escape_byte_cases)
  case (short e)
  have "e \<noteq> CHR ''u''" using short(2) by auto
  with short show ?thesis by (simp add: unquote_simple)
next
  case hex
  have "getu4 (backslash # CHR ''u'' # CHR ''0'' # CHR ''0'' # hex_digit (byte c div 16) # hex_digit (byte c mod 16) # q) =
      Some (byte c)"
    using assms hex_pair [of "byte c"] by (simp add: getu4_def)
  moreover have "EncodeRune (byte c) = [c]" "\<not> is_surrogate (byte c)"
    using assms by (simp_all add: EncodeRune_def is_surrogate_def)
  ultimately show ?thesis
    using unquote_u [of "CHR ''0'' # CHR ''0'' # hex_digit (byte c div 16) # hex_digit (byte c mod 16) # q" "byte c"]
    by (simp add: hex(2) comp_def fun_eq_iff cong: option.map_cong)
next
  case plain
  moreover have "(@) [c] = (#) c" by auto
  ultimately show ?thesis using assms by (simp add: unquote_plain)
qed

lemma prepend_prepend [simp]: "prepend a (prepend b x) = prepend (a @ b) x"
  by (cases x) auto

lemma high_bytes_scan: "\<forall>c \<in> set w. 128 \<le> byte c \<Longrightarrow> scan_string (w @ q) = prepend w (scan_string q)"
proof (induction w)
  case Nil
  show ?case by (cases "scan_string q") auto
next
  case (Cons c w)
  then have "c \<noteq> quote" "c \<noteq> backslash" "\<not> byte c < 32" by auto
  with Cons show ?case by (cases "scan_string q") auto
qed

lemma rune_unquote:
  assumes "w \<noteq> []" "\<forall>c \<in> set w. 128 \<le> byte c" "\<forall>q. utf8_rest (w @ q) = Some q"
  shows "unquote (w @ q) = map_option (append w) (unquote q)"
proof -
  from assms(1) obtain c r where w: "w = c # r" by (cases w) auto
  with assms have "c \<noteq> quote" "c \<noteq> backslash" "\<not> byte c < 32" "utf8_rest (c # r @ q) = Some q" by auto
  then show ?thesis by (simp add: w unquote_plain del: utf8_rest.simps)
qed

text \<open>An escape of four hexadecimal digits.\<close>

lemma unicode_escape:
  assumes "hex4 h = Some n" "length h = 4" "\<not> is_surrogate n"
  shows "scan_string (backslash # CHR ''u'' # h @ q) = prepend (backslash # CHR ''u'' # h) (scan_string q)"
    and "unquote (backslash # CHR ''u'' # h @ q) = map_option (append (EncodeRune n)) (unquote q)"
proof -
  from assms(2) obtain h1 h2 h3 h4 where h: "h = [h1, h2, h3, h4]"
    by (auto simp: length_Suc_conv numeral_eq_Suc)
  with assms(1) have "list_all (\<lambda>c. hex_val c \<noteq> None) [h1, h2, h3, h4]"
    by (simp add: hex4_def split: if_splits)
  then show "scan_string (backslash # CHR ''u'' # h @ q) = prepend (backslash # CHR ''u'' # h) (scan_string q)"
    by (simp add: h)
  have "getu4 (backslash # CHR ''u'' # h @ q) = Some n" using assms(1) by (simp add: getu4_def h)
  with assms(3) show "unquote (backslash # CHR ''u'' # h @ q) = map_option (append (EncodeRune n)) (unquote q)"
    by (simp add: unquote_u h)
qed

lemma separator_escapes:
  "hex4 ''2028'' = Some 8232" "hex4 ''2029'' = Some 8233" "hex4 ''fffd'' = Some 65533"
  "EncodeRune 8232 = map char_of [226, 128, 168 :: nat]" "EncodeRune 8233 = map char_of [226, 128, 169 :: nat]"
  "EncodeRune 65533 = replacement_char"
  by (simp_all add: hex4_def hex_val_def EncodeRune_def replacement_char_def)

lemma escape_rune_cases:
  obtains (escaped) h n where "escape_rune w = backslash # CHR ''u'' # h" "hex4 h = Some n" "length h = 4"
      "\<not> is_surrogate n" "EncodeRune n = w"
    | (same) "escape_rune w = w"
proof (cases "line_separator w")
  case None
  then show thesis by (intro same) (simp add: escape_rune_def)
next
  case (Some e)
  then consider "w = EncodeRune 8232" "e = backslash # ''u2028''" | "w = EncodeRune 8233" "e = backslash # ''u2029''"
    unfolding separator_escapes(4,5) by (auto simp: line_separator_def split: if_splits)
  then show thesis
  proof cases
    case 1
    show thesis
      by (rule escaped [of "''2028''" 8232])
        (simp_all add: escape_rune_def Some 1(2) separator_escapes(1) is_surrogate_def, simp only: 1(1))
  next
    case 2
    show thesis
      by (rule escaped [of "''2029''" 8233])
        (simp_all add: escape_rune_def Some 2(2) separator_escapes(2) is_surrogate_def, simp only: 2(1))
  qed
qed

theorem escape_string_scan: "scan_string (escape_string s @ q) = prepend (escape_string s) (scan_string q)"
proof (induction s rule: string_pieces)
  case Nil
  show ?case by (cases "scan_string q") auto
next
  case (ascii c r)
  then show ?case by (cases "scan_string q") (simp_all add: escape_string_ascii escape_byte_scan)
next
  case (rune w t)
  show ?case
  proof (cases w rule: escape_rune_cases)
    case (escaped h n)
    from rune.IH unicode_escape(1) [OF escaped(2-4)] show ?thesis
      by (cases "scan_string q") (simp_all add: escape_string_rune [OF rune(1-3)] escaped(1) del: scan_string.simps)
  next
    case same
    with rune.IH high_bytes_scan [OF rune(2)] show ?thesis
      by (cases "scan_string q") (simp_all add: escape_string_rune [OF rune(1-3)])
  qed
next
  case (stray c r)
  from stray.IH unicode_escape(1) [OF separator_escapes(3)] show ?case
    by (cases "scan_string q") (simp_all add: escape_string_stray [OF stray(1,2)] is_surrogate_def del: scan_string.simps)
qed

theorem escape_string_unquote: "unquote (escape_string s @ q) = map_option (append (to_valid s)) (unquote q)"
proof (induction s rule: string_pieces)
  case Nil
  show ?case by (cases "unquote q") auto
next
  case (ascii c r)
  then show ?case by (cases "unquote q") (simp_all add: escape_string_ascii to_valid_ascii escape_byte_unquote)
next
  case (rune w t)
  show ?case
  proof (cases w rule: escape_rune_cases)
    case (escaped h n)
    from rune.IH unicode_escape(2) [OF escaped(2-4)] show ?thesis
      by (cases "unquote q") (simp_all add: escape_string_rune [OF rune(1-3)] escaped(1,5))
  next
    case same
    with rune.IH rune_unquote [OF rune(1-3)] show ?thesis
      by (cases "unquote q") (simp_all add: escape_string_rune [OF rune(1-3)])
  qed
next
  case (stray c r)
  from stray.IH unicode_escape(2) [OF separator_escapes(3)] show ?case
    by (cases "unquote q") (simp_all add: escape_string_stray [OF stray(1,2)] is_surrogate_def separator_escapes(6))
qed

lemma escape_string_closed: "scan_string (escape_string s @ quote # q) = Some (escape_string s, q)"
  by (simp add: escape_string_scan)

lemma escape_string_reads: "unquote (escape_string s) = Some (to_valid s)"
  using escape_string_unquote [of s "[]"] by simp

section \<open>Numbers are read back\<close>

text \<open>A text that ends a number; the punctuation after a value does.\<close>

definition stops :: "string \<Rightarrow> bool" where
  "stops r \<longleftrightarrow> (case r of [] \<Rightarrow> True | c # q \<Rightarrow> \<not> is_digit c \<and> c \<notin> set ''.eE'')"

definition number_literal :: "string \<Rightarrow> bool" where
  "number_literal w \<longleftrightarrow>
     w \<noteq> [] \<and> hd w \<in> set ''-0123456789'' \<and> (\<forall>r. stops r \<longrightarrow> scan_number (w @ r) = Some (w, r))"

definition starts_digit :: "string \<Rightarrow> bool" where
  "starts_digit r \<longleftrightarrow> r \<noteq> [] \<and> is_digit (hd r)"

lemma scan_digits_digits: "digits w \<Longrightarrow> \<not> starts_digit r \<Longrightarrow> scan_digits (w @ r) = Some (w, r)"
proof -
  assume w: "digits w" and "\<not> starts_digit r"
  then have "takeWhile is_digit r = []" "dropWhile is_digit r = r"
    by (cases r; simp add: starts_digit_def)+
  moreover have "w \<noteq> []" "\<forall>c \<in> set w. is_digit c" using w by (simp_all add: digits_def list_all_iff)
  ultimately show ?thesis by (simp add: scan_digits_def takeWhile_append2 dropWhile_append2)
qed

lemma scan_digits_all: "digits w \<Longrightarrow> scan_digits w = Some (w, [])"
  using scan_digits_digits [of w "[]"] by (simp add: starts_digit_def)

definition integer_part :: "string \<Rightarrow> bool" where
  "integer_part w \<longleftrightarrow> w = ''0'' \<or> digits w \<and> hd w \<noteq> CHR ''0''"

definition fraction_part :: "string \<Rightarrow> bool" where
  "fraction_part w \<longleftrightarrow> w = [] \<or> (\<exists>ds. w = CHR ''.'' # ds \<and> digits ds)"

lemma is_digit_cases: "is_digit c \<Longrightarrow> c \<in> set ''0123456789''"
proof -
  assume "is_digit c"
  then have "byte c \<in> {48..57}" by (simp add: is_digit_def)
  also have "{48..57} = {48, 49, 50, 51, 52, 53, 54, 55, 56, 57 :: nat}" by (auto simp: numeral_eq_Suc le_Suc_eq)
  finally have "byte c \<in> byte ` set ''0123456789''" by simp
  then show ?thesis by (auto simp del: list.set)
qed

lemma stops_not: "stops r \<Longrightarrow> \<not> starts_digit r" "stops r \<Longrightarrow> r = c # q \<Longrightarrow> c \<notin> set ''.eE''"
  by (auto simp: stops_def starts_digit_def split: list.splits)

lemma integer_part_scan: "integer_part w \<Longrightarrow> \<not> starts_digit r \<Longrightarrow> scan_integer (w @ r) = Some (w, r)"
  using scan_digits_digits [of w r]
  by (cases w) (auto simp: integer_part_def scan_integer_def digits_def)

lemma fraction_part_scan:
  "fraction_part w \<Longrightarrow> \<not> starts_digit r \<Longrightarrow> (w = [] \<Longrightarrow> take 1 r \<noteq> ''.'') \<Longrightarrow> scan_fraction (w @ r) = Some (w, r)"
  by (cases r) (auto simp: fraction_part_def scan_fraction_def scan_digits_digits scan_digits_all)

lemma exponent_part_scan: "exponent_text w \<Longrightarrow> stops r \<Longrightarrow> scan_exponent (w @ r) = Some (w, r)"
  by (cases r) (auto simp: exponent_text_def scan_exponent_def scan_digits_digits scan_digits_all stops_not(1) dest: stops_not(2))

lemma exponent_part_follows:
  assumes "exponent_text x" "stops r"
  shows "\<not> starts_digit (x @ r)" "take 1 (x @ r) \<noteq> ''.''"
  using assms stops_not(2) [of r]
  by (auto simp: exponent_text_def stops_not(1), auto simp: starts_digit_def is_digit_def)
    (cases r; auto)+

lemma scan_unsigned_parts:
  assumes "integer_part i" "fraction_part f" "exponent_text x" "stops r"
  shows "scan_unsigned ((i @ f @ x) @ r) = Some (i @ f @ x, r)"
proof -
  note x = exponent_part_follows [OF assms(3,4)]
  from x(1) assms(2) have "\<not> starts_digit (f @ x @ r)" by (auto simp: fraction_part_def starts_digit_def is_digit_def)
  with integer_part_scan [OF assms(1)] fraction_part_scan [OF assms(2) x] exponent_part_scan [OF assms(3,4)]
  show ?thesis by (simp add: scan_unsigned_def)
qed

lemma number_literal_parts:
  assumes "g = [] \<or> g = ''-''" "integer_part i" "fraction_part f" "exponent_text x"
  shows "number_literal (g @ i @ f @ x)"
proof -
  from assms(2) have "i \<noteq> []" and d: "is_digit (hd i)" by (auto simp: integer_part_def digits_def is_digit_def list_all_iff)
  then obtain c q where i: "i = c # q" by (cases i) auto
  with d have "c \<noteq> CHR ''-''" using is_digit_not_punct by force
  with scan_unsigned_parts [OF assms(2-4)] assms(1) d i
  show ?thesis by (auto simp: number_literal_def scan_number_def dest: is_digit_cases)
qed

text \<open>The numerals of naturals, integers and doubles are literals.\<close>

lemma integer_part_format_nat [simp]: "integer_part (format_nat n)"
proof (cases "n = 0")
  case True
  then show ?thesis by (simp add: integer_part_def format_nat_unfold(1) digit_char_zero)
next
  case False
  then show ?thesis by (simp add: integer_part_def format_nat_leading)
qed

lemma number_literal_integer: "number_literal (format_nat n)" "number_literal (FormatInt i)"
  using number_literal_parts [of "[]" "format_nat n" "[]" "[]"]
    number_literal_parts [of "[]" "format_nat (nat i)" "[]" "[]"]
    number_literal_parts [of "''-''" "format_nat (nat (- i))" "[]" "[]"]
  by (simp_all add: FormatInt_def fraction_part_def exponent_text_def)

lemma fixed_notation_literal:
  assumes "g = [] \<or> g = ''-''" "digits ds" "hd ds \<noteq> CHR ''0''"
  shows "number_literal (g @ fixed_notation ds point)"
proof -
  have ne: "ds \<noteq> []" using assms(2) by (simp add: digits_def)
  consider "point \<le> 0" | "0 < point" "len ds \<le> point" | "0 < point" "point < len ds" by linarith
  then show ?thesis
  proof cases
    case 1
    then show ?thesis
      using number_literal_parts [OF assms(1), of "''0''" "CHR ''.'' # replicate (nat (- point)) CHR ''0'' @ ds" "[]"]
      by (simp add: fixed_notation_def integer_part_def fraction_part_def exponent_text_def
          digits_append(2) assms(2) zero_digits)
  next
    case 2
    then show ?thesis
      using number_literal_parts [OF assms(1), of "ds @ replicate (nat (point - len ds)) CHR ''0''" "[]" "[]"] ne assms(3)
      by (simp add: fixed_notation_def integer_part_def fraction_part_def exponent_text_def
          digits_append(1) assms(2) zero_digits)
  next
    case 3
    then have "nat point < length ds" "0 < nat point" by linarith+
    moreover have "hd (take (nat point) ds) = hd ds" using calculation by (cases ds; cases "nat point") auto
    ultimately show ?thesis
      using number_literal_parts [OF assms(1), of "take (nat point) ds" "CHR ''.'' # drop (nat point) ds" "[]"] 3 assms(3)
      by (simp add: fixed_notation_def integer_part_def fraction_part_def exponent_text_def
          digits_take_drop assms(2))
  qed
qed

lemma exponent_notation_literal:
  assumes "g = [] \<or> g = ''-''" "digits ds" "hd ds \<noteq> CHR ''0''"
  shows "number_literal (g @ exponent_notation ds point)"
proof -
  from assms(2) obtain c q where ds: "ds = c # q" by (cases ds) (auto simp: digits_def)
  have "integer_part [c]" using assms(2,3) by (simp add: ds integer_part_def digits_def)
  moreover have "fraction_part (if q \<noteq> [] then CHR ''.'' # q else [])"
    using assms(2) by (simp add: ds fraction_part_def digits_def)
  moreover have "exponent_text ((if point - 1 < 0 then ''e-'' else ''e+'') @ format_nat n)" for n
    by (auto simp: exponent_text_def)
  ultimately show ?thesis
    using number_literal_parts [OF assms(1), of "[c]" "if q \<noteq> [] then CHR ''.'' # q else []"]
    by (cases "q = []"; cases "point - 1 < 0") (simp_all add: exponent_notation_def ds)
qed

lemma json_float_literal:
  assumes "\<not> IsNaN x" "\<not> IsInf x"
  shows "number_literal (json_float x)"
proof -
  have finite: "f64_exponent x \<noteq> 2047" using assms by (auto simp: IsNaN_def IsInf_def)
  define g where "g = (if f64_sign x then ''-'' else [])"
  have g: "g = [] \<or> g = ''-''" by (simp add: g_def)
  obtain m p where mp: "shortest_digits x = (m, p)" by fastforce
  have zero: "number_literal (g @ ''0'')"
    using number_literal_parts [OF g, of "''0''" "[]" "[]"]
    by (simp add: integer_part_def fraction_part_def exponent_text_def)
  have "number_literal (g @ exponent_notation (format_nat m) k)" "number_literal (g @ fixed_notation (format_nat m) k)"
    if "magnitude_bits x \<noteq> 0" for k
    using that shortest_digits_read_back(2) [OF _ finite mp]
    by (simp_all add: g exponent_notation_literal fixed_notation_literal format_nat_leading)
  with zero show ?thesis by (simp add: json_float_def mp Let_def flip: g_def)
qed

section \<open>Values are read back\<close>

text \<open>
  What is read back is the tree with every string made well-formed UTF-8. A tree can be
  printed within a nesting depth when its numbers are literals and it nests no deeper.
\<close>

fun coerced :: "json \<Rightarrow> json" where
  "coerced (JString s) = JString (to_valid s)"
| "coerced (JArray vs) = JArray (map coerced vs)"
| "coerced (JObject ms) = JObject (map (\<lambda>(k, v). (to_valid k, coerced v)) ms)"
| "coerced v = v"

fun printable :: "nat \<Rightarrow> json \<Rightarrow> bool" where
  "printable d (JNumber w) = number_literal w"
| "printable d (JArray vs) = (0 < d \<and> (\<forall>v \<in> set vs. printable (d - 1) v))"
| "printable d (JObject ms) = (0 < d \<and> (\<forall>m \<in> set ms. printable (d - 1) (snd m)))"
| "printable d v = True"

lemma skip_space_none: "\<not> is_space c \<Longrightarrow> skip_space (c # r) = c # r"
  by (simp add: skip_space_def)

lemma punct_no_space [simp]:
  "\<not> is_space quote" "\<not> is_space CHR '':''" "\<not> is_space CHR '',''" "\<not> is_space CHR ''}''"
  "\<not> is_space CHR '']''" "\<not> is_space CHR ''{''" "\<not> is_space CHR ''[''" "\<not> is_space CHR ''t''"
  "\<not> is_space CHR ''f''" "\<not> is_space CHR ''n''"
  by (simp_all add: is_space_def)

lemma stops_punct [simp]: "stops []" "stops (CHR '','' # r)" "stops (CHR '']'' # r)" "stops (CHR ''}'' # r)"
  by (simp_all add: stops_def is_digit_def)

lemma number_head:
  assumes "number_literal w"
  obtains c q where "w = c # q" "\<not> is_space c" "c \<notin> set ''{[tfn]''" "c \<noteq> quote"
proof -
  from assms obtain c q where "w = c # q" "c \<in> set ''-0123456789''" by (cases w) (auto simp: number_literal_def)
  then show thesis by (intro that [of c q]) (auto simp: is_space_def)
qed

lemma print_json_head: "printable d j \<Longrightarrow> \<exists>c q. print_json j = c # q \<and> \<not> is_space c \<and> c \<noteq> CHR '']''"
  by (cases j) (auto simp: print_string_def elim: number_head)

lemma number_value:
  assumes "number_literal w" "stops r"
  shows "value_with inner (w @ r) = Some (JNumber w, r)"
proof -
  from assms(1) obtain c q where c: "w = c # q" "\<not> is_space c" "c \<notin> set ''{[tfn]''" "c \<noteq> quote"
    by (rule number_head)
  have "scan_number (w @ r) = Some (w, r)" using assms by (simp add: number_literal_def)
  with c show ?thesis by (simp add: value_with_def skip_space_none)
qed

lemma string_value: "value_with inner (print_string s @ r) = Some (JString (to_valid s), r)"
  by (simp add: value_with_def print_string_def skip_space_none escape_string_closed escape_string_reads)

lemma literal_value:
  "value_with inner (''null'' @ r) = Some (JNull, r)" "value_with inner (''true'' @ r) = Some (JBool True, r)"
  "value_with inner (''false'' @ r) = Some (JBool False, r)"
  by (simp_all add: value_with_def skip_space_none literal_def CutPrefix_def)

lemma member_value:
  assumes "p (v @ r) = Some (j, r)"
  shows "member p (print_string k @ '':'' @ v @ r) = Some ((to_valid k, j), r)"
  using assms by (simp add: member_def print_string_def skip_space_none escape_string_closed escape_string_reads)

theorem print_json_parses:
  "printable d j \<Longrightarrow> stops r \<Longrightarrow> parse_value d (print_json j @ r) = Some (coerced j, r)"
  "\<forall>v \<in> set vs. printable d v \<Longrightarrow> vs \<noteq> [] \<Longrightarrow>
    elements (parse_value d) (print_elements vs @ r) = Some (map coerced vs, r)"
  "\<forall>m \<in> set ms. printable d (snd m) \<Longrightarrow> ms \<noteq> [] \<Longrightarrow>
    members (parse_value d) (print_members ms @ r) = Some (map (\<lambda>(k, v). (to_valid k, coerced v)) ms, r)"
proof (induction j and vs and ms arbitrary: d r and d r and d r
    rule: print_json_print_elements_print_members.induct)
  case 1
  show ?case using literal_value(1) by (cases d) simp_all
next
  case (2 b)
  show ?case using literal_value(2,3) by (cases d) (simp_all del: append.simps)
next
  case (3 s)
  then show ?case using number_value by (cases d) simp_all
next
  case (4 s)
  show ?case using string_value by (cases d) simp_all
next
  case (5 vs)
  then obtain e where d: "d = Suc e" by (cases d) auto
  show ?case
  proof (cases vs)
    case Nil
    then show ?thesis by (simp add: d value_with_def skip_space_none array_body_def)
  next
    case (Cons v ws)
    with 5 d have "elements (parse_value e) (print_elements vs @ r) = Some (map coerced vs, r)" by simp
    moreover from Cons 5 d obtain c q where "print_elements vs = c # q" "\<not> is_space c" "c \<noteq> CHR '']''"
      using print_json_head [of e v] by (cases ws) auto
    ultimately show ?thesis by (simp add: d value_with_def skip_space_none array_body_def)
  qed
next
  case (6 ms)
  then obtain e where d: "d = Suc e" by (cases d) auto
  show ?case
  proof (cases ms)
    case Nil
    then show ?thesis by (simp add: d value_with_def skip_space_none object_body_def)
  next
    case (Cons m ns)
    with 6 d have "members (parse_value e) (print_members ms @ r) =
        Some (map (\<lambda>(k, v). (to_valid k, coerced v)) ms, r)" by simp
    moreover from Cons obtain q where "print_members ms = quote # q"
      by (cases m; cases ns) (auto simp: print_string_def)
    ultimately show ?thesis by (simp add: d value_with_def skip_space_none object_body_def)
  qed
next
  case 7
  then show ?case by simp
next
  case (8 v)
  then show ?case
    by (simp add: value_parser.elements_step [OF parse_value_advances] skip_space_none)
next
  case (9 v w vs)
  then show ?case
    by (simp add: value_parser.elements_step [OF parse_value_advances] skip_space_none)
next
  case 10
  then show ?case by simp
next
  case (11 k v)
  then have "member (parse_value d) (print_string k @ '':'' @ print_json v @ ''}'' @ r) =
      Some ((to_valid k, coerced v), ''}'' @ r)"
    by (intro member_value) simp
  then show ?case
    by (simp add: value_parser.members_step [OF parse_value_advances] skip_space_none)
next
  case (12 k v m ms)
  then have "member (parse_value d) (print_string k @ '':'' @ print_json v @ '','' @ print_members (m # ms) @ r) =
      Some ((to_valid k, coerced v), '','' @ print_members (m # ms) @ r)"
    by (intro member_value) simp
  with 12 show ?case
    by (simp add: value_parser.members_step [OF parse_value_advances] skip_space_none)
qed

corollary print_json_document: "printable maxNestingDepth j \<Longrightarrow> parse_document (print_json j) = Some (coerced j)"
  using print_json_parses(1) [of maxNestingDepth j "[]"]
  by (simp add: parse_document_def scan_value_def skip_space_def)

text \<open>The tree of a value can be printed, to the depth of its type.\<close>

fun type_depth :: "gotype \<Rightarrow> nat" where
  "type_depth (GPtr t) = type_depth t"
| "type_depth (GSlice t) = Suc (type_depth t)"
| "type_depth (GMap t) = Suc (type_depth t)"
| "type_depth (GStruct fs) = Suc (Max (insert 0 (set (map (\<lambda>(tag, t). type_depth t) fs))))"
| "type_depth t = 0"

lemma type_depth_fields:
  "type_depth (GStruct fs) \<le> Suc d \<longleftrightarrow> (\<forall>(tag, t) \<in> set fs. type_depth t \<le> d)"
  by (auto simp: split_beta)

lemma tree_printable:
  "tree t v = Some j \<Longrightarrow> type_depth t \<le> d \<Longrightarrow> printable d j"
  "tree_elements t vs = Some js \<Longrightarrow> type_depth t \<le> d \<Longrightarrow> list_all (printable d) js"
  "tree_fields fs vs = Some ms \<Longrightarrow> \<forall>(tag, u) \<in> set fs. type_depth u \<le> d \<Longrightarrow> list_all (\<lambda>m. printable d (snd m)) ms"
  "tree_entries t es = Some ms \<Longrightarrow> type_depth t \<le> d \<Longrightarrow> list_all (\<lambda>m. printable d (snd m)) ms"
proof (induction t v and t vs and fs vs and t es arbitrary: d j and d js and d ms and d ms
    rule: tree_tree_elements_tree_fields_tree_entries.induct)
  case (8 t v)
  then obtain e where "d = Suc e" by (cases d) auto
  with 8 show ?case by (auto simp: list_all_iff split: goval.splits option.splits)
next
  case (9 t v)
  then obtain e where "d = Suc e" by (cases d) auto
  with 9 show ?case by (auto simp: list_all_iff by_key_def split: goval.splits option.splits)
next
  case (10 fs v)
  then obtain e where "d = Suc e" by (cases d) auto
  with "10.prems"(2) have "\<forall>(tag, u) \<in> set fs. type_depth u \<le> e" by (simp only: type_depth_fields)
  with "10.IH" "10.prems"(1) \<open>d = Suc e\<close> show ?case by (auto simp: list_all_iff)
qed (auto simp: number_literal_integer json_float_literal split: goval.splits option.splits if_splits)

text \<open>The whole call.\<close>

definition Marshal :: "gotype \<Rightarrow> goval \<Rightarrow> string option" where
  "Marshal t v = map_option print_json (tree t v)"

theorem Marshal_parses:
  assumes "Marshal t v = Some s" "type_depth t \<le> maxNestingDepth"
  obtains j where "tree t v = Some j" "parse_document s = Some (coerced j)"
  using assms print_json_document tree_printable(1) by (auto simp: Marshal_def)

end
