(* ===== verification/JsonRoundTrip.thy ===== *)
theory JsonRoundTrip
  imports JsonMarshal
begin

text \<open>
  A value that is marshalled and unmarshalled comes back, for every type: when its strings
  are well-formed UTF-8, its doubles are finite, and it is settled, that is as a decoder
  leaves it (what \<open>omitempty\<close> drops is the zero value, maps are sorted, slices hide
  nothing). The types are those whose field names are distinct and ASCII and in which no
  pointer points at something that may be nil itself.
\<close>

section \<open>Types and values that survive\<close>

definition nullable :: "gotype \<Rightarrow> bool" where
  "nullable t = (case t of GPtr u \<Rightarrow> True | GSlice u \<Rightarrow> True | GMap u \<Rightarrow> True | GBytes \<Rightarrow> True | _ \<Rightarrow> False)"

definition plain_name :: "string \<Rightarrow> bool" where
  "plain_name s \<longleftrightarrow> list_all (\<lambda>c. byte c < 128) s"

fun proper_type :: "gotype \<Rightarrow> bool" where
  "proper_type (GPtr t) = (\<not> nullable t \<and> proper_type t)"
| "proper_type (GSlice t) = proper_type t"
| "proper_type (GMap t) = proper_type t"
| "proper_type (GStruct fs) =
     (distinct (field_names fs) \<and> (\<forall>(tag, t) \<in> set fs. plain_name (field_name tag) \<and> proper_type t))"
| "proper_type t = True"

definition base64_slack :: "string \<Rightarrow> string" where
  "base64_slack bs = replicate (DecodedLen (base64 bs) - length bs) CHR 0x00"

definition key_sorted :: "(string \<times> 'a) list \<Rightarrow> bool" where
  "key_sorted es \<longleftrightarrow> distinct (map fst es) \<and> sorted (map (\<lambda>e. map (of_char :: char \<Rightarrow> nat) (fst e)) es)"

fun settled :: "gotype \<Rightarrow> goval \<Rightarrow> bool" where
  "settled GString v = (case v of VString s \<Rightarrow> True | _ \<Rightarrow> False)"
| "settled GBool v = (case v of VBool b \<Rightarrow> True | _ \<Rightarrow> False)"
| "settled GInt v = (case v of VInt i \<Rightarrow> True | _ \<Rightarrow> False)"
| "settled GUint v = (case v of VUint i \<Rightarrow> True | _ \<Rightarrow> False)"
| "settled GFloat v = (case v of VFloat x \<Rightarrow> True | _ \<Rightarrow> False)"
| "settled GBytes v =
     (case v of VBytes bs hidden \<Rightarrow> hidden = (case bs of None \<Rightarrow> [] | Some s \<Rightarrow> base64_slack s) | _ \<Rightarrow> False)"
| "settled (GPtr t) v =
     (case v of VPtr p \<Rightarrow> (case p of None \<Rightarrow> True | Some w \<Rightarrow> settled t w) | _ \<Rightarrow> False)"
| "settled (GSlice t) v =
     (case v of
        VSlice vs hidden \<Rightarrow> hidden = [] \<and> (case vs of None \<Rightarrow> True | Some ws \<Rightarrow> \<forall>w \<in> set ws. settled t w)
      | _ \<Rightarrow> False)"
| "settled (GMap t) v =
     (case v of
        VMap m \<Rightarrow>
          (case m of None \<Rightarrow> True | Some es \<Rightarrow> key_sorted es \<and> (\<forall>(k, w) \<in> set es. settled t w))
      | _ \<Rightarrow> False)"
| "settled (GStruct fs) v =
     (case v of
        VStruct vs \<Rightarrow>
          list_all2 (\<lambda>(tag, t) w. settled t w \<and> (omitempty tag \<and> is_empty w \<longrightarrow> w = zero_value t)) fs vs
      | _ \<Rightarrow> False)"

fun texts_valid :: "goval \<Rightarrow> bool" where
  "texts_valid (VString s) = (to_valid s = s)"
| "texts_valid (VPtr p) = pred_option texts_valid p"
| "texts_valid (VSlice vs hidden) = pred_option (list_all texts_valid) vs"
| "texts_valid (VMap m) = pred_option (list_all (\<lambda>(k, w). to_valid k = k \<and> texts_valid w)) m"
| "texts_valid (VStruct vs) = list_all texts_valid vs"
| "texts_valid v = True"

fun doubles_finite :: "goval \<Rightarrow> bool" where
  "doubles_finite (VFloat x) = (\<not> IsNaN x \<and> \<not> IsInf x)"
| "doubles_finite (VPtr p) = pred_option doubles_finite p"
| "doubles_finite (VSlice vs hidden) = pred_option (list_all doubles_finite) vs"
| "doubles_finite (VMap m) = pred_option (list_all (\<lambda>(k, w). doubles_finite w)) m"
| "doubles_finite (VStruct vs) = list_all doubles_finite vs"
| "doubles_finite v = True"

section \<open>Leaves\<close>

lemma to_valid_plain: "plain_name s \<Longrightarrow> to_valid s = s"
  by (induction s) (auto simp: plain_name_def to_valid_ascii)

lemma base64_plain: "plain_name (base64 s)"
proof -
  have d: "byte (base64_digit n) < 128" for n
    by (auto simp: base64_digit_def)
  show ?thesis by (induction s rule: base64.induct) (auto simp: plain_name_def Let_def d)
qed

lemma ParseUint_format: "ParseUint (format_nat (unat (i :: uint64))) = Some i"
proof -
  have "unat i < 2 ^ 64" using unsigned_less [of i] by simp
  then show ?thesis by (simp add: ParseUint_def)
qed

text \<open>What a value and its tree have to do with each other.\<close>

definition comes_back :: "gotype \<Rightarrow> goval \<Rightarrow> bool" where
  "comes_back t v \<longleftrightarrow>
     (\<exists>j. tree t v = Some j \<and> store t (zero_value t) (coerced j) = (v, True) \<and> (\<not> nullable t \<longrightarrow> j \<noteq> JNull))"

lemma comes_backI:
  "tree t v = Some j \<Longrightarrow> store t (zero_value t) (coerced j) = (v, True) \<Longrightarrow> (\<not> nullable t \<Longrightarrow> j \<noteq> JNull) \<Longrightarrow>
    comes_back t v"
  by (auto simp: comes_back_def)

lemma comes_backE:
  assumes "comes_back t v"
  obtains j where "tree t v = Some j" "store t (zero_value t) (coerced j) = (v, True)" "nullable t \<or> j \<noteq> JNull"
  using assms by (auto simp: comes_back_def)

lemma bytes_come_back: "settled GBytes v \<Longrightarrow> comes_back GBytes v"
  by (auto simp: comes_back_def store.simps(5) store_bytes_def to_valid_plain base64_plain base64_round_trip
      base64_slack_def nullable_def split: goval.splits option.splits)

section \<open>Lists, maps and structs\<close>

lemma elements_come_back:
  "\<forall>w \<in> set vs. comes_back t w \<Longrightarrow>
    \<exists>js. tree_elements t vs = Some js \<and> store_elements t [] (map coerced js) = (vs, [], True)"
proof (induction vs)
  case (Cons w vs)
  then obtain js where "tree_elements t vs = Some js" "store_elements t [] (map coerced js) = (vs, [], True)" by auto
  moreover from Cons.prems have "comes_back t w" by simp
  then obtain j where "tree t w = Some j" "store t (zero_value t) (coerced j) = (w, True)" by (rule comes_backE)
  ultimately show ?case by simp
qed simp

abbreviation coerced_members :: "(string \<times> json) list \<Rightarrow> (string \<times> json) list" where
  "coerced_members ms \<equiv> map (\<lambda>(k, v). (to_valid k, coerced v)) ms"

lemma update_new: "k \<notin> fst ` set al \<Longrightarrow> AList.update k v al = al @ [(k, v)]"
  by (induction al) auto

lemma entries_come_back:
  "\<forall>(k, w) \<in> set es. to_valid k = k \<and> comes_back t w \<Longrightarrow> distinct (map fst es) \<Longrightarrow>
    fst ` set acc \<inter> fst ` set es = {} \<Longrightarrow>
    \<exists>ms. tree_entries t es = Some ms \<and> map fst ms = map fst es \<and>
      store_entries t acc (coerced_members ms) = (acc @ es, True)"
proof (induction es arbitrary: acc)
  case (Cons e es)
  obtain k w where e: "e = (k, w)" by fastforce
  with Cons.prems(1) have "comes_back t w" by simp
  then obtain j where j: "tree t w = Some j" "store t (zero_value t) (coerced j) = (w, True)" by (rule comes_backE)
  from Cons.prems e have k: "to_valid k = k" "k \<notin> fst ` set acc" by auto
  have "fst ` set (acc @ [(k, w)]) \<inter> fst ` set es = {}" using Cons.prems(2,3) e by auto
  moreover have "\<forall>(k, w) \<in> set es. to_valid k = k \<and> comes_back t w" "distinct (map fst es)"
    using Cons.prems(1,2) by simp_all
  ultimately obtain ms where ms: "tree_entries t es = Some ms" "map fst ms = map fst es"
    "store_entries t (acc @ [(k, w)]) (coerced_members ms) = ((acc @ [(k, w)]) @ es, True)"
    using Cons.IH by blast
  with j k show ?case by (simp add: e update_new del: store.simps)
qed simp

lemma by_key_sorted: "key_sorted es \<Longrightarrow> map fst ms = map fst es \<Longrightarrow> by_key ms = ms"
proof -
  assume es: "key_sorted es" and keys: "map fst ms = map fst es"
  have "map (\<lambda>m. map (of_char :: char \<Rightarrow> nat) (fst m)) ms = map (map of_char) (map fst ms)" by simp
  also have "\<dots> = map (\<lambda>e. map of_char (fst e)) es" unfolding keys by simp
  finally have "sorted (map (\<lambda>m. map (of_char :: char \<Rightarrow> nat) (fst m)) ms)" using es by (simp add: key_sorted_def)
  then show ?thesis unfolding by_key_def by (rule sort_key_id_if_sorted)
qed

text \<open>The members of a struct are the fields that are not dropped, in order.\<close>

definition dropped :: "string \<Rightarrow> goval \<Rightarrow> bool" where
  "dropped tag w \<longleftrightarrow> omitempty tag \<and> is_empty w"

definition member_for :: "(string \<times> json) list \<Rightarrow> string \<times> gotype \<Rightarrow> goval \<Rightarrow> bool" where
  "member_for ms f w \<longleftrightarrow>
     (if dropped (fst f) w then map_of ms (field_name (fst f)) = None
      else tree (snd f) w \<noteq> None \<and> map_of ms (field_name (fst f)) = tree (snd f) w)"

lemma tree_fields_lookup:
  "tree_fields fs vs = Some ms \<Longrightarrow> length vs = length fs \<Longrightarrow> distinct (field_names fs) \<Longrightarrow>
    distinct (map fst ms) \<and> fst ` set ms \<subseteq> set (field_names fs) \<and>
    (\<forall>i < length fs. member_for ms (fs ! i) (vs ! i))"
proof (induction fs vs arbitrary: ms rule: list_induct2')
  case (4 f fs w vs)
  obtain tag t where f: "f = (tag, t)" by fastforce
  define rest where "rest = the (tree_fields fs vs)"
  have step: "tree_fields fs vs = Some rest" "\<not> dropped tag w \<Longrightarrow> tree t w \<noteq> None"
    "ms = (if dropped tag w then rest else (field_name tag, the (tree t w)) # rest)"
    using "4.prems"(1) by (auto simp: f rest_def dropped_def split: option.splits if_splits)
  from "4.IH" [OF step(1)] "4.prems"(2,3) have
    IH: "distinct (map fst rest)" "fst ` set rest \<subseteq> set (field_names fs)"
      "\<forall>i < length fs. member_for rest (fs ! i) (vs ! i)"
    by simp_all
  have name: "field_name tag \<notin> set (field_names fs)" using "4.prems"(3) f by simp
  then have new: "field_name tag \<notin> fst ` set rest" using IH(2) by auto
  have other: "field_name (fst (fs ! i)) \<noteq> field_name tag" if "i < length fs" for i
    using name nth_mem [OF that] by force
  have "member_for ms ((f # fs) ! i) ((w # vs) ! i)"
    if "i < length (f # fs)" for i
  proof (cases i)
    case 0
    then show ?thesis using new step(2,3) by (auto simp: f member_for_def map_of_eq_None_iff)
  next
    case (Suc k)
    with that have "k < length fs" by simp
    with IH(3) other [of k] Suc show ?thesis by (simp add: step(3) member_for_def)
  qed
  moreover have "distinct (map fst ms)" "fst ` set ms \<subseteq> set (field_names (f # fs))"
    using IH(1,2) new f by (auto simp: step(3))
  ultimately show ?case by blast
qed simp_all

lemma tree_fields_exists:
  "list_all2 (\<lambda>f w. \<exists>j. tree (snd f) w = Some j) fs vs \<Longrightarrow> \<exists>ms. tree_fields fs vs = Some ms"
  by (induction rule: list_all2_induct) (auto split: option.split)

lemma map_of_coerced:
  "\<forall>m \<in> set ms. to_valid (fst m) = fst m \<Longrightarrow> map_of (coerced_members ms) k = map_option coerced (map_of ms k)"
  by (induction ms) auto

lemma map_fst_coerced: "\<forall>m \<in> set ms. to_valid (fst m) = fst m \<Longrightarrow> map fst (coerced_members ms) = map fst ms"
  by (induction ms) auto

lemma struct_comes_back:
  assumes "proper_type (GStruct fs)"
    and "list_all2 (\<lambda>(tag, t) w. comes_back t w \<and> (dropped tag w \<longrightarrow> w = zero_value t)) fs vs"
  shows "comes_back (GStruct fs) (VStruct vs)"
proof -
  have fields: "comes_back (snd (fs ! i)) (vs ! i)" "dropped (fst (fs ! i)) (vs ! i) \<Longrightarrow> vs ! i = zero_value (snd (fs ! i))"
    if "i < length fs" for i
    using assms(2) that by (auto simp: list_all2_conv_all_nth split_beta)
  have len: "length vs = length fs" using assms(2) by (simp add: list_all2_lengthD)
  have "list_all2 (\<lambda>f w. \<exists>j. tree (snd f) w = Some j) fs vs"
    using fields(1) len by (auto simp: list_all2_conv_all_nth comes_back_def)
  moreover have names: "distinct (field_names fs)" "\<forall>f \<in> set fs. to_valid (field_name (fst f)) = field_name (fst f)"
    using assms(1) by (auto simp: to_valid_plain split_beta)
  ultimately obtain ms where ms: "tree_fields fs vs = Some ms" "distinct (map fst ms)"
    "fst ` set ms \<subseteq> set (field_names fs)"
    "\<forall>i < length fs. member_for ms (fs ! i) (vs ! i)"
    using tree_fields_exists tree_fields_lookup len by meson
  let ?zeros = "map (\<lambda>f. zero_value (snd f)) fs"
  have valid: "\<forall>m \<in> set ms. to_valid (fst m) = fst m" using ms(3) names(2) by fastforce
  have "store_field fs ?zeros (coerced_members ms) i = (vs ! i, True)" if i: "i < length fs" for i
  proof (cases "dropped (fst (fs ! i)) (vs ! i)")
    case True
    with ms(4) i fields(2) [OF i] show ?thesis
      by (simp add: store_field_def map_of_coerced [OF valid] member_for_def)
  next
    case False
    from fields(1) [OF i] obtain j where j: "tree (snd (fs ! i)) (vs ! i) = Some j"
      "store (snd (fs ! i)) (zero_value (snd (fs ! i))) (coerced j) = (vs ! i, True)"
      by (rule comes_backE)
    have "map_of ms (field_names fs ! i) = Some j" using ms(4) i False j(1) by (simp add: member_for_def)
    with j(2) i show ?thesis by (simp add: store_field_def map_of_coerced [OF valid])
  qed
  note stored = this
  have zero: "zero_value (GStruct fs) = VStruct ?zeros" by (simp add: split_beta)
  have "store (GStruct fs) (VStruct ?zeros) (JObject (coerced_members ms)) =
      (VStruct (map (\<lambda>i. fst (store_field fs ?zeros (coerced_members ms) i)) [0..<length fs]),
       list_all (\<lambda>i. snd (store_field fs ?zeros (coerced_members ms) i)) [0..<length fs])"
  proof (rule store_struct_exact [OF names(1)])
    show "distinct (map fst (coerced_members ms))" using ms(2) unfolding map_fst_coerced [OF valid] .
    have "fst ` set (coerced_members ms) = fst ` set ms"
      using map_fst_coerced [OF valid] by (metis list.set_map)
    with ms(3) show "fst ` set (coerced_members ms) \<subseteq> set (field_names fs)" by simp
  qed simp
  also have "map (\<lambda>i. fst (store_field fs ?zeros (coerced_members ms) i)) [0..<length fs] = vs"
    using stored len by (intro nth_equalityI) simp_all
  also have "list_all (\<lambda>i. snd (store_field fs ?zeros (coerced_members ms) i)) [0..<length fs] = True"
    using stored by (simp add: list_all_iff)
  finally show ?thesis
    unfolding comes_back_def zero using ms(1) by (auto simp: fields_of_def intro!: exI [of _ "JObject ms"])
qed

section \<open>Every value comes back\<close>

theorem settled_comes_back:
  "proper_type t \<Longrightarrow> settled t v \<Longrightarrow> texts_valid v \<Longrightarrow> doubles_finite v \<Longrightarrow> comes_back t v"
proof (induction t arbitrary: v)
  case (GPtr t)
  then obtain p where v: "v = VPtr p" by (auto split: goval.splits)
  show ?case
  proof (cases p)
    case None
    then show ?thesis by (simp add: v comes_back_def store.simps(1) nullable_def)
  next
    case (Some w)
    with GPtr v have "comes_back t w" by simp
    then obtain j where j: "tree t w = Some j" "store t (zero_value t) (coerced j) = (w, True)" "nullable t \<or> j \<noteq> JNull"
      by (rule comes_backE)
    have "j \<noteq> JNull" using j(3) GPtr.prems(1) by simp
    then have "coerced j \<noteq> JNull" by (cases j) simp_all
    with j(1,2) show ?thesis by (simp add: v Some comes_back_def store.simps(1) pointee_def nullable_def)
  qed
next
  case (GSlice t)
  then obtain vs where v: "v = VSlice vs []" by (auto split: goval.splits)
  show ?case
  proof (cases vs)
    case None
    then show ?thesis by (simp add: v comes_back_def store.simps(2) nullable_def)
  next
    case (Some ws)
    with GSlice v have "\<forall>w \<in> set ws. comes_back t w" by (simp add: list_all_iff)
    from elements_come_back [OF this] show ?thesis
      by (auto simp: v Some comes_back_def store.simps(2) backing_def nullable_def)
  qed
next
  case (GMap t)
  then obtain m where v: "v = VMap m" by (auto split: goval.splits)
  show ?case
  proof (cases m)
    case None
    then show ?thesis by (simp add: v comes_back_def store.simps(4) nullable_def)
  next
    case (Some es)
    with GMap v have es: "key_sorted es" "\<forall>(k, w) \<in> set es. to_valid k = k \<and> comes_back t w"
      by (auto 0 4 simp: list_all_iff)
    then obtain ms where "tree_entries t es = Some ms" "map fst ms = map fst es"
      "store_entries t [] (coerced_members ms) = (es, True)"
      using entries_come_back [of es t "[]"] by (auto simp: key_sorted_def)
    with by_key_sorted [OF es(1)] show ?thesis
      by (simp add: v Some comes_back_def store.simps(4) entries_of_def nullable_def)
  qed
next
  case (GStruct fs)
  then obtain vs where v: "v = VStruct vs" by (auto split: goval.splits)
  have "list_all2 (\<lambda>(tag, t) w. comes_back t w \<and> (dropped tag w \<longrightarrow> w = zero_value t)) fs vs"
  proof (rule list_all2_all_nthI)
    show len: "length fs = length vs" using GStruct.prems(2) by (simp add: v list_all2_lengthD)
    fix i assume i: "i < length fs"
    obtain tag t where f: "fs ! i = (tag, t)" by fastforce
    have mem: "(tag, t) \<in> set fs" "vs ! i \<in> set vs" using f i len nth_mem by (metis, simp)
    have "settled t (vs ! i)" "dropped tag (vs ! i) \<longrightarrow> vs ! i = zero_value t"
      using GStruct.prems(2) i f by (auto simp: v list_all2_conv_all_nth dropped_def)
    moreover have "proper_type t" using GStruct.prems(1) mem(1) by auto
    moreover have "texts_valid (vs ! i)" "doubles_finite (vs ! i)"
      using GStruct.prems(3,4) mem(2) by (simp_all add: v list_all_iff)
    ultimately have "comes_back t (vs ! i)" using GStruct.IH [OF mem(1), of t] by simp
    with \<open>dropped tag (vs ! i) \<longrightarrow> vs ! i = zero_value t\<close> show "(case fs ! i of (tag, t) \<Rightarrow> \<lambda>w. comes_back t w \<and> (dropped tag w \<longrightarrow> w = zero_value t)) (vs ! i)" using f
      by simp
  qed
  with GStruct.prems(1) show ?case unfolding v by (rule struct_comes_back)
next
  case GBytes
  then show ?case by (intro bytes_come_back)
qed (auto simp: comes_back_def store_scalar_def store_number_def readers ParseInt_FormatInt ParseUint_format
    ParseFloat_json_float nullable_def split: goval.splits)

section \<open>When there is no text\<close>

lemma doubles_finite_zero: "doubles_finite (zero_value t)"
proof (induction t)
  case (GStruct fs)
  have "doubles_finite (zero_value (snd f))" if "f \<in> set fs" for f
    using GStruct [OF that] by (cases f) auto
  then show ?case by (auto simp: list_all_iff split_beta)
qed (simp_all add: IsNaN_def IsInf_def f64_exponent_def)

lemma tree_elements_some: "tree_elements t vs \<noteq> None \<longleftrightarrow> (\<forall>w \<in> set vs. tree t w \<noteq> None)"
  by (induction vs) (auto split: option.split)

lemma tree_entries_some: "tree_entries t es \<noteq> None \<longleftrightarrow> (\<forall>e \<in> set es. tree t (snd e) \<noteq> None)"
  by (induction es) (auto split: option.splits)

lemma tree_fields_some:
  "list_all2 (\<lambda>(tag, t) w. (dropped tag w \<longrightarrow> w = zero_value t) \<and> (tree t w \<noteq> None \<longleftrightarrow> doubles_finite w)) fs vs \<Longrightarrow>
    tree_fields fs vs \<noteq> None \<longleftrightarrow> list_all doubles_finite vs"
  by (induction rule: list_all2_induct) (auto simp: dropped_def doubles_finite_zero split: option.splits if_splits)

text \<open>Marshalling fails on a double that is not finite, and on nothing else.\<close>

lemma tree_exists_iff: "settled t v \<Longrightarrow> tree t v \<noteq> None \<longleftrightarrow> doubles_finite v"
proof (induction t arbitrary: v)
  case (GSlice t)
  then show ?case
    using tree_elements_some [of t] by (auto simp: list_all_iff split: goval.splits option.splits)
next
  case (GMap t)
  then show ?case
    using tree_entries_some [of t] by (fastforce simp: list_all_iff split: goval.splits option.splits)
next
  case (GStruct fs)
  then obtain vs where v: "v = VStruct vs" by (auto split: goval.splits)
  have "list_all2 (\<lambda>(tag, t) w. (dropped tag w \<longrightarrow> w = zero_value t) \<and> (tree t w \<noteq> None \<longleftrightarrow> doubles_finite w)) fs vs"
  proof (rule list_all2_all_nthI)
    show len: "length fs = length vs" using GStruct.prems by (simp add: v list_all2_lengthD)
    fix i assume i: "i < length fs"
    obtain tag t where f: "fs ! i = (tag, t)" by fastforce
    have "(tag, t) \<in> set fs" using f i nth_mem by metis
    moreover have "settled t (vs ! i)" "dropped tag (vs ! i) \<longrightarrow> vs ! i = zero_value t"
      using GStruct.prems i f by (auto simp: v list_all2_conv_all_nth dropped_def)
    ultimately show "(case fs ! i of (tag, t) \<Rightarrow>
        \<lambda>w. (dropped tag w \<longrightarrow> w = zero_value t) \<and> (tree t w \<noteq> None \<longleftrightarrow> doubles_finite w)) (vs ! i)"
      using GStruct.IH [of "(tag, t)" t "vs ! i"] by (simp add: f)
  qed
  from tree_fields_some [OF this] show ?case by (simp add: v fields_of_def)
qed (auto simp: readers split: goval.splits option.splits)

text \<open>The two calls, one after the other.\<close>

theorem Unmarshal_Marshal:
  assumes "proper_type t" "type_depth t \<le> maxNestingDepth" "settled t v" "texts_valid v" "doubles_finite v"
  obtains s where "Marshal t v = Some s" "Unmarshal t s (zero_value t) = (v, True)"
proof -
  from settled_comes_back [OF assms(1,3-5)] obtain j where
    j: "tree t v = Some j" "store t (zero_value t) (coerced j) = (v, True)" by (rule comes_backE)
  have "parse_document (print_json j) = Some (coerced j)"
    by (rule print_json_document) (rule tree_printable(1) [OF j(1) assms(2)])
  with j show thesis by (intro that [of "print_json j"]) (simp_all add: Marshal_def Unmarshal_def)
qed

section \<open>The members of the text of a struct\<close>

lemma struct_document:
  assumes "Marshal (GStruct fs) (VStruct vs) = Some s" "proper_type (GStruct fs)"
    "type_depth (GStruct fs) \<le> maxNestingDepth" "length vs = length fs"
  obtains ms where "parse_document s = Some (JObject ms)" "distinct (map fst ms)"
    "fst ` set ms \<subseteq> set (field_names fs)"
    "\<forall>i < length fs. \<not> dropped (fst (fs ! i)) (vs ! i) \<longrightarrow>
      (\<exists>j. tree (snd (fs ! i)) (vs ! i) = Some j \<and> map_of ms (field_names fs ! i) = Some (coerced j))"
    "\<forall>i < length fs. dropped (fst (fs ! i)) (vs ! i) \<longrightarrow> field_names fs ! i \<notin> fst ` set ms"
proof -
  obtain j where j: "tree (GStruct fs) (VStruct vs) = Some j" "parse_document s = Some (coerced j)"
    using Marshal_parses [OF assms(1,3)] .
  then obtain ms where ms: "tree_fields fs vs = Some ms" "j = JObject ms" by (auto simp: fields_of_def)
  have names: "distinct (field_names fs)" "\<forall>f \<in> set fs. to_valid (field_name (fst f)) = field_name (fst f)"
    using assms(2) by (auto simp: proper_type.simps(4) to_valid_plain)
  from tree_fields_lookup [OF ms(1) assms(4) names(1)] have
    new: "distinct (map fst ms)" and look: "fst ` set ms \<subseteq> set (field_names fs)"
      "\<forall>i < length fs. member_for ms (fs ! i) (vs ! i)"
    by simp_all
  have valid: "\<forall>m \<in> set ms. to_valid (fst m) = fst m" using look(1) names(2) by fastforce
  show thesis
  proof (rule that [of "coerced_members ms"])
    show "parse_document s = Some (JObject (coerced_members ms))" using j(2) ms(2) by simp
    show "distinct (map fst (coerced_members ms))" using new unfolding map_fst_coerced [OF valid] .
    show "fst ` set (coerced_members ms) \<subseteq> set (field_names fs)"
      using look(1) map_fst_coerced [OF valid] by (metis list.set_map)
    show "\<forall>i < length fs. dropped (fst (fs ! i)) (vs ! i) \<longrightarrow>
        field_names fs ! i \<notin> fst ` set (coerced_members ms)"
    proof (intro allI impI)
      fix i assume i: "i < length fs" "dropped (fst (fs ! i)) (vs ! i)"
      with look(2) have "map_of ms (field_names fs ! i) = None" by (simp add: member_for_def)
      then have "map_of (coerced_members ms) (field_names fs ! i) = None" by (simp add: map_of_coerced [OF valid])
      then show "field_names fs ! i \<notin> fst ` set (coerced_members ms)" unfolding map_of_eq_None_iff .
    qed
    show "\<forall>i < length fs. \<not> dropped (fst (fs ! i)) (vs ! i) \<longrightarrow>
        (\<exists>j. tree (snd (fs ! i)) (vs ! i) = Some j \<and>
          map_of (coerced_members ms) (field_names fs ! i) = Some (coerced j))"
    proof (intro allI impI)
      fix i assume that: "i < length fs" "\<not> dropped (fst (fs ! i)) (vs ! i)"
      from look(2) that(1) have "member_for ms (fs ! i) (vs ! i)" by blast
      with that(2) obtain j where "tree (snd (fs ! i)) (vs ! i) = Some j"
        "map_of ms (field_name (fst (fs ! i))) = Some j"
        by (cases "tree (snd (fs ! i)) (vs ! i)") (simp_all add: member_for_def)
      with that(1) show "\<exists>j. tree (snd (fs ! i)) (vs ! i) = Some j \<and>
          map_of (coerced_members ms) (field_names fs ! i) = Some (coerced j)"
        by (simp add: map_of_coerced [OF valid])
    qed
  qed
qed

end
