(* ===== verification/JsonCodec.thy ===== *)
theory JsonCodec
  imports JsonRoundTrip
begin

text \<open>
  The contract between a record of the model and the struct it stands for: how the record
  is written into the fields of the struct and read from them. Its laws give the round trip
  through the text once for all records; the theories of the wire format interpret it on
  every struct that is sent.
\<close>

section \<open>Writing the values of fields\<close>

text \<open>A record's list does not tell a nil slice from an empty one; the caller says which it is.\<close>

definition of_slice :: "bool \<Rightarrow> ('a \<Rightarrow> goval) \<Rightarrow> 'a list \<Rightarrow> goval" where
  "of_slice nil f xs = VSlice (if xs = [] \<and> nil then None else Some (map f xs)) []"

text \<open>An optional slice does tell.\<close>

definition of_nil_slice :: "('a \<Rightarrow> goval) \<Rightarrow> 'a list option \<Rightarrow> goval" where
  "of_nil_slice f xs = VSlice (map_option (map f) xs) []"

definition of_map :: "bool \<Rightarrow> ('a \<Rightarrow> goval) \<Rightarrow> (string \<times> 'a) list \<Rightarrow> goval" where
  "of_map nil f es = VMap (if es = [] \<and> nil then None else Some (map (apsnd f) es))"

definition of_bytes :: "bool \<Rightarrow> string \<Rightarrow> goval" where
  "of_bytes nil bs = (if bs = [] \<and> nil then VBytes None [] else VBytes (Some bs) (base64_slack bs))"

definition of_pointer :: "('a \<Rightarrow> goval) \<Rightarrow> 'a option \<Rightarrow> goval" where
  "of_pointer f p = VPtr (map_option f p)"

named_theorems codec \<open>reading what was written, and its being settled\<close>

lemma read_of_slice [codec]: "as_slice r (of_slice nil f xs) = map (\<lambda>x. r (f x)) xs"
  by (simp add: of_slice_def as_slice_def)

lemma read_of_nil_slice [codec]: "as_nil_slice r (of_nil_slice f xs) = map_option (map (\<lambda>x. r (f x))) xs"
  by (simp add: of_nil_slice_def as_nil_slice_def option.map_comp comp_def)

lemma read_of_map [codec]: "as_map r (of_map nil f es) = map (apsnd (\<lambda>x. r (f x))) es"
  by (auto simp: of_map_def as_map_def)

lemma read_of_bytes [codec]: "as_bytes (of_bytes nil bs) = bs"
  by (simp add: of_bytes_def as_bytes_def)

lemma read_of_pointer [codec]: "as_pointer r (of_pointer f p) = map_option (\<lambda>x. r (f x)) p"
  by (simp add: of_pointer_def as_pointer_def option.map_comp comp_def)

lemma read_leaf [codec]:
  "as_string (VString s) = s" "as_bool (VBool b) = b" "as_int (VInt i) = i" "as_uint (VUint n) = n"
  "as_float (VFloat x) = x"
  by (simp_all add: readers)

lemma settled_of_slice [codec]: "settled (GSlice t) (of_slice nil f xs) \<longleftrightarrow> (\<forall>x \<in> set xs. settled t (f x))"
  by (simp add: of_slice_def)

lemma settled_of_nil_slice [codec]:
  "settled (GSlice t) (of_nil_slice f xs) \<longleftrightarrow> (\<forall>x \<in> set (slice_elements xs). settled t (f x))"
  by (cases xs) (simp_all add: of_nil_slice_def)

lemma settled_of_map [codec]:
  "settled (GMap t) (of_map nil f es) \<longleftrightarrow> es = [] \<or> key_sorted es \<and> (\<forall>e \<in> set es. settled t (f (snd e)))"
  by (auto simp: of_map_def key_sorted_def comp_def split_beta)

lemma settled_of_bytes [codec]: "settled GBytes (of_bytes nil bs)"
  by (simp add: of_bytes_def)

lemma settled_of_pointer [codec]: "settled (GPtr t) (of_pointer f p) \<longleftrightarrow> (\<forall>x. p = Some x \<longrightarrow> settled t (f x))"
  by (cases p) (simp_all add: of_pointer_def)

lemma settled_leaf [codec]:
  "settled GString (VString s)" "settled GBool (VBool b)" "settled GInt (VInt i)" "settled GUint (VUint n)"
  "settled GFloat (VFloat x)"
  by simp_all

text \<open>What \<open>omitempty\<close> drops is the zero value, when a nil slice is written for an empty list.\<close>

lemma dropped_zero [codec]:
  "is_empty (of_slice True f xs) \<longrightarrow> of_slice True f xs = VSlice None []"
  "xs' \<noteq> Some [] \<Longrightarrow> is_empty (of_nil_slice g xs') \<longrightarrow> of_nil_slice g xs' = VSlice None []"
  "is_empty (of_bytes True bs) \<longrightarrow> of_bytes True bs = VBytes None []"
  "is_empty (of_pointer f p) \<longrightarrow> of_pointer f p = VPtr None"
  by (auto simp: of_slice_def of_nil_slice_def of_bytes_def of_pointer_def)

text \<open>
  A struct given by its list of fields is taken apart; one that has a name, inside another,
  is left to the facts its own codec provides.
\<close>

lemma settled_struct [codec]:
  "settled (GStruct fs) (VStruct vs) \<longleftrightarrow>
    list_all2 (\<lambda>(tag, t) w. settled t w \<and> (omitempty tag \<and> is_empty w \<longrightarrow> w = zero_value t)) fs vs"
  by simp

lemma proper_type_struct [codec]:
  "proper_type (GStruct (f # fs)) \<longleftrightarrow>
    distinct (field_names (f # fs)) \<and> (\<forall>(tag, t) \<in> set (f # fs). plain_name (field_name tag) \<and> proper_type t)"
  by (rule proper_type.simps)

lemma type_depth_struct [codec]:
  "type_depth (GStruct (f # fs)) = Suc (Max (insert 0 (set (map (\<lambda>(tag, t). type_depth t) (f # fs)))))"
  by (rule type_depth.simps)

declare settled.simps [simp del] proper_type.simps(4) [simp del] type_depth.simps(4) [simp del]

lemma apsnd_ident [codec]: "map (apsnd (\<lambda>x. x)) es = es"
  by (induction es) auto

lemma nil_slice_ident [codec]: "map_option (map (\<lambda>x. x)) xs = xs"
  by (cases xs) simp_all

text \<open>Whether slices are nil changes neither the strings nor the doubles of a value.\<close>

lemma contents_of_slice:
  "texts_valid (of_slice nil f xs) \<longleftrightarrow> (\<forall>x \<in> set xs. texts_valid (f x))"
  "doubles_finite (of_slice nil f xs) \<longleftrightarrow> (\<forall>x \<in> set xs. doubles_finite (f x))"
  by (simp_all add: of_slice_def list_all_iff)

lemma contents_of_nil_slice:
  "texts_valid (of_nil_slice f xs) \<longleftrightarrow> (\<forall>x \<in> set (slice_elements xs). texts_valid (f x))"
  "doubles_finite (of_nil_slice f xs) \<longleftrightarrow> (\<forall>x \<in> set (slice_elements xs). doubles_finite (f x))"
  by (cases xs; simp add: of_nil_slice_def list_all_iff)+

lemma contents_of_map:
  "texts_valid (of_map nil f es) \<longleftrightarrow> (\<forall>e \<in> set es. to_valid (fst e) = fst e \<and> texts_valid (f (snd e)))"
  "doubles_finite (of_map nil f es) \<longleftrightarrow> (\<forall>e \<in> set es. doubles_finite (f (snd e)))"
  by (auto simp: of_map_def list_all_iff split_beta)

lemma contents_of_pointer:
  "texts_valid (of_pointer f p) \<longleftrightarrow> (\<forall>x. p = Some x \<longrightarrow> texts_valid (f x))"
  "doubles_finite (of_pointer f p) \<longleftrightarrow> (\<forall>x. p = Some x \<longrightarrow> doubles_finite (f x))"
  by (cases p; simp add: of_pointer_def)+

lemma contents_of_bytes: "texts_valid (of_bytes nil bs)" "doubles_finite (of_bytes nil bs)"
  by (simp_all add: of_bytes_def)

lemmas contents = contents_of_slice contents_of_nil_slice contents_of_map contents_of_pointer contents_of_bytes

text \<open>What evaluates the tags and names of a struct, and its fields by position.\<close>

lemmas evaluations = field_name_def omitempty_def plain_name_def nullable_def field_at_def fields_of_def
  maxNestingDepth_def option.map_ident list.map_ident

section \<open>The contract\<close>

locale codec =
  fixes fs :: "(string \<times> gotype) list"
    and depth :: nat
    and ok :: "'a \<Rightarrow> bool"
    and wr :: "'a \<Rightarrow> goval"
    and rd :: "goval \<Rightarrow> 'a"
  assumes proper [codec]: "proper_type (GStruct fs)"
    and depth [codec]: "type_depth (GStruct fs) = depth"
    and shallow: "depth \<le> maxNestingDepth"
    and settles: "ok x \<Longrightarrow> settled (GStruct fs) (wr x)"
    and reads [codec]: "rd (wr x) = x"
    and is_struct [codec]: "\<not> is_empty (wr x)"
begin

lemma settles_always [codec]: "(\<And>x. ok x) \<Longrightarrow> settled (GStruct fs) (wr x)"
  by (rule settles)

lemma depth_bound: "type_depth (GStruct fs) \<le> maxNestingDepth"
  unfolding depth by (rule shallow)

text \<open>Text and back.\<close>

lemma round_trip:
  assumes "ok x" "texts_valid (wr x)" "doubles_finite (wr x)"
  obtains s where "Marshal (GStruct fs) (wr x) = Some s"
    "apfst rd (Unmarshal (GStruct fs) s (zero_value (GStruct fs))) = (x, True)"
proof -
  from Unmarshal_Marshal [OF proper depth_bound settles assms(2,3)] assms(1) obtain s where
    "Marshal (GStruct fs) (wr x) = Some s" "Unmarshal (GStruct fs) s (zero_value (GStruct fs)) = (wr x, True)"
    by blast
  then show thesis by (intro that [of s]) (simp_all only: apfst_conv reads)
qed

end

end
