(* ===== verification/HostWire.thy ===== *)
theory HostWire
  imports HostJson JsonCodec
begin

text \<open>
  The telemetry sample as it is sent: how each record of \<open>protocol/host.go\<close> fills the
  struct it stands for. Each is a codec, so that it is read back from its text. The
  function \<open>nil\<close> says of a slice without \<open>omitempty\<close>, by the name of its field, whether
  it is nil when it has no elements.
\<close>

definition write_HostScope :: "HostScope \<Rightarrow> goval" where
  "write_HostScope x =
     VStruct
       [VString (hs_Deployment x), VString (hs_ResourceScope x), VInt (hs_CgroupVersion x),
        VString (hs_DataFilesystemScope x)]"

interpretation HostScope: codec HostScope_fields 1 "\<lambda>_. True" write_HostScope read_HostScope
  by unfold_locales (simp_all add: HostScope_fields_def write_HostScope_def read_HostScope_def codec evaluations)

definition write_PlatformObservation :: "PlatformObservation \<Rightarrow> goval" where
  "write_PlatformObservation x =
     VStruct
       [VString (pl_OS x), VString (pl_Arch x), VString (pl_KernelRelease x),
        VString (pl_DistributionID x), VString (pl_VersionID x), VInt (pl_LogicalCPUs x)]"

interpretation PlatformObservation: codec PlatformObservation_fields 1 "\<lambda>_. True" write_PlatformObservation read_PlatformObservation
  by unfold_locales (simp_all add: PlatformObservation_fields_def write_PlatformObservation_def read_PlatformObservation_def codec evaluations)

definition write_SystemCPUObservation :: "SystemCPUObservation \<Rightarrow> goval" where
  "write_SystemCPUObservation x =
     VStruct
       [VString (su_CounterEpoch x), VUint (su_Total x), VUint (su_Idle x),
        VUint (su_IOWait x), VUint (su_Steal x)]"

interpretation SystemCPUObservation: codec SystemCPUObservation_fields 1 "\<lambda>_. True" write_SystemCPUObservation read_SystemCPUObservation
  by unfold_locales (simp_all add: SystemCPUObservation_fields_def write_SystemCPUObservation_def read_SystemCPUObservation_def codec evaluations)

definition write_CgroupCPUObservation :: "CgroupCPUObservation \<Rightarrow> goval" where
  "write_CgroupCPUObservation x =
     VStruct
       [VString (gc_CounterEpoch x), of_pointer VUint (gc_UsageUS x),
        of_pointer VUint (gc_UserUS x), of_pointer VUint (gc_SystemUS x),
        of_pointer VUint (gc_NrPeriods x), of_pointer VUint (gc_NrThrottled x),
        of_pointer VUint (gc_ThrottledUS x), of_pointer VUint (gc_QuotaUS x),
        of_pointer VUint (gc_PeriodUS x), of_pointer VUint (gc_EffectiveCPUs x)]"

interpretation CgroupCPUObservation: codec CgroupCPUObservation_fields 1 "\<lambda>_. True" write_CgroupCPUObservation read_CgroupCPUObservation
  by unfold_locales (simp_all add: CgroupCPUObservation_fields_def write_CgroupCPUObservation_def read_CgroupCPUObservation_def codec evaluations)

definition write_CPUObservation :: "CPUObservation \<Rightarrow> goval" where
  "write_CPUObservation x =
     VStruct
       [of_pointer write_SystemCPUObservation (cpu_System x),
        of_pointer write_CgroupCPUObservation (cpu_Cgroup x)]"

interpretation CPUObservation: codec CPUObservation_fields 2 "\<lambda>_. True" write_CPUObservation read_CPUObservation
  by unfold_locales (simp_all add: CPUObservation_fields_def write_CPUObservation_def read_CPUObservation_def codec evaluations)

definition write_LoadObservation :: "LoadObservation \<Rightarrow> goval" where
  "write_LoadObservation x =
     VStruct
       [VFloat (ld_Load1 x), VFloat (ld_Load5 x), VFloat (ld_Load15 x)]"

interpretation LoadObservation: codec LoadObservation_fields 1 "\<lambda>_. True" write_LoadObservation read_LoadObservation
  by unfold_locales (simp_all add: LoadObservation_fields_def write_LoadObservation_def read_LoadObservation_def codec evaluations)

definition write_SystemMemoryObservation :: "SystemMemoryObservation \<Rightarrow> goval" where
  "write_SystemMemoryObservation x =
     VStruct
       [VUint (sm_TotalBytes x), of_pointer VUint (sm_AvailableBytes x),
        VUint (sm_SwapTotalBytes x), VUint (sm_SwapFreeBytes x)]"

interpretation SystemMemoryObservation: codec SystemMemoryObservation_fields 1 "\<lambda>_. True" write_SystemMemoryObservation read_SystemMemoryObservation
  by unfold_locales (simp_all add: SystemMemoryObservation_fields_def write_SystemMemoryObservation_def read_SystemMemoryObservation_def codec evaluations)

definition write_CgroupMemoryObservation :: "CgroupMemoryObservation \<Rightarrow> goval" where
  "write_CgroupMemoryObservation x =
     VStruct
       [VString (gm_CounterEpoch x), VUint (gm_CurrentBytes x),
        of_pointer VUint (gm_LimitBytes x), of_pointer VUint (gm_SwapCurrentBytes x),
        of_pointer VUint (gm_SwapLimitBytes x), of_pointer VUint (gm_OOMEvents x),
        of_pointer VUint (gm_OOMKillEvents x)]"

interpretation CgroupMemoryObservation: codec CgroupMemoryObservation_fields 1 "\<lambda>_. True" write_CgroupMemoryObservation read_CgroupMemoryObservation
  by unfold_locales (simp_all add: CgroupMemoryObservation_fields_def write_CgroupMemoryObservation_def read_CgroupMemoryObservation_def codec evaluations)

definition write_MemoryObservation :: "MemoryObservation \<Rightarrow> goval" where
  "write_MemoryObservation x =
     VStruct
       [of_pointer write_SystemMemoryObservation (mem_System x),
        of_pointer write_CgroupMemoryObservation (mem_Cgroup x)]"

interpretation MemoryObservation: codec MemoryObservation_fields 2 "\<lambda>_. True" write_MemoryObservation read_MemoryObservation
  by unfold_locales (simp_all add: MemoryObservation_fields_def write_MemoryObservation_def read_MemoryObservation_def codec evaluations)

definition write_FilesystemObservation :: "FilesystemObservation \<Rightarrow> goval" where
  "write_FilesystemObservation x =
     VStruct
       [VUint (fs_TotalBytes x), VUint (fs_AvailableBytes x),
        of_pointer VUint (fs_TotalInodes x), of_pointer VUint (fs_AvailableInodes x),
        VBool (fs_ReadOnly x)]"

interpretation FilesystemObservation: codec FilesystemObservation_fields 1 "\<lambda>_. True" write_FilesystemObservation read_FilesystemObservation
  by unfold_locales (simp_all add: FilesystemObservation_fields_def write_FilesystemObservation_def read_FilesystemObservation_def codec evaluations)

definition write_NetworkInterfaceObservation :: "NetworkInterfaceObservation \<Rightarrow> goval" where
  "write_NetworkInterfaceObservation x =
     VStruct
       [VString (ni_Name x), VInt (ni_Index x), VInt (ni_MTU x), VBool (ni_Up x),
        VString (ni_OperationalState x), of_pointer VUint (ni_LinkSpeedMbps x),
        VUint (ni_RXBytes x), VUint (ni_RXPackets x), VUint (ni_RXErrors x),
        VUint (ni_RXDropped x), VUint (ni_TXBytes x), VUint (ni_TXPackets x),
        VUint (ni_TXErrors x), VUint (ni_TXDropped x)]"

interpretation NetworkInterfaceObservation: codec NetworkInterfaceObservation_fields 1 "\<lambda>_. True" write_NetworkInterfaceObservation read_NetworkInterfaceObservation
  by unfold_locales (simp_all add: NetworkInterfaceObservation_fields_def write_NetworkInterfaceObservation_def read_NetworkInterfaceObservation_def codec evaluations)

definition write_NetworkObservation :: "(string \<Rightarrow> bool) \<Rightarrow> NetworkObservation \<Rightarrow> goval" where
  "write_NetworkObservation nil x =
     VStruct
       [VString (nw_CounterEpoch x), VString (nw_DefaultIPv4Interface x),
        VString (nw_DefaultIPv6Interface x),
        of_slice (nil ''interfaces'') write_NetworkInterfaceObservation (nw_Interfaces x)]"

interpretation NetworkObservation: codec NetworkObservation_fields 3 "\<lambda>_. True" "write_NetworkObservation nil" read_NetworkObservation for nil
  by unfold_locales (simp_all add: NetworkObservation_fields_def write_NetworkObservation_def read_NetworkObservation_def codec evaluations)

definition write_TCPObservation :: "TCPObservation \<Rightarrow> goval" where
  "write_TCPObservation x =
     VStruct
       [VString (tcp_CounterEpoch x), VUint (tcp_ActiveOpens x), VUint (tcp_PassiveOpens x),
        VUint (tcp_AttemptFails x), VUint (tcp_EstabResets x), VUint (tcp_InSegments x),
        VUint (tcp_OutSegments x), VUint (tcp_RetransSegments x),
        VUint (tcp_CurrentEstablished x)]"

interpretation TCPObservation: codec TCPObservation_fields 1 "\<lambda>_. True" write_TCPObservation read_TCPObservation
  by unfold_locales (simp_all add: TCPObservation_fields_def write_TCPObservation_def read_TCPObservation_def codec evaluations)

definition write_SocketObservation :: "SocketObservation \<Rightarrow> goval" where
  "write_SocketObservation x =
     VStruct
       [VUint (sk_TCPInUse x), VUint (sk_TCPOrphan x), VUint (sk_TCPTimeWait x),
        VUint (sk_UDPInUse x), of_pointer VUint (sk_ConntrackCurrent x),
        of_pointer VUint (sk_ConntrackLimit x)]"

interpretation SocketObservation: codec SocketObservation_fields 1 "\<lambda>_. True" write_SocketObservation read_SocketObservation
  by unfold_locales (simp_all add: SocketObservation_fields_def write_SocketObservation_def read_SocketObservation_def codec evaluations)

definition write_ProcessMetrics :: "ProcessMetrics \<Rightarrow> goval" where
  "write_ProcessMetrics x =
     VStruct
       [VInt (pm_StartedAtMS x), VString (pm_CounterEpoch x), of_pointer VUint (pm_CPUTime x),
        of_pointer VUint (pm_CPUTimeUnitsPerSecond x), VUint (pm_RSSBytes x),
        VUint (pm_OpenFDs x), of_pointer VUint (pm_FDLimit x), VUint (pm_Threads x)]"

interpretation ProcessMetrics: codec ProcessMetrics_fields 1 "\<lambda>_. True" write_ProcessMetrics read_ProcessMetrics
  by unfold_locales (simp_all add: ProcessMetrics_fields_def write_ProcessMetrics_def read_ProcessMetrics_def codec evaluations)

definition write_ProcessObservation :: "ProcessObservation \<Rightarrow> goval" where
  "write_ProcessObservation x =
     VStruct
       [write_ProcessMetrics (po_Agent x), of_pointer write_ProcessMetrics (po_Core x)]"

interpretation ProcessObservation: codec ProcessObservation_fields 2 "\<lambda>_. True" write_ProcessObservation read_ProcessObservation
  by unfold_locales (simp_all add: ProcessObservation_fields_def write_ProcessObservation_def read_ProcessObservation_def codec evaluations)

definition write_RuntimeObservation :: "RuntimeObservation \<Rightarrow> goval" where
  "write_RuntimeObservation x =
     VStruct
       [VInt (rt_AgentStartedAtMS x), VUint (rt_CoreRestartCount x),
        of_pointer VUint (rt_CoreUnexpectedExitCount x),
        VInt (rt_LastCoreUnexpectedExitAtMS x), VInt (rt_LastSyncSuccessAtMS x),
        VInt (rt_LastSyncFailureAtMS x), VUint (rt_ConsecutiveSyncFailures x),
        VUint (rt_SyncSuccessCount x), VUint (rt_SyncFailureCount x),
        of_pointer VUint (rt_LastRoundTripMS x), of_pointer VUint (rt_LastRequestBytes x),
        of_pointer VUint (rt_LastResponseBytes x), VUint (rt_CollectorDurationMS x)]"

interpretation RuntimeObservation: codec RuntimeObservation_fields 1 "\<lambda>_. True" write_RuntimeObservation read_RuntimeObservation
  by unfold_locales (simp_all add: RuntimeObservation_fields_def write_RuntimeObservation_def read_RuntimeObservation_def codec evaluations)

definition write_TuningObservation :: "TuningObservation \<Rightarrow> goval" where
  "write_TuningObservation x =
     VStruct
       [of_slice True VString (tu_TCPAvailableCongestionControls x),
        VString (tu_TCPDefaultCongestionControl x), VString (tu_DefaultQdisc x)]"

interpretation TuningObservation: codec TuningObservation_fields 2 "\<lambda>_. True" write_TuningObservation read_TuningObservation
  by unfold_locales (simp_all add: TuningObservation_fields_def write_TuningObservation_def read_TuningObservation_def codec evaluations)

definition write_HostObservation :: "(string \<Rightarrow> bool) \<Rightarrow> HostObservation \<Rightarrow> goval" where
  "write_HostObservation nil x =
     VStruct
       [VString (ho_SampleID x), VInt (ho_CollectedAtMS x), VInt (ho_UptimeMS x),
        VString (ho_BootID x), write_HostScope (ho_Scope x),
        write_PlatformObservation (ho_Platform x), of_pointer write_CPUObservation (ho_CPU x),
        of_pointer write_LoadObservation (ho_Load x),
        of_pointer write_MemoryObservation (ho_Memory x),
        of_pointer write_FilesystemObservation (ho_Filesystem x),
        of_pointer (write_NetworkObservation nil) (ho_Network x),
        of_pointer write_TCPObservation (ho_TCP x),
        of_pointer write_SocketObservation (ho_Sockets x),
        of_pointer write_ProcessObservation (ho_Processes x),
        of_pointer write_RuntimeObservation (ho_Runtime x),
        of_pointer write_TuningObservation (ho_Tuning x),
        of_slice True VString (ho_Unavailable x)]"

interpretation HostObservation: codec HostObservation_fields 4 "\<lambda>_. True" "write_HostObservation nil" read_HostObservation for nil
  by unfold_locales (simp_all add: HostObservation_fields_def write_HostObservation_def read_HostObservation_def codec evaluations)

end
