(* ===== verification/ReportWire.thy ===== *)
theory ReportWire
  imports HostWire NodeReports
begin

text \<open>
  The report as it is sent, \<open>NodeReport.MarshalJSON\<close> of \<open>protocol/report.go\<close>: the structs
  of the report with their tags, the two shapes the method gives a report, and what the
  panel decodes from either.
\<close>

section \<open>The structs\<close>

text \<open>The keys are strings of their own types.\<close>

definition read_ListenerKey :: "goval \<Rightarrow> ListenerKey" where
  "read_ListenerKey v = ListenerKey (as_string v)"
definition read_ClientKey :: "goval \<Rightarrow> ClientKey" where
  "read_ClientKey v = ClientKey (as_string v)"
definition read_SubjectKey :: "goval \<Rightarrow> SubjectKey" where
  "read_SubjectKey v = SubjectKey (as_string v)"

definition write_ListenerKey :: "ListenerKey \<Rightarrow> goval" where
  "write_ListenerKey k = VString (listener_key_string k)"
definition write_ClientKey :: "ClientKey \<Rightarrow> goval" where
  "write_ClientKey k = VString (client_key_string k)"
definition write_SubjectKey :: "SubjectKey \<Rightarrow> goval" where
  "write_SubjectKey k = VString (subject_key_string k)"

lemma key_codecs [codec]:
  "read_ListenerKey (write_ListenerKey k1) = k1" "settled GString (write_ListenerKey k1)"
  "read_ClientKey (write_ClientKey k2) = k2" "settled GString (write_ClientKey k2)"
  "read_SubjectKey (write_SubjectKey k3) = k3" "settled GString (write_SubjectKey k3)"
  by (simp_all add: read_ListenerKey_def write_ListenerKey_def read_ClientKey_def write_ClientKey_def
      read_SubjectKey_def write_SubjectKey_def codec)

definition Version_fields :: "(string \<times> gotype) list" where
  "Version_fields = [(''epoch'', GUint), (''version'', GUint)]"

definition read_Version :: "goval \<Rightarrow> Version" where
  "read_Version v = \<lparr>Epoch = as_uint (field_at 0 v), VersionNo = as_uint (field_at 1 v)\<rparr>"

definition write_Version :: "Version \<Rightarrow> goval" where
  "write_Version x =
     VStruct
       [VUint (Epoch x), VUint (VersionNo x)]"

interpretation Version: codec Version_fields 1 "\<lambda>_. True"
    write_Version read_Version
  by unfold_locales
    (simp_all add: Version_fields_def write_Version_def read_Version_def codec evaluations)

definition StreamState_fields :: "(string \<times> gotype) list" where
  "StreamState_fields = [(''applied'', GStruct Version_fields), (''etag'', GString)]"

definition read_StreamState :: "goval \<Rightarrow> StreamState" where
  "read_StreamState v =
     \<lparr>st_Applied = read_Version (field_at 0 v), st_ETag = as_string (field_at 1 v)\<rparr>"

definition write_StreamState :: "StreamState \<Rightarrow> goval" where
  "write_StreamState x =
     VStruct
       [write_Version (st_Applied x), VString (st_ETag x)]"

interpretation StreamState: codec StreamState_fields 2 "\<lambda>_. True"
    write_StreamState read_StreamState
  by unfold_locales
    (simp_all add: StreamState_fields_def write_StreamState_def read_StreamState_def codec evaluations)

definition ObjectStatus_fields :: "(string \<times> gotype) list" where
  "ObjectStatus_fields =
     [(''stream'', GString), (''key'', GString), (''state'', GString),
      (''since_version,omitempty'', GStruct Version_fields),
      (''first_failed_at_ms,omitempty'', GInt), (''issue_code,omitempty'', GString),
      (''blocked_on,omitempty'', GString)]"

definition read_ObjectStatus :: "goval \<Rightarrow> ObjectStatus" where
  "read_ObjectStatus v =
     \<lparr>os_Stream = as_string (field_at 0 v), os_Key = as_string (field_at 1 v),
      os_State = as_string (field_at 2 v), os_SinceVersion = read_Version (field_at 3 v),
      os_FirstFailedAtMS = as_int (field_at 4 v), os_IssueCode = as_string (field_at 5 v),
      os_BlockedOn = as_string (field_at 6 v)\<rparr>"

definition write_ObjectStatus :: "ObjectStatus \<Rightarrow> goval" where
  "write_ObjectStatus x =
     VStruct
       [VString (os_Stream x), VString (os_Key x), VString (os_State x),
        write_Version (os_SinceVersion x), VInt (os_FirstFailedAtMS x),
        VString (os_IssueCode x), VString (os_BlockedOn x)]"

interpretation ObjectStatus: codec ObjectStatus_fields 2 "\<lambda>_. True"
    write_ObjectStatus read_ObjectStatus
  by unfold_locales
    (simp_all add: ObjectStatus_fields_def write_ObjectStatus_def read_ObjectStatus_def codec evaluations)

definition ClientCounters_fields :: "(string \<times> gotype) list" where
  "ClientCounters_fields =
     [(''key'', GString), (''present'', GBool), (''up_bytes'', GInt), (''down_bytes'', GInt),
      (''counter_epoch'', GUint), (''gate'', GString), (''live_ips,omitempty'', GSlice GString)]"

definition read_ClientCounters :: "goval \<Rightarrow> ClientCounters" where
  "read_ClientCounters v =
     \<lparr>cc_Key = read_ClientKey (field_at 0 v), cc_Present = as_bool (field_at 1 v),
      cc_UpBytes = as_int (field_at 2 v), cc_DownBytes = as_int (field_at 3 v),
      cc_CounterEpoch = as_uint (field_at 4 v), cc_Gate = as_string (field_at 5 v),
      cc_LiveIPs = as_slice as_string (field_at 6 v)\<rparr>"

definition write_ClientCounters :: "ClientCounters \<Rightarrow> goval" where
  "write_ClientCounters x =
     VStruct
       [write_ClientKey (cc_Key x), VBool (cc_Present x), VInt (cc_UpBytes x),
        VInt (cc_DownBytes x), VUint (cc_CounterEpoch x), VString (cc_Gate x),
        of_slice True VString (cc_LiveIPs x)]"

interpretation ClientCounters: codec ClientCounters_fields 2 "\<lambda>_. True"
    write_ClientCounters read_ClientCounters
  by unfold_locales
    (simp_all add: ClientCounters_fields_def write_ClientCounters_def read_ClientCounters_def codec evaluations)

definition ListenerCounters_fields :: "(string \<times> gotype) list" where
  "ListenerCounters_fields =
     [(''key'', GString), (''present'', GBool), (''up_bytes'', GInt), (''down_bytes'', GInt),
      (''counter_epoch'', GUint)]"

definition read_ListenerCounters :: "goval \<Rightarrow> ListenerCounters" where
  "read_ListenerCounters v =
     \<lparr>lc_Key = read_ListenerKey (field_at 0 v), lc_Present = as_bool (field_at 1 v),
      lc_UpBytes = as_int (field_at 2 v), lc_DownBytes = as_int (field_at 3 v),
      lc_CounterEpoch = as_uint (field_at 4 v)\<rparr>"

definition write_ListenerCounters :: "ListenerCounters \<Rightarrow> goval" where
  "write_ListenerCounters x =
     VStruct
       [write_ListenerKey (lc_Key x), VBool (lc_Present x), VInt (lc_UpBytes x),
        VInt (lc_DownBytes x), VUint (lc_CounterEpoch x)]"

interpretation ListenerCounters: codec ListenerCounters_fields 1 "\<lambda>_. True"
    write_ListenerCounters read_ListenerCounters
  by unfold_locales
    (simp_all add: ListenerCounters_fields_def write_ListenerCounters_def read_ListenerCounters_def codec evaluations)

definition SubjectObservation_fields :: "(string \<times> gotype) list" where
  "SubjectObservation_fields =
     [(''subject'', GString), (''ip_local_count'', GInt),
      (''ip_would_deny_since_last_report'', GInt)]"

definition read_SubjectObservation :: "goval \<Rightarrow> SubjectObservation" where
  "read_SubjectObservation v =
     \<lparr>so_Subject = read_SubjectKey (field_at 0 v), so_IPLocalCount = as_int (field_at 1 v),
      so_IPWouldDenySinceLastReport = as_int (field_at 2 v)\<rparr>"

definition write_SubjectObservation :: "SubjectObservation \<Rightarrow> goval" where
  "write_SubjectObservation x =
     VStruct
       [write_SubjectKey (so_Subject x), VInt (so_IPLocalCount x),
        VInt (so_IPWouldDenySinceLastReport x)]"

interpretation SubjectObservation: codec SubjectObservation_fields 1 "\<lambda>_. True"
    write_SubjectObservation read_SubjectObservation
  by unfold_locales
    (simp_all add: SubjectObservation_fields_def write_SubjectObservation_def read_SubjectObservation_def codec evaluations)

definition Issue_fields :: "(string \<times> gotype) list" where
  "Issue_fields =
     [(''code'', GString), (''key,omitempty'', GString), (''detail,omitempty'', GString)]"

definition read_Issue :: "goval \<Rightarrow> Issue" where
  "read_Issue v =
     \<lparr>i_Code = as_string (field_at 0 v), i_Key = as_string (field_at 1 v),
      i_Detail = as_string (field_at 2 v)\<rparr>"

definition write_Issue :: "Issue \<Rightarrow> goval" where
  "write_Issue x =
     VStruct
       [VString (i_Code x), VString (i_Key x), VString (i_Detail x)]"

interpretation Issue: codec Issue_fields 1 "\<lambda>_. True"
    write_Issue read_Issue
  by unfold_locales
    (simp_all add: Issue_fields_def write_Issue_def read_Issue_def codec evaluations)

definition TaskResult_fields :: "(string \<times> gotype) list" where
  "TaskResult_fields =
     [(''id'', GString), (''kind'', GString), (''input_sha256'', GString),
      (''not_after_ms,omitempty'', GInt), (''ok'', GBool), (''indeterminate,omitempty'', GBool),
      (''result,omitempty'', GBytes), (''error_code,omitempty'', GString),
      (''error,omitempty'', GString)]"

definition read_TaskResult :: "goval \<Rightarrow> TaskResult" where
  "read_TaskResult v =
     \<lparr>tr_ID = as_string (field_at 0 v), tr_Kind = as_string (field_at 1 v),
      tr_InputSHA256 = as_string (field_at 2 v), tr_NotAfterMS = as_int (field_at 3 v),
      tr_OK = as_bool (field_at 4 v), tr_Indeterminate = as_bool (field_at 5 v),
      tr_Result = as_bytes (field_at 6 v), tr_ErrorCode = as_string (field_at 7 v),
      tr_Error = as_string (field_at 8 v)\<rparr>"

definition write_TaskResult :: "TaskResult \<Rightarrow> goval" where
  "write_TaskResult x =
     VStruct
       [VString (tr_ID x), VString (tr_Kind x), VString (tr_InputSHA256 x),
        VInt (tr_NotAfterMS x), VBool (tr_OK x), VBool (tr_Indeterminate x),
        of_bytes True (tr_Result x), VString (tr_ErrorCode x), VString (tr_Error x)]"

interpretation TaskResult: codec TaskResult_fields 1 "\<lambda>_. True"
    write_TaskResult read_TaskResult
  by unfold_locales
    (simp_all add: TaskResult_fields_def write_TaskResult_def read_TaskResult_def codec evaluations)

definition NodeReport_fields :: "(string \<times> gotype) list" where
  "NodeReport_fields =
     [(''agent_id'', GString), (''protocol_version,omitempty'', GInt),
      (''reported_at_ms,omitempty'', GInt), (''agent_version,omitempty'', GString),
      (''core_engine,omitempty'', GString), (''core_version,omitempty'', GString),
      (''core_state,omitempty'', GString), (''capabilities,omitempty'', GSlice GString),
      (''partial'', GBool), (''have'', GMap (GStruct StreamState_fields)),
      (''objects'', GSlice (GStruct ObjectStatus_fields)),
      (''listener_counters'', GSlice (GStruct ListenerCounters_fields)),
      (''clients'', GSlice (GStruct ClientCounters_fields)),
      (''subjects,omitempty'', GSlice (GStruct SubjectObservation_fields)),
      (''host,omitempty'', GPtr (GStruct HostObservation_fields)),
      (''issues,omitempty'', GSlice (GStruct Issue_fields)),
      (''task_results,omitempty'', GSlice (GStruct TaskResult_fields))]"

definition read_NodeReport :: "goval \<Rightarrow> NodeReport" where
  "read_NodeReport v =
     \<lparr>nr_AgentID = as_string (field_at 0 v), nr_ProtocolVersion = as_int (field_at 1 v),
      nr_ReportedAtMS = as_int (field_at 2 v), nr_AgentVersion = as_string (field_at 3 v),
      nr_CoreEngine = as_string (field_at 4 v), nr_CoreVersion = as_string (field_at 5 v),
      nr_CoreState = as_string (field_at 6 v), nr_Capabilities = as_slice as_string (field_at 7 v),
      nr_Partial = as_bool (field_at 8 v), nr_Have = as_map read_StreamState (field_at 9 v),
      nr_Objects = as_slice read_ObjectStatus (field_at 10 v),
      nr_ListenerCounters = as_slice read_ListenerCounters (field_at 11 v),
      nr_Clients = as_slice read_ClientCounters (field_at 12 v),
      nr_Subjects = as_slice read_SubjectObservation (field_at 13 v),
      nr_Host = as_pointer read_HostObservation (field_at 14 v),
      nr_Issues = as_slice read_Issue (field_at 15 v),
      nr_TaskResults = as_slice read_TaskResult (field_at 16 v)\<rparr>"

definition write_NodeReport :: "(string \<Rightarrow> bool) \<Rightarrow> NodeReport \<Rightarrow> goval" where
  "write_NodeReport nil x =
     VStruct
       [VString (nr_AgentID x), VInt (nr_ProtocolVersion x), VInt (nr_ReportedAtMS x),
        VString (nr_AgentVersion x), VString (nr_CoreEngine x), VString (nr_CoreVersion x),
        VString (nr_CoreState x), of_slice True VString (nr_Capabilities x),
        VBool (nr_Partial x), of_map (nil ''have'') write_StreamState (nr_Have x),
        of_slice (nil ''objects'') write_ObjectStatus (nr_Objects x),
        of_slice (nil ''listener_counters'') write_ListenerCounters (nr_ListenerCounters x),
        of_slice (nil ''clients'') write_ClientCounters (nr_Clients x),
        of_slice True write_SubjectObservation (nr_Subjects x),
        of_pointer (write_HostObservation nil) (nr_Host x),
        of_slice True write_Issue (nr_Issues x),
        of_slice True write_TaskResult (nr_TaskResults x)]"

interpretation NodeReport: codec NodeReport_fields 5 "\<lambda>r. key_sorted (nr_Have r)"
    "write_NodeReport nil" read_NodeReport for nil
  by unfold_locales
    (simp_all add: NodeReport_fields_def write_NodeReport_def read_NodeReport_def codec evaluations)


end
