(* ===== verification/ReportMarshal.thy ===== *)
theory ReportMarshal
  imports ReportWire
begin

text \<open>
  \<open>NodeReport.MarshalJSON\<close> of \<open>protocol/report.go\<close> and what a panel decodes from its text:
  a full report comes back as it was, a partial one without its enumerations.
\<close>

section \<open>The two shapes\<close>

text \<open>The second, hand-written shape, for a partial report.\<close>

record partialReport =
  pr_AgentID :: string
  pr_ProtocolVersion :: goint
  pr_ReportedAtMS :: int64
  pr_AgentVersion :: string
  pr_CoreEngine :: string
  pr_CoreVersion :: string
  pr_CoreState :: string
  pr_Capabilities :: "string list"
  pr_Partial :: bool
  pr_Have :: "(string \<times> StreamState) list"
  pr_Host :: "HostObservation option"
  pr_Issues :: "Issue list"
  pr_TaskResults :: "TaskResult list"

definition partialReport_fields :: "(string \<times> gotype) list" where
  "partialReport_fields =
     [(''agent_id'', GString), (''protocol_version,omitempty'', GInt),
      (''reported_at_ms,omitempty'', GInt), (''agent_version,omitempty'', GString),
      (''core_engine,omitempty'', GString), (''core_version,omitempty'', GString),
      (''core_state,omitempty'', GString), (''capabilities,omitempty'', GSlice GString),
      (''partial'', GBool), (''have'', GMap (GStruct StreamState_fields)),
      (''host,omitempty'', GPtr (GStruct HostObservation_fields)),
      (''issues,omitempty'', GSlice (GStruct Issue_fields)),
      (''task_results,omitempty'', GSlice (GStruct TaskResult_fields))]"

definition write_partialReport :: "(string \<Rightarrow> bool) \<Rightarrow> partialReport \<Rightarrow> goval" where
  "write_partialReport nil x =
     VStruct
       [VString (pr_AgentID x), VInt (pr_ProtocolVersion x), VInt (pr_ReportedAtMS x),
        VString (pr_AgentVersion x), VString (pr_CoreEngine x), VString (pr_CoreVersion x),
        VString (pr_CoreState x), of_slice True VString (pr_Capabilities x),
        VBool (pr_Partial x), of_map (nil ''have'') write_StreamState (pr_Have x),
        of_pointer (write_HostObservation nil) (pr_Host x),
        of_slice True write_Issue (pr_Issues x),
        of_slice True write_TaskResult (pr_TaskResults x)]"

text \<open>What the method copies into it.\<close>

definition partial_of :: "NodeReport \<Rightarrow> partialReport" where
  "partial_of r =
     \<lparr>pr_AgentID = nr_AgentID r, pr_ProtocolVersion = nr_ProtocolVersion r,
      pr_ReportedAtMS = nr_ReportedAtMS r, pr_AgentVersion = nr_AgentVersion r,
      pr_CoreEngine = nr_CoreEngine r, pr_CoreVersion = nr_CoreVersion r,
      pr_CoreState = nr_CoreState r, pr_Capabilities = nr_Capabilities r,
      pr_Partial = True, pr_Have = nr_Have r, pr_Host = nr_Host r,
      pr_Issues = nr_Issues r, pr_TaskResults = nr_TaskResults r\<rparr>"

text \<open>
  The method. Replacing a nil enumeration by an empty one leaves the model's list as it is
  and makes \<open>nil\<close> false for its field.
\<close>

definition MarshalJSON :: "(string \<Rightarrow> bool) \<Rightarrow> NodeReport \<Rightarrow> string option" where
  "MarshalJSON nil r =
     (if \<not> nr_Partial r then
        Marshal (GStruct NodeReport_fields)
          (write_NodeReport
            (nil(''objects'' := False, ''clients'' := False, ''listener_counters'' := False)) r)
      else
        Marshal (GStruct partialReport_fields)
          (write_partialReport nil (partial_of r)))"

text \<open>What \<open>json.Unmarshal\<close> makes of a text, into a fresh report.\<close>

definition UnmarshalNodeReport :: "string \<Rightarrow> NodeReport \<times> bool" where
  "UnmarshalNodeReport data =
     apfst read_NodeReport
       (Unmarshal (GStruct NodeReport_fields) data (zero_value (GStruct NodeReport_fields)))"

section \<open>The order of a map\<close>

text \<open>A Go map has none; its entries are sent in the order of their keys.\<close>

definition entry_key :: "string \<times> 'a \<Rightarrow> nat list" where
  "entry_key e = map of_char (fst e)"

definition sorted_have :: "NodeReport \<Rightarrow> NodeReport" where
  "sorted_have r = r\<lparr>nr_Have := sort_key entry_key (nr_Have r)\<rparr>"

lemma sorted_have_fields [simp]:
  "nr_AgentID (sorted_have r) = nr_AgentID r" "nr_ProtocolVersion (sorted_have r) = nr_ProtocolVersion r"
  "nr_ReportedAtMS (sorted_have r) = nr_ReportedAtMS r" "nr_CoreEngine (sorted_have r) = nr_CoreEngine r"
  "nr_Capabilities (sorted_have r) = nr_Capabilities r" "nr_Partial (sorted_have r) = nr_Partial r"
  "nr_Objects (sorted_have r) = nr_Objects r" "nr_ListenerCounters (sorted_have r) = nr_ListenerCounters r"
  "nr_Clients (sorted_have r) = nr_Clients r" "nr_Subjects (sorted_have r) = nr_Subjects r"
  "nr_Host (sorted_have r) = nr_Host r" "nr_Issues (sorted_have r) = nr_Issues r"
  "nr_TaskResults (sorted_have r) = nr_TaskResults r"
  by (simp_all add: sorted_have_def)

lemma tree_entries_map:
  "tree_entries t es =
     (if \<forall>e \<in> set es. tree t (snd e) \<noteq> None then Some (map (\<lambda>e. (fst e, the (tree t (snd e)))) es) else None)"
proof (induction es)
  case (Cons e es)
  then show ?case by (cases e; cases "tree t (snd e)"; cases "\<forall>e \<in> set es. tree t (snd e) \<noteq> None") simp_all
qed simp

lemma entry_key_map: "fst (g e) = fst e \<Longrightarrow> entry_key (g e) = entry_key e"
  by (simp add: entry_key_def)

lemma sort_entry_map:
  assumes "\<And>e. fst (g e) = fst e"
  shows "sort_key entry_key (map g es) = map g (sort_key entry_key es)"
proof (induction es)
  case (Cons e es)
  have "insort_key entry_key (g e) (map g xs) = map g (insort_key entry_key e xs)" for xs
    by (induction xs) (simp_all add: entry_key_map [of g, OF assms])
  with Cons show ?case by simp
qed simp

lemma by_key_entry: "by_key ms = sort_key entry_key ms"
  by (simp add: by_key_def entry_key_def [abs_def])

lemma tree_of_sorted_map:
  "tree (GMap t) (of_map nil f (sort_key entry_key es)) = tree (GMap t) (of_map nil f es)"
proof -
  let ?es = "map (apsnd f) es" and ?g = "\<lambda>e. (fst e, the (tree t (snd e)))"
  have s: "map (apsnd f) (sort_key entry_key es) = sort_key entry_key ?es"
    by (rule sort_entry_map [symmetric]) simp
  have "sort_key entry_key (map ?g (sort_key entry_key ?es)) = sort_key entry_key (map ?g ?es)"
    by (simp add: sort_entry_map sort_key_id_if_sorted)
  moreover have "(sort_key entry_key es = []) = (es = [])"
    by (metis length_0_conv length_sort)
  ultimately show ?thesis
    unfolding of_map_def s by (simp add: tree_entries_map by_key_entry del: map_map)
qed

lemma key_sorted_have: "distinct (map fst (nr_Have r)) \<Longrightarrow> key_sorted (nr_Have (sorted_have r))"
proof -
  assume "distinct (map fst (nr_Have r))"
  then have "distinct (map fst (sort_key entry_key (nr_Have r)))"
    by (simp add: distinct_map inj_on_def)
  then show ?thesis
    unfolding key_sorted_def sorted_have_def using sorted_sort_key [of entry_key]
    by (simp add: entry_key_def [abs_def])
qed

lemma tree_fields_update:
  "i < length fs \<Longrightarrow> length vs = length fs \<Longrightarrow> \<not> omitempty (fst (fs ! i)) \<Longrightarrow>
    tree (snd (fs ! i)) w = tree (snd (fs ! i)) (vs ! i) \<Longrightarrow> tree_fields fs (vs[i := w]) = tree_fields fs vs"
proof (induction fs vs arbitrary: i rule: list_induct2')
  case (4 f fs v vs)
  obtain tag t where f: "f = (tag, t)" by fastforce
  show ?case
  proof (cases i)
    case 0
    with 4 f show ?thesis by simp
  next
    case (Suc k)
    with 4 have "tree_fields fs (vs[k := w]) = tree_fields fs vs" by simp
    with Suc f show ?thesis by simp
  qed
qed simp_all

lemma tree_of_sorted_have:
  assumes "fs ! 9 = (''have'', GMap (GStruct StreamState_fields))" "length fs = 17"
  shows "tree (GStruct fs) (write_NodeReport nil (sorted_have r)) = tree (GStruct fs) (write_NodeReport nil r)"
proof -
  let ?vs = "fields_of (write_NodeReport nil r)"
  let ?w = "of_map (nil ''have'') write_StreamState (sort_key entry_key (nr_Have r))"
  have "write_NodeReport nil (sorted_have r) = VStruct (?vs[9 := ?w])"
    by (simp add: write_NodeReport_def sorted_have_def fields_of_def)
  moreover have "tree_fields fs (?vs[9 := ?w]) = tree_fields fs ?vs"
  proof (rule tree_fields_update)
    show "\<not> omitempty (fst (fs ! 9))" by (simp add: assms(1) omitempty_def)
    have "?vs ! 9 = of_map (nil ''have'') write_StreamState (nr_Have r)"
      by (simp add: write_NodeReport_def fields_of_def)
    then show "tree (snd (fs ! 9)) ?w = tree (snd (fs ! 9)) (?vs ! 9)"
      unfolding assms(1) by (simp only: snd_conv tree_of_sorted_map)
  qed (simp_all add: assms(2) write_NodeReport_def fields_of_def)
  ultimately show ?thesis by (simp add: fields_of_def)
qed

section \<open>A partial report decodes as a report without enumerations\<close>

definition without_enumerations :: "NodeReport \<Rightarrow> NodeReport" where
  "without_enumerations r = r\<lparr>nr_Objects := [], nr_ListenerCounters := [], nr_Clients := [], nr_Subjects := []\<rparr>"

text \<open>
  The partial shape is the full one with its enumerations under \<open>omitempty\<close>, and empty.
\<close>

definition enumeration_names :: "string set" where
  "enumeration_names = {''objects'', ''listener_counters'', ''clients''}"

definition omitting_fields :: "(string \<times> gotype) list" where
  "omitting_fields =
     map (\<lambda>(tag, t). (if tag \<in> enumeration_names then tag @ '',omitempty'' else tag, t)) NodeReport_fields"

definition write_omitting :: "(string \<Rightarrow> bool) \<Rightarrow> NodeReport \<Rightarrow> goval" where
  "write_omitting nil = write_NodeReport (\<lambda>name. name \<in> enumeration_names \<or> nil name)"

lemma omitting_fields_eval:
  "omitting_fields =
     [(''agent_id'', GString), (''protocol_version,omitempty'', GInt),
      (''reported_at_ms,omitempty'', GInt), (''agent_version,omitempty'', GString),
      (''core_engine,omitempty'', GString), (''core_version,omitempty'', GString),
      (''core_state,omitempty'', GString), (''capabilities,omitempty'', GSlice GString),
      (''partial'', GBool), (''have'', GMap (GStruct StreamState_fields)),
      (''objects,omitempty'', GSlice (GStruct ObjectStatus_fields)),
      (''listener_counters,omitempty'', GSlice (GStruct ListenerCounters_fields)),
      (''clients,omitempty'', GSlice (GStruct ClientCounters_fields)),
      (''subjects,omitempty'', GSlice (GStruct SubjectObservation_fields)),
      (''host,omitempty'', GPtr (GStruct HostObservation_fields)),
      (''issues,omitempty'', GSlice (GStruct Issue_fields)),
      (''task_results,omitempty'', GSlice (GStruct TaskResult_fields))]"
  by (simp add: omitting_fields_def NodeReport_fields_def enumeration_names_def)

interpretation omitting: codec omitting_fields 5 "\<lambda>r. key_sorted (nr_Have r)"
    "write_omitting nil" read_NodeReport for nil
  by unfold_locales
    (simp_all add: omitting_fields_eval write_omitting_def enumeration_names_def write_NodeReport_def
      read_NodeReport_def codec evaluations)

lemma same_names: "map (apfst field_name) omitting_fields = map (apfst field_name) NodeReport_fields"
  by (simp add: omitting_fields_eval NodeReport_fields_def field_name_def)

text \<open>Decoding looks at the names of the fields and their types, not at the rest of the tags.\<close>

lemma field_index_names:
  assumes "map (apfst field_name) fs = map (apfst field_name) gs"
  shows "field_index fs k = field_index gs k"
proof -
  have by_name: "position (\<lambda>f. P (field_name (fst f))) hs = position P (map fst (map (apfst field_name) hs))"
    for P and hs :: "(string \<times> gotype) list"
    by (simp add: position_def list_ex_iff takeWhile_map comp_def)
  have "position (\<lambda>f. P (field_name (fst f))) fs = position (\<lambda>f. P (field_name (fst f))) gs" for P
    unfolding by_name assms ..
  note this [of "\<lambda>n. n = k"] this [of "\<lambda>n. fold_name n = fold_name k"]
  then show ?thesis unfolding field_index_def by (elim subst) (rule refl)
qed

lemma store_members_names:
  assumes "map (apfst field_name) fs = map (apfst field_name) gs"
  shows "store_members fs vals ms = store_members gs vals ms"
proof (induction ms arbitrary: vals)
  case (Cons m ms)
  obtain k j where m: "m = (k, j)" by fastforce
  have "snd (fs ! i) = snd (gs ! i)" if "i < length fs" for i
    using assms that by (metis length_map nth_map snd_apfst)
  then have "snd (fs ! i) = snd (gs ! i)" if "field_index fs k = Some i" for i
    using field_index_bound [OF that] by simp
  with Cons show ?case by (simp add: m field_index_names [OF assms] split: option.split)
qed simp

lemma Unmarshal_names:
  assumes "map (apfst field_name) fs = map (apfst field_name) gs"
  shows "Unmarshal (GStruct fs) s (zero_value (GStruct fs)) = Unmarshal (GStruct gs) s (zero_value (GStruct gs))"
proof -
  have "map snd fs = map snd gs" using arg_cong [OF assms, of "map snd"] by (simp add: comp_def)
  moreover have "zero_value (GStruct hs) = VStruct (map zero_value (map snd hs))" for hs
    by (simp add: comp_def split_beta)
  ultimately have "zero_value (GStruct fs) = zero_value (GStruct gs)" by (simp only:)
  moreover have "store (GStruct fs) v j = store (GStruct gs) v j" for v j
    unfolding store.simps(3) store_members_names [OF assms] ..
  ultimately show ?thesis by (simp only: Unmarshal_def)
qed

lemma tree_fields_skip_one:
  "length xs = length vs \<Longrightarrow> omitempty tag \<Longrightarrow> is_empty w \<Longrightarrow>
    tree_fields (xs @ (tag, t) # fs) (vs @ w # ws) = tree_fields (xs @ fs) (vs @ ws)"
  by (induction xs vs rule: list_induct2) (auto split: option.split)

lemma tree_fields_skip:
  "length xs = length vs \<Longrightarrow> \<forall>(tag, t) \<in> set es. omitempty tag \<Longrightarrow> is_empty w \<Longrightarrow>
    tree_fields (xs @ es @ fs) (vs @ replicate (length es) w @ ws) = tree_fields (xs @ fs) (vs @ ws)"
  by (induction es) (auto simp: tree_fields_skip_one)

lemma write_host_nil:
  "nil ''interfaces'' = nil' ''interfaces'' \<Longrightarrow> write_HostObservation nil h = write_HostObservation nil' h"
proof -
  assume "nil ''interfaces'' = nil' ''interfaces''"
  then have "write_NetworkObservation nil = write_NetworkObservation nil'"
    by (intro ext) (simp add: write_NetworkObservation_def)
  then show ?thesis by (simp add: write_HostObservation_def)
qed

lemma partial_tree:
  assumes "nr_Partial r"
  shows "tree (GStruct partialReport_fields)
     (write_partialReport nil (partial_of r)) =
   tree (GStruct omitting_fields) (write_omitting nil (without_enumerations r))"
proof -
  let ?v = "write_omitting nil (without_enumerations r)"
  define es where "es =
      [(''objects,omitempty'', GSlice (GStruct ObjectStatus_fields)),
       (''listener_counters,omitempty'', GSlice (GStruct ListenerCounters_fields)),
       (''clients,omitempty'', GSlice (GStruct ClientCounters_fields)),
       (''subjects,omitempty'', GSlice (GStruct SubjectObservation_fields))]"
  have "omitting_fields = take 10 partialReport_fields @ es @ drop 10 partialReport_fields"
    by (simp add: omitting_fields_eval partialReport_fields_def es_def)
  moreover have "fields_of ?v = take 10 (fields_of ?v) @ replicate (length es) (VSlice None []) @ drop 14 (fields_of ?v)"
    by (simp add: write_omitting_def write_NodeReport_def without_enumerations_def fields_of_def
        enumeration_names_def of_slice_def es_def)
  moreover have "tree_fields (take 10 partialReport_fields @ es @ drop 10 partialReport_fields)
        (take 10 (fields_of ?v) @ replicate (length es) (VSlice None []) @ drop 14 (fields_of ?v)) =
      tree_fields (take 10 partialReport_fields @ drop 10 partialReport_fields)
        (take 10 (fields_of ?v) @ drop 14 (fields_of ?v))"
  proof (rule tree_fields_skip)
    show "length (take 10 partialReport_fields) = length (take 10 (fields_of ?v))"
      by (simp add: partialReport_fields_def write_omitting_def write_NodeReport_def fields_of_def)
  qed (simp_all add: es_def omitempty_def)
  ultimately have "tree_fields omitting_fields (fields_of ?v) =
      tree_fields partialReport_fields (take 10 (fields_of ?v) @ drop 14 (fields_of ?v))"
    by (metis append_take_drop_id)
  note base = this
  have host: "write_HostObservation (\<lambda>name. name \<in> enumeration_names \<or> nil name) = write_HostObservation nil"
    by (intro ext write_host_nil) (simp add: enumeration_names_def)
  note host = host [unfolded enumeration_names_def insert_iff empty_iff simp_thms disj_assoc]
  have "take 10 (fields_of ?v) @ drop 14 (fields_of ?v) =
      fields_of (write_partialReport nil (partial_of r))"
    by (simp add: write_omitting_def write_NodeReport_def without_enumerations_def fields_of_def
        write_partialReport_def enumeration_names_def host partial_of_def assms)
  with base show ?thesis by simp
qed

section \<open>The whole call\<close>

lemma MarshalJSON_full:
  "\<not> nr_Partial r \<Longrightarrow>
    MarshalJSON nil r = Marshal (GStruct NodeReport_fields)
      (write_NodeReport (nil(''objects'' := False, ''clients'' := False, ''listener_counters'' := False)) r)"
  by (simp add: MarshalJSON_def)

lemma MarshalJSON_partial:
  "nr_Partial r \<Longrightarrow>
    MarshalJSON nil r = Marshal (GStruct omitting_fields) (write_omitting nil (without_enumerations r))"
  using partial_tree [of r nil] by (simp add: MarshalJSON_def Marshal_def del: tree.simps)

text \<open>Every string of a report is well-formed UTF-8.\<close>

definition report_texts_valid :: "NodeReport \<Rightarrow> bool" where
  "report_texts_valid r = texts_valid (write_NodeReport (\<lambda>_. True) r)"

lemma network_contents:
  "texts_valid (write_NetworkObservation nil h) = texts_valid (write_NetworkObservation nil' h)"
  by (simp add: write_NetworkObservation_def contents)

lemma host_contents:
  "texts_valid (write_HostObservation nil h) = texts_valid (write_HostObservation (\<lambda>_. True) h)"
  by (simp add: write_HostObservation_def contents network_contents [of nil _ "\<lambda>_. True"])

lemma report_texts: "texts_valid (write_NodeReport nil r) = report_texts_valid r"
  by (simp add: report_texts_valid_def write_NodeReport_def contents host_contents [of nil])

lemma report_texts_sorted: "report_texts_valid (sorted_have r) = report_texts_valid r"
  by (simp add: report_texts_valid_def write_NodeReport_def contents sorted_have_def)

lemma report_texts_partial:
  "report_texts_valid r \<Longrightarrow> report_texts_valid (without_enumerations r)"
  by (simp add: report_texts_valid_def write_NodeReport_def contents without_enumerations_def)

text \<open>The only doubles of a report are the three load averages.\<close>

definition load_finite :: "NodeReport \<Rightarrow> bool" where
  "load_finite r \<longleftrightarrow>
     pred_option (\<lambda>h. pred_option (\<lambda>l. list_all (\<lambda>x. \<not> IsNaN x \<and> \<not> IsInf x) [ld_Load1 l, ld_Load5 l, ld_Load15 l])
       (ho_Load h)) (nr_Host r)"

lemmas host_writers = write_HostScope_def write_PlatformObservation_def write_SystemCPUObservation_def
  write_CgroupCPUObservation_def write_CPUObservation_def write_LoadObservation_def
  write_SystemMemoryObservation_def write_CgroupMemoryObservation_def write_MemoryObservation_def
  write_FilesystemObservation_def write_NetworkInterfaceObservation_def write_NetworkObservation_def
  write_TCPObservation_def write_SocketObservation_def write_ProcessMetrics_def write_ProcessObservation_def
  write_RuntimeObservation_def write_TuningObservation_def write_HostObservation_def

lemmas report_writers = write_Version_def write_StreamState_def write_ObjectStatus_def write_ClientCounters_def
  write_ListenerCounters_def write_SubjectObservation_def write_Issue_def write_TaskResult_def
  write_ListenerKey_def write_ClientKey_def write_SubjectKey_def write_NodeReport_def

lemma report_doubles: "doubles_finite (write_NodeReport nil r) = load_finite r"
  by (cases "nr_Host r") (auto simp: load_finite_def host_writers report_writers contents pred_option_def)

section \<open>What is decoded is what was sent\<close>

definition as_received :: "NodeReport \<Rightarrow> NodeReport" where
  "as_received r = sorted_have (if nr_Partial r then without_enumerations r else r)"

lemma Marshal_sorted:
  "Marshal (GStruct NodeReport_fields) (write_NodeReport nil (sorted_have r)) =
     Marshal (GStruct NodeReport_fields) (write_NodeReport nil r)"
  "Marshal (GStruct omitting_fields) (write_omitting nil (sorted_have r)) =
     Marshal (GStruct omitting_fields) (write_omitting nil r)"
  by (simp_all add: Marshal_def write_omitting_def tree_of_sorted_have NodeReport_fields_def omitting_fields_eval
      del: tree.simps)

lemma full_report_received:
  assumes "\<not> nr_Partial r" "distinct (map fst (nr_Have r))" "report_texts_valid r" "load_finite r"
  obtains s where "MarshalJSON nil r = Some s" "UnmarshalNodeReport s = (sorted_have r, True)"
proof -
  let ?nil = "nil(''objects'' := False, ''clients'' := False, ''listener_counters'' := False)"
  have "load_finite (sorted_have r)" using assms(4) by (simp add: load_finite_def sorted_have_def)
  with NodeReport.round_trip [OF key_sorted_have [OF assms(2)], of ?nil] assms(3) obtain s where
    "Marshal (GStruct NodeReport_fields) (write_NodeReport ?nil (sorted_have r)) = Some s"
    "apfst read_NodeReport (Unmarshal (GStruct NodeReport_fields) s (zero_value (GStruct NodeReport_fields))) =
      (sorted_have r, True)"
    by (auto simp: report_texts report_texts_sorted report_doubles simp del: zero_value.simps)
  then show thesis
    by (intro that [of s]) (simp_all only: MarshalJSON_full [OF assms(1)] Marshal_sorted UnmarshalNodeReport_def)
qed

lemma partial_report_received:
  assumes "nr_Partial r" "distinct (map fst (nr_Have r))" "report_texts_valid r" "load_finite r"
  obtains s where "MarshalJSON nil r = Some s"
    "UnmarshalNodeReport s = (sorted_have (without_enumerations r), True)"
proof -
  let ?r = "sorted_have (without_enumerations r)"
  have "distinct (map fst (nr_Have (without_enumerations r)))" using assms(2) by (simp add: without_enumerations_def)
  note sorted = key_sorted_have [OF this]
  have "load_finite ?r" using assms(4) by (simp add: load_finite_def sorted_have_def without_enumerations_def)
  then have "texts_valid (write_omitting nil ?r)" "doubles_finite (write_omitting nil ?r)"
    using report_texts_partial [OF assms(3)] by (simp_all add: write_omitting_def report_texts report_texts_sorted report_doubles)
  from omitting.round_trip [OF sorted this] obtain s where
    s: "Marshal (GStruct omitting_fields) (write_omitting nil ?r) = Some s"
    "apfst read_NodeReport (Unmarshal (GStruct omitting_fields) s (zero_value (GStruct omitting_fields))) = (?r, True)" .
  then show thesis
    by (intro that [of s])
      (simp_all only: MarshalJSON_partial [OF assms(1)] Marshal_sorted UnmarshalNodeReport_def
        Unmarshal_names [OF same_names])
qed

lemma report_received:
  assumes "distinct (map fst (nr_Have r))" "report_texts_valid r" "load_finite r"
  obtains s where "MarshalJSON nil r = Some s"
    "UnmarshalNodeReport s = (sorted_have (if nr_Partial r then without_enumerations r else r), True)"
proof (cases "nr_Partial r")
  case True
  show ?thesis using partial_report_received [OF True assms] True that by (metis (full_types))
next
  case False
  show ?thesis using full_report_received [OF False assms] False that by (metis (full_types))
qed

section \<open>The members of the text\<close>

text \<open>The members the properties look at, by their places.\<close>

lemma NodeReport_at:
  "length NodeReport_fields = 17" "length (fields_of (write_NodeReport nil r)) = 17"
  "NodeReport_fields ! 8 = (''partial'', GBool)"
  "NodeReport_fields ! 10 = (''objects'', GSlice (GStruct ObjectStatus_fields))"
  "NodeReport_fields ! 11 = (''listener_counters'', GSlice (GStruct ListenerCounters_fields))"
  "NodeReport_fields ! 12 = (''clients'', GSlice (GStruct ClientCounters_fields))"
  "fields_of (write_NodeReport nil r) ! 8 = VBool (nr_Partial r)"
  "fields_of (write_NodeReport nil r) ! 10 = of_slice (nil ''objects'') write_ObjectStatus (nr_Objects r)"
  "fields_of (write_NodeReport nil r) ! 11 =
    of_slice (nil ''listener_counters'') write_ListenerCounters (nr_ListenerCounters r)"
  "fields_of (write_NodeReport nil r) ! 12 = of_slice (nil ''clients'') write_ClientCounters (nr_Clients r)"
  by (simp_all add: NodeReport_fields_def write_NodeReport_def fields_of_def)

lemma partialReport_at:
  "length partialReport_fields = 13" "length (fields_of (write_partialReport nil p)) = 13"
  "partialReport_fields ! 8 = (''partial'', GBool)"
  "fields_of (write_partialReport nil p) ! 8 = VBool (pr_Partial p)"
  by (simp_all add: partialReport_fields_def write_partialReport_def fields_of_def)

lemma tree_elements_length: "tree_elements t vs = Some js \<Longrightarrow> length js = length vs"
  by (induction vs arbitrary: js) (auto split: option.splits)

lemma partialReport_proper: "proper_type (GStruct partialReport_fields)" "type_depth (GStruct partialReport_fields) \<le> maxNestingDepth"
  by (simp_all add: partialReport_fields_def codec evaluations)

text \<open>How many elements an array member has.\<close>

definition array_length :: "json option \<Rightarrow> nat option" where
  "array_length j = (case j of Some (JArray js) \<Rightarrow> Some (length js) | _ \<Rightarrow> None)"

lemma array_length_slice:
  "\<exists>j. tree (GSlice t) (of_slice False f xs) = Some j \<and> m = Some (coerced j) \<Longrightarrow> array_length m = Some (length xs)"
  by (auto simp: of_slice_def array_length_def dest: tree_elements_length)

lemma array_length_nil: "array_length None = None"
  by (simp add: array_length_def)

lemma MarshalJSON_exists_iff:
  assumes "distinct (map fst (nr_Have r))"
  shows "MarshalJSON nil r \<noteq> None \<longleftrightarrow> load_finite r"
proof (cases "nr_Partial r")
  case False
  let ?nil = "nil(''objects'' := False, ''clients'' := False, ''listener_counters'' := False)"
  have "MarshalJSON nil r = Marshal (GStruct NodeReport_fields) (write_NodeReport ?nil (sorted_have r))"
    by (simp only: MarshalJSON_full [OF False] Marshal_sorted)
  with tree_exists_iff [OF NodeReport.settles [OF key_sorted_have [OF assms]], of ?nil] show ?thesis
    by (simp add: Marshal_def report_doubles load_finite_def del: tree.simps)
next
  case True
  let ?r = "sorted_have (without_enumerations r)"
  have "distinct (map fst (nr_Have (without_enumerations r)))" using assms by (simp add: without_enumerations_def)
  note sorted = key_sorted_have [OF this]
  have "MarshalJSON nil r = Marshal (GStruct omitting_fields) (write_omitting nil ?r)"
    by (simp only: MarshalJSON_partial [OF True] Marshal_sorted)
  moreover have "doubles_finite (write_omitting nil ?r) = load_finite r"
    by (simp add: write_omitting_def report_doubles load_finite_def without_enumerations_def)
  ultimately show ?thesis
    using tree_exists_iff [OF omitting.settles [OF sorted], of nil] by (simp add: Marshal_def del: tree.simps)
qed

end
