(* ===== verification/ReportTexts.thy ===== *)
theory ReportTexts
  imports ReportMarshal
begin

text \<open>
  Which strings of a report can be ill-formed UTF-8, which \<open>json.Marshal\<close> would replace:
  what the validators of \<open>protocol/validate.go\<close> accept is well-formed in every string they
  look at, and a few strings no validator looks at.
\<close>

section \<open>Strings that pass a check\<close>

named_theorems valid_text \<open>what makes a string survive \<open>json.Marshal\<close>\<close>

lemma to_valid_ValidString: "ValidString s \<Longrightarrow> to_valid s = s"
proof (induction s rule: ValidString.induct)
  case (1 s)
  show ?case
  proof (cases s)
    case (Cons c r)
    have "s = [] \<or> (case utf8_rest s of None \<Rightarrow> False | Some t \<Rightarrow> ValidString t)"
      using "1.prems" by (simp only: ValidString.simps [of s])
    with Cons obtain t where t: "utf8_rest s = Some t" "ValidString t"
      by (cases "utf8_rest s") (simp_all del: utf8_rest.simps)
    have "to_valid t = t" using "1.IH" t Cons by blast
    show ?thesis
    proof (cases "byte c < 128")
      case True
      with t(1) Cons have "t = r" by simp
      with True Cons \<open>to_valid t = t\<close> show ?thesis by (simp add: to_valid_ascii)
    next
      case False
      then have "128 \<le> byte (hd s)" using Cons by simp
      from utf8_rest_rune [OF t(1) this] obtain w where
        "s = w @ t" "w \<noteq> []" "\<forall>c \<in> set w. 128 \<le> byte c" "\<forall>q. utf8_rest (w @ q) = Some q" by auto
      with escape_string_rune(2) \<open>to_valid t = t\<close> show ?thesis by simp
    qed
  qed simp
qed

lemma text_ok_valid [valid_text]: "text_ok s m req \<Longrightarrow> to_valid s = s"
  by (auto simp: text_ok_def to_valid_ValidString)

lemma canonical_token_valid [valid_text]: "canonical_token s \<Longrightarrow> to_valid s = s"
  using canonical_token_ascii ValidString_ascii to_valid_ValidString by blast

lemma canonical_task_id_valid [valid_text]: "canonical_task_id s \<Longrightarrow> to_valid s = s"
  by (intro to_valid_plain)
    (auto simp: canonical_task_id_def plain_name_def list_all_iff token_tail_def lower_alpha_def is_digit_def)

lemma lower_hex_valid [valid_text]: "list_all lower_hex s \<Longrightarrow> to_valid s = s"
  by (intro to_valid_plain) (auto simp: plain_name_def list_all_iff lower_hex_def is_digit_def)

lemma sha256_hex_valid [valid_text]: "sha256_hex s \<Longrightarrow> to_valid s = s"
  by (simp add: sha256_hex_def lower_hex_valid)

lemma key_valid [valid_text]:
  "listener_key_ok k1 \<Longrightarrow> to_valid (listener_key_string k1) = listener_key_string k1"
  "client_key_ok k2 \<Longrightarrow> to_valid (client_key_string k2) = client_key_string k2"
  "subject_key_ok k3 \<Longrightarrow> to_valid (subject_key_string k3) = subject_key_string k3"
  by (cases k1; cases k2; cases k3; auto simp: key_ok_iff key_prefixes intro!: to_valid_ValidString ascii_ValidString)+

section \<open>The telemetry sample\<close>

lemma scope_texts [valid_text]: "scope_ok x \<Longrightarrow> texts_valid (write_HostScope x)"
  by (auto simp: scope_ok_def write_HostScope_def to_valid_ascii)

lemma platform_texts [valid_text]: "platform_ok x \<Longrightarrow> texts_valid (write_PlatformObservation x)"
  by (auto simp: platform_ok_def write_PlatformObservation_def valid_text)

lemma cpu_texts [valid_text]: "cpu_ok x \<Longrightarrow> texts_valid (write_CPUObservation x)"
  by (auto simp: cpu_ok_def system_cpu_ok_def cgroup_cpu_ok_def write_CPUObservation_def
      write_SystemCPUObservation_def write_CgroupCPUObservation_def contents valid_text)

lemma load_texts [valid_text]: "texts_valid (write_LoadObservation x)"
  by (simp add: write_LoadObservation_def)

lemma memory_texts [valid_text]: "memory_ok x \<Longrightarrow> texts_valid (write_MemoryObservation x)"
  by (auto simp: memory_ok_def cgroup_memory_ok_def write_MemoryObservation_def
      write_SystemMemoryObservation_def write_CgroupMemoryObservation_def contents valid_text)

lemma filesystem_texts [valid_text]: "texts_valid (write_FilesystemObservation x)"
  by (simp add: write_FilesystemObservation_def contents)

lemma interface_texts: "interface_ok x \<Longrightarrow> texts_valid (write_NetworkInterfaceObservation x)"
  by (auto simp: interface_ok_def write_NetworkInterfaceObservation_def contents valid_text to_valid_ascii)

lemma network_texts [valid_text]: "network_ok x \<Longrightarrow> texts_valid (write_NetworkObservation nil x)"
  by (auto simp: network_ok_def write_NetworkObservation_def contents valid_text list_all_iff interface_texts)

lemma tcp_texts [valid_text]: "tcp_ok x \<Longrightarrow> texts_valid (write_TCPObservation x)"
  by (auto simp: tcp_ok_def write_TCPObservation_def valid_text)

lemma sockets_texts [valid_text]: "texts_valid (write_SocketObservation x)"
  by (simp add: write_SocketObservation_def contents)

lemma processes_texts [valid_text]: "processes_ok x \<Longrightarrow> texts_valid (write_ProcessObservation x)"
  by (auto simp: processes_ok_def process_ok_def write_ProcessObservation_def write_ProcessMetrics_def
      contents valid_text)

lemma runtime_texts [valid_text]: "texts_valid (write_RuntimeObservation x)"
  by (simp add: write_RuntimeObservation_def contents)

lemma tuning_texts [valid_text]: "tuning_ok x \<Longrightarrow> texts_valid (write_TuningObservation x)"
  by (auto simp: tuning_ok_def kernel_name_ok_def write_TuningObservation_def contents list_all_iff valid_text)

lemma accepted_host_texts [valid_text]: "host_ok h \<Longrightarrow> texts_valid (write_HostObservation nil h)"
  by (auto simp: host_ok_def identity_ok_def unavailable_ok_def write_HostObservation_def contents
      list_all_iff valid_text)

lemma accepted_host_doubles: "host_ok h \<Longrightarrow> doubles_finite (write_HostObservation nil h)"
  by (auto simp: host_writers contents host_ok_def load_ok_def metric_ok_def IsNaN_def IsInf_def)

section \<open>The report\<close>

lemma object_texts [valid_text]: "object_ok x \<Longrightarrow> texts_valid (write_ObjectStatus x)"
proof -
  assume ok: "object_ok x"
  have "to_valid (os_Stream x) = os_Stream x" "to_valid (os_Key x) = os_Key x"
    using ok minted_key_text [of "os_Key x"]
    by (auto simp: object_ok_def object_identity_ok_def stream_names to_valid_ascii
        intro!: to_valid_ValidString ascii_ValidString)
  moreover have "to_valid (os_State x) = os_State x" "to_valid (os_IssueCode x) = os_IssueCode x"
      "to_valid (os_BlockedOn x) = os_BlockedOn x"
    using ok key_valid(1) [of "ListenerKey (os_BlockedOn x)"]
    by (auto simp: object_ok_def convergence_of_def object_states to_valid_ascii issue_code_ok_def
        to_valid_ValidString split: if_splits option.splits)
  ultimately show ?thesis by (simp add: write_ObjectStatus_def write_Version_def)
qed

lemma issue_texts [valid_text]: "issue_ok x \<Longrightarrow> texts_valid (write_Issue x)"
  by (simp add: issue_ok_def write_Issue_def to_valid_ValidString)

lemma result_texts [valid_text]:
  "result_ok x \<Longrightarrow> texts_valid (write_TaskResult x)"
  "legacy_result_ok x \<Longrightarrow> texts_valid (write_TaskResult x)"
  by (auto simp: result_ok_def legacy_result_ok_def task_identity_ok_def error_text_ok_def outcome_of.simps
      write_TaskResult_def contents valid_text to_valid_ValidString split: if_splits)

lemma stream_texts [valid_text]: "stream_state_ok x \<Longrightarrow> texts_valid (write_StreamState x)"
  by (auto simp: stream_state_ok_def write_StreamState_def write_Version_def valid_text)

lemma have_texts:
  assumes "have_ok h" "distinct (map fst h)" "e \<in> set h"
  shows "to_valid (fst e) = fst e" "stream_state_ok (snd e)"
proof -
  from assms(1,3) have "fst e \<in> {''config'', ''roster'', ''directives''}" by (auto simp: have_ok_def)
  moreover have "map_of h (fst e) = Some (snd e)" using assms(2,3) by simp
  ultimately show "to_valid (fst e) = fst e" "stream_state_ok (snd e)"
    using assms(1) by (auto simp: have_ok_def held_def to_valid_ascii)
qed

text \<open>The strings no validator looks at: four of the report itself, and the zones of addresses.\<close>

definition unchecked_texts :: "NodeReport \<Rightarrow> string list" where
  "unchecked_texts r =
     [nr_AgentID r, nr_AgentVersion r, nr_CoreVersion r, nr_CoreState r] @ concat (map cc_LiveIPs (nr_Clients r))"

lemma accepted_report_texts:
  assumes "ValidateNodeReport r = None" "distinct (map fst (nr_Have r))" "list_all ValidString (unchecked_texts r)"
  shows "report_texts_valid r"
proof -
  from assms(1) have ok: "base_ok r" "pred_option host_ok (nr_Host r)"
    by (auto simp: ValidateNodeReport_iff pred_option_def)
  have enums: "list_all object_ok (nr_Objects r)" "list_all listener_counters_ok (nr_ListenerCounters r)"
    "list_all client_counters_ok (nr_Clients r)" "list_all subject_ok (nr_Subjects r)"
    using ok(1) by (auto simp: base_ok_def enumerations_empty_def enumerations_ok_def split: if_splits)
  have own: "\<forall>s \<in> {nr_AgentID r, nr_AgentVersion r, nr_CoreVersion r, nr_CoreState r}. to_valid s = s"
    using assms(3) by (simp add: unchecked_texts_def to_valid_ValidString)
  have engine: "to_valid (nr_CoreEngine r) = nr_CoreEngine r"
    using ok(1) by (auto simp: base_ok_def to_valid_ascii)
  have caps: "\<forall>c \<in> set (nr_Capabilities r). to_valid c = c"
    using ok(1) by (auto simp: base_ok_def capabilities_ok_def capability_ok_def list_all_iff valid_text)
  have streams: "\<forall>e \<in> set (nr_Have r). to_valid (fst e) = fst e \<and> texts_valid (write_StreamState (snd e))"
    using ok(1) have_texts [OF _ assms(2)] by (auto simp: base_ok_def intro: valid_text)
  have objects: "\<forall>x \<in> set (nr_Objects r). texts_valid (write_ObjectStatus x)"
    using enums(1) by (auto simp: list_all_iff valid_text)
  have listeners: "\<forall>x \<in> set (nr_ListenerCounters r). texts_valid (write_ListenerCounters x)"
    using enums(2)
    by (auto simp: list_all_iff listener_counters_ok_def write_ListenerCounters_def write_ListenerKey_def valid_text)
  have clients: "\<forall>x \<in> set (nr_Clients r). texts_valid (write_ClientCounters x)"
    using enums(3) assms(3)
    by (auto simp: list_all_iff client_counters_ok_def write_ClientCounters_def write_ClientKey_def contents
        unchecked_texts_def valid_text to_valid_ascii to_valid_ValidString)
  have subjects: "\<forall>x \<in> set (nr_Subjects r). texts_valid (write_SubjectObservation x)"
    using enums(4)
    by (auto simp: list_all_iff subject_ok_def write_SubjectObservation_def write_SubjectKey_def valid_text)
  have host: "\<forall>h. nr_Host r = Some h \<longrightarrow> texts_valid (write_HostObservation (\<lambda>_. True) h)"
    using ok(2) by (auto simp: valid_text)
  have issues: "\<forall>x \<in> set (nr_Issues r). texts_valid (write_Issue x)"
    using ok(1) by (auto simp: base_ok_def outbox_ok_def list_all_iff valid_text)
  have results: "\<forall>x \<in> set (nr_TaskResults r). texts_valid (write_TaskResult x)"
    using ok(1) by (auto simp: base_ok_def outbox_ok_def list_all_iff valid_text)
  show ?thesis
    using own engine caps streams objects listeners clients subjects host issues results
    by (simp add: report_texts_valid_def write_NodeReport_def contents)
qed

end
