(* ===== verification/ReportReceived.thy ===== *)
theory ReportReceived
  imports ReportTexts
begin

text \<open>
  What becomes of a report on its way from an agent to the panel: the properties of
  \<open>NodeReport.MarshalJSON\<close> of \<open>protocol/report.go\<close>. A report that passed the validators
  of \<open>protocol/validate.go\<close> has well-formed UTF-8 in every string they look at, so that
  only the few they do not look at are left as a condition.
\<close>

section \<open>From the check of the agent to that of the panel\<close>

lemma accepted_received:
  assumes "ValidateNodeReport r = None" "distinct (map fst (nr_Have r))"
    "list_all ValidString (unchecked_texts r)"
  shows "\<exists>s. MarshalJSON nil r = Some s \<and> UnmarshalNodeReport s = (sorted_have r, True) \<and>
    ValidateNodeReport (sorted_have r) = None"
proof -
  from assms(1) have ok: "base_ok r"
    "pred_option (\<lambda>h. ''host.telemetry.v1'' \<in> set (nr_Capabilities r) \<and> host_ok h) (nr_Host r)"
    by (simp_all add: ValidateNodeReport_iff)
  have "load_finite r"
    using ok(2) by (auto simp: load_finite_def host_ok_def load_ok_def metric_ok_def IsNaN_def IsInf_def
        pred_option_def)
  moreover have "(if nr_Partial r then without_enumerations r else r) = r"
    using ok(1) by (cases "nr_Partial r") (simp_all add: base_ok_def enumerations_empty_def without_enumerations_def)
  moreover have "map_of (nr_Have (sorted_have r)) = map_of (nr_Have r)"
    using key_sorted_have [OF assms(2)] assms(2)
    by (subst map_of_inject_set) (simp_all add: key_sorted_def, simp add: sorted_have_def)
  then have "have_ok (nr_Have (sorted_have r)) = have_ok (nr_Have r)"
    by (simp add: have_ok_def held_def) (simp add: sorted_have_def)
  then have "ValidateNodeReport (sorted_have r) = None"
    using ok
    by (cases "nr_Partial r")
      (simp_all add: ValidateNodeReport_iff base_ok_def enumerations_empty_def enumerations_ok_def)
  ultimately show ?thesis
    using report_received [OF assms(2) accepted_report_texts [OF assms], of nil] by metis
qed

section \<open>Properties\<close>

text \<open>
  A report survives the wire: \<open>MarshalJSON\<close> gives a text, and decoding the text gives
  the report back with the entries of \<open>have\<close> in the order of their streams; of a partial
  report everything but its enumerations comes back. All it takes is that no stream occurs
  twice, that the strings are well-formed UTF-8 and that the load averages are finite;
  which of the slices are nil makes no difference.
\<close>

theorem MarshalJSON_round_trip:
  assumes "distinct (map fst (nr_Have r))" "report_texts_valid r" "load_finite r"
  shows "\<exists>s. MarshalJSON nil r = Some s \<and>
    UnmarshalNodeReport s = (sorted_have (if nr_Partial r then without_enumerations r else r), True)"
  using report_received [OF assms] by metis

text \<open>
  C5. What the agent's own check accepts, the panel receives and accepts: for a report that
  \<open>ValidateNodeReport\<close> accepts, \<open>MarshalJSON\<close> cannot fail, the decoded report is the one
  sent, up to the order of the streams, and it passes the same check again. No enumeration
  is lost on the way, for a partial report that is accepted has none. Of the strings, only
  those that no validator looks at have to be assumed well-formed UTF-8: the agent's id and
  version, the core's version and state, and the live addresses, whose zones are free text.
\<close>

theorem accepted_report_is_received:
  assumes "ValidateNodeReport r = None" "distinct (map fst (nr_Have r))"
    "list_all ValidString (unchecked_texts r)"
  shows "\<exists>s. MarshalJSON nil r = Some s \<and> UnmarshalNodeReport s = (sorted_have r, True) \<and>
    ValidateNodeReport (sorted_have r) = None"
  using assms by (rule accepted_received)

text \<open>
  C6. The two shapes cannot be confused: the text is always one object that says which
  shape it has; a partial report has none of the four enumerations, not even an empty
  one, and a full report has the arrays of objects, listeners and clients with all their
  elements, never null, also when they are empty.
\<close>

theorem MarshalJSON_shape:
  assumes "MarshalJSON nil r = Some s"
  shows "\<exists>ms. parse_document s = Some (JObject ms) \<and>
    map_of ms ''partial'' = Some (JBool (nr_Partial r)) \<and>
    (if nr_Partial r
     then {''objects'', ''listener_counters'', ''clients'', ''subjects''} \<inter> fst ` set ms = {}
     else array_length (map_of ms ''objects'') = Some (length (nr_Objects r)) \<and>
       array_length (map_of ms ''listener_counters'') = Some (length (nr_ListenerCounters r)) \<and>
       array_length (map_of ms ''clients'') = Some (length (nr_Clients r)))"
proof (cases "nr_Partial r")
  case True
  let ?v = "write_partialReport nil (partial_of r)"
  have v: "?v = VStruct (fields_of ?v)" by (simp add: write_partialReport_def fields_of_def)
  have "Marshal (GStruct partialReport_fields) (VStruct (fields_of ?v)) = Some s"
    using assms True by (simp add: MarshalJSON_def flip: v)
  moreover have "length (fields_of ?v) = length partialReport_fields" by (simp only: partialReport_at(1,2))
  ultimately obtain ms where ms: "parse_document s = Some (JObject ms)" "distinct (map fst ms)" "fst ` set ms \<subseteq> set (field_names partialReport_fields)"
    "\<forall>i < length partialReport_fields. \<not> dropped (fst (partialReport_fields ! i)) (fields_of ?v ! i) \<longrightarrow>
      (\<exists>j. tree (snd (partialReport_fields ! i)) (fields_of ?v ! i) = Some j \<and>
        map_of ms (field_names partialReport_fields ! i) = Some (coerced j))"
    "\<forall>i < length partialReport_fields. dropped (fst (partialReport_fields ! i)) (fields_of ?v ! i) \<longrightarrow> field_names partialReport_fields ! i \<notin> fst ` set ms"
    by (rule struct_document [OF _ partialReport_proper])
  have "map_of ms ''partial'' = Some (JBool True)"
    using ms(4) [rule_format, of 8] by (simp add: partialReport_at field_name_def dropped_def omitempty_def as_bool_def partial_of_def)
  moreover have "{''objects'', ''listener_counters'', ''clients'', ''subjects''} \<inter>
      set (field_names partialReport_fields) = {}"
    by (simp add: partialReport_fields_def field_name_def)
  ultimately show ?thesis using ms(1,3) True by (intro exI [of _ ms]) auto
next
  case False
  let ?v = "write_NodeReport (nil(''objects'' := False, ''clients'' := False, ''listener_counters'' := False)) r"
  have v: "?v = VStruct (fields_of ?v)" by (simp add: write_NodeReport_def fields_of_def)
  have "Marshal (GStruct NodeReport_fields) (VStruct (fields_of ?v)) = Some s"
    using assms by (simp add: MarshalJSON_full [OF False] flip: v)
  moreover have "length (fields_of ?v) = length NodeReport_fields" by (simp only: NodeReport_at(1,2))
  ultimately obtain ms where ms: "parse_document s = Some (JObject ms)" "distinct (map fst ms)"
    "fst ` set ms \<subseteq> set (field_names NodeReport_fields)"
    "\<forall>i < length NodeReport_fields. \<not> dropped (fst (NodeReport_fields ! i)) (fields_of ?v ! i) \<longrightarrow>
      (\<exists>j. tree (snd (NodeReport_fields ! i)) (fields_of ?v ! i) = Some j \<and>
        map_of ms (field_names NodeReport_fields ! i) = Some (coerced j))"
    "\<forall>i < length NodeReport_fields. dropped (fst (NodeReport_fields ! i)) (fields_of ?v ! i) \<longrightarrow> field_names NodeReport_fields ! i \<notin> fst ` set ms"
    by (rule struct_document [OF _ NodeReport.proper NodeReport.depth_bound])
  note at = field_name_def dropped_def omitempty_def
  have "map_of ms ''partial'' = Some (JBool False)"
    using ms(4) [rule_format, of 8] False by (simp add: NodeReport_at at as_bool_def)
  moreover have "array_length (map_of ms ''objects'') = Some (length (nr_Objects r))"
    using ms(4) [rule_format, of 10]
    by (intro array_length_slice) (simp add: NodeReport_at at del: tree.simps)
  moreover have "array_length (map_of ms ''listener_counters'') = Some (length (nr_ListenerCounters r))"
    using ms(4) [rule_format, of 11]
    by (intro array_length_slice) (simp add: NodeReport_at at del: tree.simps)
  moreover have "array_length (map_of ms ''clients'') = Some (length (nr_Clients r))"
    using ms(4) [rule_format, of 12]
    by (intro array_length_slice) (simp add: NodeReport_at at del: tree.simps)
  ultimately show ?thesis using ms(1) False by (intro exI [of _ ms]) simp
qed

text \<open>
  C39. \<open>MarshalJSON\<close> fails exactly when a load average is infinite or not a number; neither
  the strings nor anything else in a report can make it fail.
\<close>

theorem MarshalJSON_fails_exactly:
  assumes "distinct (map fst (nr_Have r))"
  shows "MarshalJSON nil r = None \<longleftrightarrow>
    (\<exists>h l. nr_Host r = Some h \<and> ho_Load h = Some l \<and>
      (\<exists>x \<in> {ld_Load1 l, ld_Load5 l, ld_Load15 l}. IsNaN x \<or> IsInf x))"
proof -
  have "MarshalJSON nil r = None \<longleftrightarrow> \<not> load_finite r" using MarshalJSON_exists_iff [OF assms, of nil] by blast
  then show ?thesis by (cases "nr_Host r"; cases "ho_Load (the (nr_Host r))") (auto simp: load_finite_def)
qed

section \<open>Witnesses\<close>

lemma sha256_hex_plain: "sha256_hex s \<Longrightarrow> plain_name s"
  by (auto simp: sha256_hex_def plain_name_def list_all_iff lower_hex_def is_digit_def)

lemma sample_report_texts: "report_texts_valid sample_report"
proof -
  have "to_valid (tr_InputSHA256 sample_result) = tr_InputSHA256 sample_result"
    by (intro to_valid_plain sha256_hex_plain) (simp add: sample_result_def ComputeTaskInputSHA256_hex)
  moreover have "to_valid (client_key_string (NewClientKey 4)) = client_key_string (NewClientKey 4)"
    by (intro to_valid_plain)
      (simp add: NewClientKey_def clientKeyPrefix_def FormatInt_def format_nat_unfold digit_char_def plain_name_def)
  ultimately show ?thesis
    by (simp add: report_texts_valid_def report_writers contents sample_report_def)
      (simp add: sample_result_def to_valid_ascii)
qed

theorem MarshalJSON_round_trip_witness:
  "\<exists>s. MarshalJSON (\<lambda>_. True) sample_report = Some s \<and>
    UnmarshalNodeReport s = (sorted_have sample_report, True)"
  using MarshalJSON_round_trip [of sample_report "\<lambda>_. True"] sample_report_texts
  by (simp add: sample_report_def load_finite_def)

definition light_report :: NodeReport where
  "light_report = sample_report\<lparr>nr_Partial := True, nr_Clients := []\<rparr>"

lemma light_report_ok: "ValidateNodeReport light_report = None"
  using sample_report_ok
  by (simp add: ValidateNodeReport_iff ValidateNodeReportBase_iff base_ok_def light_report_def enumerations_empty_def)
    (simp add: sample_report_def)

lemma light_report_distinct: "distinct (map fst (nr_Have light_report))"
  by (simp add: light_report_def sample_report_def)

lemma light_report_texts: "list_all ValidString (unchecked_texts light_report)"
  by (simp add: light_report_def sample_report_def unchecked_texts_def)

theorem accepted_report_is_received_witness:
  "\<exists>s. MarshalJSON (\<lambda>_. False) light_report = Some s \<and> UnmarshalNodeReport s = (sorted_have light_report, True) \<and>
    ValidateNodeReport (sorted_have light_report) = None"
  by (rule accepted_report_is_received [OF light_report_ok light_report_distinct light_report_texts])

theorem MarshalJSON_shape_witness:
  "\<exists>s ms. MarshalJSON (\<lambda>_. True) sample_report = Some s \<and> parse_document s = Some (JObject ms) \<and>
    array_length (map_of ms ''clients'') = Some 1 \<and> array_length (map_of ms ''objects'') = Some 0"
proof -
  have "MarshalJSON (\<lambda>_. True) sample_report \<noteq> None"
    by (subst MarshalJSON_exists_iff) (simp_all add: sample_report_def load_finite_def)
  then obtain s where "MarshalJSON (\<lambda>_. True) sample_report = Some s" by blast
  with MarshalJSON_shape [OF this] show ?thesis by (auto simp: sample_report_def)
qed

theorem MarshalJSON_fails_exactly_witness:
  "MarshalJSON (\<lambda>_. True) sample_report \<noteq> None"
  using MarshalJSON_fails_exactly [of sample_report "\<lambda>_. True"] by (simp add: sample_report_def)

end
