(* ===== verification/SyncWire.thy ===== *)
theory SyncWire
  imports ReportWire Envelope
begin

text \<open>
  The answer of the panel as it is sent, \<open>SyncResponse\<close> of \<open>protocol/envelope.go\<close> with the
  segments of \<open>protocol/segments.go\<close>: their structs with the tags, and that an answer is
  read back from its text. The function \<open>nil\<close> says of each slice without \<open>omitempty\<close>
  whether it is nil when it has no elements; the slices of a listener and of a client are
  named with its key.
\<close>

section \<open>The bodies and the tasks\<close>

definition CoreSelection_fields :: "(string \<times> gotype) list" where
  "CoreSelection_fields =
     [(''engine'', GString), (''version'', GString), (''allow_restricted_reality,omitempty'', GBool)]"

definition read_CoreSelection :: "goval \<Rightarrow> CoreSelection" where
  "read_CoreSelection v =
     \<lparr>cs_Engine = as_string (field_at 0 v), cs_Version = as_string (field_at 1 v),
      cs_AllowRestrictedReality = as_bool (field_at 2 v)\<rparr>"

definition write_CoreSelection :: "CoreSelection \<Rightarrow> goval" where
  "write_CoreSelection x =
     VStruct
       [VString (cs_Engine x), VString (cs_Version x), VBool (cs_AllowRestrictedReality x)]"

interpretation CoreSelection: codec CoreSelection_fields 1 "\<lambda>_. True"
    write_CoreSelection read_CoreSelection
  by unfold_locales
    (simp_all add: CoreSelection_fields_def write_CoreSelection_def read_CoreSelection_def codec evaluations)

definition Listener_fields :: "(string \<times> gotype) list" where
  "Listener_fields = [(''key'', GString), (''config'', GBytes)]"

definition read_Listener :: "goval \<Rightarrow> Listener" where
  "read_Listener v =
     \<lparr>l_Key = read_ListenerKey (field_at 0 v), l_Config = as_bytes (field_at 1 v)\<rparr>"

definition write_Listener :: "(string \<Rightarrow> bool) \<Rightarrow> Listener \<Rightarrow> goval" where
  "write_Listener nil x =
     VStruct
       [write_ListenerKey (l_Key x), of_bytes (nil (''config of '' @ listener_key_string (l_Key x))) (l_Config x)]"

interpretation Listener: codec Listener_fields 1 "\<lambda>_. True"
    "write_Listener nil" read_Listener for nil
  by unfold_locales
    (simp_all add: Listener_fields_def write_Listener_def read_Listener_def codec evaluations)

definition SegmentCounts_fields :: "(string \<times> gotype) list" where
  "SegmentCounts_fields =
     [(''entries'', GInt), (''entries_stale'', GInt), (''subjects,omitempty'', GInt)]"

definition read_SegmentCounts :: "goval \<Rightarrow> SegmentCounts" where
  "read_SegmentCounts v =
     \<lparr>sc_Entries = as_int (field_at 0 v), sc_EntriesStale = as_int (field_at 1 v),
      sc_Subjects = as_int (field_at 2 v)\<rparr>"

definition write_SegmentCounts :: "SegmentCounts \<Rightarrow> goval" where
  "write_SegmentCounts x =
     VStruct
       [VInt (sc_Entries x), VInt (sc_EntriesStale x), VInt (sc_Subjects x)]"

interpretation SegmentCounts: codec SegmentCounts_fields 1 "\<lambda>_. True"
    write_SegmentCounts read_SegmentCounts
  by unfold_locales
    (simp_all add: SegmentCounts_fields_def write_SegmentCounts_def read_SegmentCounts_def codec evaluations)

definition ConfigBody_fields :: "(string \<times> gotype) list" where
  "ConfigBody_fields =
     [(''listeners'', GSlice (GStruct Listener_fields)), (''coverage'', GStruct SegmentCounts_fields),
      (''core'', GStruct CoreSelection_fields)]"

definition read_ConfigBody :: "goval \<Rightarrow> ConfigBody" where
  "read_ConfigBody v =
     \<lparr>cb_Listeners = as_slice read_Listener (field_at 0 v),
      cb_Coverage = read_SegmentCounts (field_at 1 v), cb_Core = read_CoreSelection (field_at 2 v)\<rparr>"

definition write_ConfigBody :: "(string \<Rightarrow> bool) \<Rightarrow> ConfigBody \<Rightarrow> goval" where
  "write_ConfigBody nil x =
     VStruct
       [of_slice (nil ''listeners'') (write_Listener nil) (cb_Listeners x),
        write_SegmentCounts (cb_Coverage x), write_CoreSelection (cb_Core x)]"

interpretation ConfigBody: codec ConfigBody_fields 3 "\<lambda>_. True"
    "write_ConfigBody nil" read_ConfigBody for nil
  by unfold_locales
    (simp_all add: ConfigBody_fields_def write_ConfigBody_def read_ConfigBody_def codec evaluations)

definition Credential_fields :: "(string \<times> gotype) list" where
  "Credential_fields =
     [(''username,omitempty'', GString), (''uuid,omitempty'', GString),
      (''password,omitempty'', GString), (''flow,omitempty'', GString)]"

definition read_Credential :: "goval \<Rightarrow> Credential" where
  "read_Credential v =
     \<lparr>cr_Username = as_string (field_at 0 v), cr_UUID = as_string (field_at 1 v),
      cr_Password = as_string (field_at 2 v), cr_Flow = as_string (field_at 3 v)\<rparr>"

definition write_Credential :: "Credential \<Rightarrow> goval" where
  "write_Credential x =
     VStruct
       [VString (cr_Username x), VString (cr_UUID x), VString (cr_Password x),
        VString (cr_Flow x)]"

interpretation Credential: codec Credential_fields 1 "\<lambda>_. True"
    write_Credential read_Credential
  by unfold_locales
    (simp_all add: Credential_fields_def write_Credential_def read_Credential_def codec evaluations)

definition Client_fields :: "(string \<times> gotype) list" where
  "Client_fields =
     [(''key'', GString), (''subject'', GString), (''listeners'', GSlice GString),
      (''enabled'', GBool), (''expires_at_ms'', GInt), (''credentials'', GStruct Credential_fields)]"

definition read_Client :: "goval \<Rightarrow> Client" where
  "read_Client v =
     \<lparr>c_Key = read_ClientKey (field_at 0 v), c_Subject = read_SubjectKey (field_at 1 v),
      c_Listeners = as_slice read_ListenerKey (field_at 2 v), c_Enabled = as_bool (field_at 3 v),
      c_ExpiresAtMS = as_int (field_at 4 v), c_Credentials = read_Credential (field_at 5 v)\<rparr>"

definition write_Client :: "(string \<Rightarrow> bool) \<Rightarrow> Client \<Rightarrow> goval" where
  "write_Client nil x =
     VStruct
       [write_ClientKey (c_Key x), write_SubjectKey (c_Subject x),
        of_slice (nil (''listeners of '' @ client_key_string (c_Key x))) write_ListenerKey (c_Listeners x), VBool (c_Enabled x),
        VInt (c_ExpiresAtMS x), write_Credential (c_Credentials x)]"

interpretation Client: codec Client_fields 2 "\<lambda>_. True"
    "write_Client nil" read_Client for nil
  by unfold_locales
    (simp_all add: Client_fields_def write_Client_def read_Client_def codec evaluations)

definition RosterBody_fields :: "(string \<times> gotype) list" where
  "RosterBody_fields =
     [(''clients'', GSlice (GStruct Client_fields)), (''min_config_version'', GStruct Version_fields),
      (''coverage'', GStruct SegmentCounts_fields)]"

definition read_RosterBody :: "goval \<Rightarrow> RosterBody" where
  "read_RosterBody v =
     \<lparr>rb_Clients = as_slice read_Client (field_at 0 v),
      rb_MinConfigVersion = read_Version (field_at 1 v), rb_Coverage = read_SegmentCounts (field_at 2 v)\<rparr>"

definition write_RosterBody :: "(string \<Rightarrow> bool) \<Rightarrow> RosterBody \<Rightarrow> goval" where
  "write_RosterBody nil x =
     VStruct
       [of_slice (nil ''clients'') (write_Client nil) (rb_Clients x),
        write_Version (rb_MinConfigVersion x), write_SegmentCounts (rb_Coverage x)]"

interpretation RosterBody: codec RosterBody_fields 4 "\<lambda>_. True"
    "write_RosterBody nil" read_RosterBody for nil
  by unfold_locales
    (simp_all add: RosterBody_fields_def write_RosterBody_def read_RosterBody_def codec evaluations)

definition QuotaEntry_fields :: "(string \<times> gotype) list" where
  "QuotaEntry_fields =
     [(''client'', GString), (''baseline_bytes'', GInt), (''headroom_bytes'', GPtr GInt),
      (''period_ends_at_ms'', GInt), (''next_period_headroom_bytes'', GPtr GInt)]"

definition read_QuotaEntry :: "goval \<Rightarrow> QuotaEntry" where
  "read_QuotaEntry v =
     \<lparr>q_Client = read_ClientKey (field_at 0 v), q_BaselineBytes = as_int (field_at 1 v),
      q_HeadroomBytes = as_pointer as_int (field_at 2 v), q_PeriodEndsAtMS = as_int (field_at 3 v),
      q_NextPeriodHeadroomBytes = as_pointer as_int (field_at 4 v)\<rparr>"

definition write_QuotaEntry :: "QuotaEntry \<Rightarrow> goval" where
  "write_QuotaEntry x =
     VStruct
       [write_ClientKey (q_Client x), VInt (q_BaselineBytes x),
        of_pointer VInt (q_HeadroomBytes x), VInt (q_PeriodEndsAtMS x),
        of_pointer VInt (q_NextPeriodHeadroomBytes x)]"

interpretation QuotaEntry: codec QuotaEntry_fields 1 "\<lambda>_. True"
    write_QuotaEntry read_QuotaEntry
  by unfold_locales
    (simp_all add: QuotaEntry_fields_def write_QuotaEntry_def read_QuotaEntry_def codec evaluations)

definition IPShadowEntry_fields :: "(string \<times> gotype) list" where
  "IPShadowEntry_fields = [(''subject'', GString), (''ip_limit'', GInt)]"

definition read_IPShadowEntry :: "goval \<Rightarrow> IPShadowEntry" where
  "read_IPShadowEntry v =
     \<lparr>ip_Subject = read_SubjectKey (field_at 0 v), ip_IPLimit = as_int (field_at 1 v)\<rparr>"

definition write_IPShadowEntry :: "IPShadowEntry \<Rightarrow> goval" where
  "write_IPShadowEntry x =
     VStruct
       [write_SubjectKey (ip_Subject x), VInt (ip_IPLimit x)]"

interpretation IPShadowEntry: codec IPShadowEntry_fields 1 "\<lambda>_. True"
    write_IPShadowEntry read_IPShadowEntry
  by unfold_locales
    (simp_all add: IPShadowEntry_fields_def write_IPShadowEntry_def read_IPShadowEntry_def codec evaluations)

definition DirectivesBody_fields :: "(string \<times> gotype) list" where
  "DirectivesBody_fields =
     [(''for_roster_version'', GStruct Version_fields), (''quota'', GSlice (GStruct QuotaEntry_fields)),
      (''ip_shadow'', GSlice (GStruct IPShadowEntry_fields)), (''coverage'', GStruct SegmentCounts_fields)]"

definition read_DirectivesBody :: "goval \<Rightarrow> DirectivesBody" where
  "read_DirectivesBody v =
     \<lparr>db_ForRosterVersion = read_Version (field_at 0 v), db_Quota = as_slice read_QuotaEntry (field_at 1 v),
      db_IPShadow = as_slice read_IPShadowEntry (field_at 2 v), db_Coverage = read_SegmentCounts (field_at 3 v)\<rparr>"

definition write_DirectivesBody :: "(string \<Rightarrow> bool) \<Rightarrow> DirectivesBody \<Rightarrow> goval" where
  "write_DirectivesBody nil x =
     VStruct
       [write_Version (db_ForRosterVersion x),
        of_slice (nil ''quota'') write_QuotaEntry (db_Quota x),
        of_slice (nil ''ip_shadow'') write_IPShadowEntry (db_IPShadow x),
        write_SegmentCounts (db_Coverage x)]"

interpretation DirectivesBody: codec DirectivesBody_fields 3 "\<lambda>_. True"
    "write_DirectivesBody nil" read_DirectivesBody for nil
  by unfold_locales
    (simp_all add: DirectivesBody_fields_def write_DirectivesBody_def read_DirectivesBody_def codec evaluations)

definition Envelope_fields :: "(string \<times> gotype) list" where
  "Envelope_fields =
     [(''computed_at_ms'', GInt), (''numerator_as_of_ms'', GInt),
      (''numerator_oldest_report_age_ms'', GInt), (''overburn_headroom_bytes'', GInt),
      (''next_poll_seconds'', GInt), (''full_report_seconds'', GInt), (''want_full_report'', GBool),
      (''host_report_seconds'', GInt), (''want_host_report'', GBool)]"

definition read_Envelope :: "goval \<Rightarrow> Envelope" where
  "read_Envelope v =
     \<lparr>ComputedAtMS = as_int (field_at 0 v), NumeratorAsOfMS = as_int (field_at 1 v),
      NumeratorOldestReportAgeMS = as_int (field_at 2 v), OverburnHeadroomBytes = as_int (field_at 3 v),
      NextPollSeconds = as_int (field_at 4 v), FullReportSeconds = as_int (field_at 5 v),
      WantFullReport = as_bool (field_at 6 v), HostReportSeconds = as_int (field_at 7 v),
      WantHostReport = as_bool (field_at 8 v)\<rparr>"

definition write_Envelope :: "Envelope \<Rightarrow> goval" where
  "write_Envelope x =
     VStruct
       [VInt (ComputedAtMS x), VInt (NumeratorAsOfMS x), VInt (NumeratorOldestReportAgeMS x),
        VInt (OverburnHeadroomBytes x), VInt (NextPollSeconds x), VInt (FullReportSeconds x),
        VBool (WantFullReport x), VInt (HostReportSeconds x), VBool (WantHostReport x)]"

interpretation Envelope_struct: codec Envelope_fields 1 "\<lambda>_. True"
    write_Envelope read_Envelope
  by unfold_locales
    (simp_all add: Envelope_fields_def write_Envelope_def read_Envelope_def codec evaluations)

definition Task_fields :: "(string \<times> gotype) list" where
  "Task_fields =
     [(''id'', GString), (''kind'', GString), (''args,omitempty'', GBytes),
      (''input_sha256'', GString), (''not_after_ms,omitempty'', GInt)]"

definition read_Task :: "goval \<Rightarrow> Task" where
  "read_Task v =
     \<lparr>t_ID = as_string (field_at 0 v), t_Kind = as_string (field_at 1 v),
      t_Args = as_bytes (field_at 2 v), t_InputSHA256 = as_string (field_at 3 v),
      t_NotAfterMS = as_int (field_at 4 v)\<rparr>"

definition write_Task :: "Task \<Rightarrow> goval" where
  "write_Task x =
     VStruct
       [VString (t_ID x), VString (t_Kind x), of_bytes True (t_Args x),
        VString (t_InputSHA256 x), VInt (t_NotAfterMS x)]"

interpretation Task: codec Task_fields 1 "\<lambda>_. True"
    write_Task read_Task
  by unfold_locales
    (simp_all add: Task_fields_def write_Task_def read_Task_def codec evaluations)

section \<open>Segments\<close>

text \<open>A segment is generic in its body, and so is its codec.\<close>

definition Segment_fields :: "(string \<times> gotype) list \<Rightarrow> (string \<times> gotype) list" where
  "Segment_fields body =
     [(''unchanged'', GBool), (''version'', GStruct Version_fields), (''etag'', GString),
      (''body,omitempty'', GPtr (GStruct body))]"

definition read_Segment :: "(goval \<Rightarrow> 'a) \<Rightarrow> goval \<Rightarrow> 'a Segment" where
  "read_Segment rd v =
     \<lparr>seg_Unchanged = as_bool (field_at 0 v), seg_Version = read_Version (field_at 1 v),
      seg_ETag = as_string (field_at 2 v), seg_Body = as_pointer rd (field_at 3 v)\<rparr>"

definition write_Segment :: "('a \<Rightarrow> goval) \<Rightarrow> 'a Segment \<Rightarrow> goval" where
  "write_Segment wr x =
     VStruct
       [VBool (seg_Unchanged x), write_Version (seg_Version x), VString (seg_ETag x),
        of_pointer wr (seg_Body x)]"

context codec
begin

lemma segment_codec:
  assumes "\<And>x. ok x" "2 \<le> depth" "depth < maxNestingDepth"
  shows "codec (Segment_fields fs) (Suc depth) (\<lambda>_. True) (write_Segment wr) (read_Segment rd)"
  using assms
  by unfold_locales
    (simp_all add: Segment_fields_def write_Segment_def read_Segment_def codec field_name_def omitempty_def
      plain_name_def nullable_def field_at_def fields_of_def option.map_ident settles)

end

interpretation ConfigSegment: codec "Segment_fields ConfigBody_fields" 4 "\<lambda>_. True"
    "write_Segment (write_ConfigBody nil)" "read_Segment read_ConfigBody" for nil
  using ConfigBody.segment_codec by (simp add: maxNestingDepth_def)

interpretation RosterSegment: codec "Segment_fields RosterBody_fields" 5 "\<lambda>_. True"
    "write_Segment (write_RosterBody nil)" "read_Segment read_RosterBody" for nil
  using RosterBody.segment_codec by (simp add: maxNestingDepth_def)

interpretation DirectivesSegment: codec "Segment_fields DirectivesBody_fields" 4 "\<lambda>_. True"
    "write_Segment (write_DirectivesBody nil)" "read_Segment read_DirectivesBody" for nil
  using DirectivesBody.segment_codec by (simp add: maxNestingDepth_def)

section \<open>The answer\<close>

definition SyncResponse_fields :: "(string \<times> gotype) list" where
  "SyncResponse_fields =
     [(''envelope'', GStruct Envelope_fields),
      (''config'', GStruct (Segment_fields ConfigBody_fields)),
      (''roster'', GStruct (Segment_fields RosterBody_fields)),
      (''directives'', GStruct (Segment_fields DirectivesBody_fields)),
      (''tasks,omitempty'', GSlice (GStruct Task_fields))]"

definition read_SyncResponse :: "goval \<Rightarrow> SyncResponse" where
  "read_SyncResponse v =
     \<lparr>sr_Envelope = read_Envelope (field_at 0 v),
      sr_Config = read_Segment read_ConfigBody (field_at 1 v),
      sr_Roster = read_Segment read_RosterBody (field_at 2 v),
      sr_Directives = read_Segment read_DirectivesBody (field_at 3 v),
      sr_Tasks = as_slice read_Task (field_at 4 v)\<rparr>"

definition write_SyncResponse :: "(string \<Rightarrow> bool) \<Rightarrow> SyncResponse \<Rightarrow> goval" where
  "write_SyncResponse nil x =
     VStruct
       [write_Envelope (sr_Envelope x), write_Segment (write_ConfigBody nil) (sr_Config x),
        write_Segment (write_RosterBody nil) (sr_Roster x),
        write_Segment (write_DirectivesBody nil) (sr_Directives x),
        of_slice True write_Task (sr_Tasks x)]"

interpretation SyncResponse: codec SyncResponse_fields 6 "\<lambda>_. True"
    "write_SyncResponse nil" read_SyncResponse for nil
  by unfold_locales
    (simp_all add: SyncResponse_fields_def write_SyncResponse_def read_SyncResponse_def codec evaluations)

end
