(* ===== verification/SyncMarshal.thy ===== *)
theory SyncMarshal
  imports SyncWire
begin

text \<open>
  An answer of the panel through its text: what \<open>json.Marshal\<close> makes of a \<open>SyncResponse\<close>
  and what an agent decodes from it. The package leaves both calls to its clients; the
  types and their tags are its own.
\<close>

section \<open>The two calls\<close>

definition MarshalSyncResponse :: "(string \<Rightarrow> bool) \<Rightarrow> SyncResponse \<Rightarrow> string option" where
  "MarshalSyncResponse nil r = Marshal (GStruct SyncResponse_fields) (write_SyncResponse nil r)"

definition UnmarshalSyncResponse :: "string \<Rightarrow> SyncResponse \<times> bool" where
  "UnmarshalSyncResponse data =
     apfst read_SyncResponse
       (Unmarshal (GStruct SyncResponse_fields) data (zero_value (GStruct SyncResponse_fields)))"

section \<open>Its strings and its doubles\<close>

lemmas sync_writers = write_Envelope_def write_Segment_def write_ConfigBody_def write_RosterBody_def
  write_DirectivesBody_def write_Listener_def write_Client_def write_CoreSelection_def
  write_SegmentCounts_def write_Credential_def write_QuotaEntry_def write_IPShadowEntry_def
  write_Task_def write_Version_def write_ListenerKey_def write_ClientKey_def write_SubjectKey_def
  write_SyncResponse_def

text \<open>Every string of an answer is well-formed UTF-8.\<close>

definition response_texts_valid :: "SyncResponse \<Rightarrow> bool" where
  "response_texts_valid r = texts_valid (write_SyncResponse (\<lambda>_. True) r)"

lemma body_texts:
  "texts_valid (write_ConfigBody nil c) = texts_valid (write_ConfigBody (\<lambda>_. True) c)"
  "texts_valid (write_RosterBody nil b) = texts_valid (write_RosterBody (\<lambda>_. True) b)"
  "texts_valid (write_DirectivesBody nil d) = texts_valid (write_DirectivesBody (\<lambda>_. True) d)"
  by (simp_all add: write_ConfigBody_def write_RosterBody_def write_DirectivesBody_def write_Listener_def
      write_Client_def contents)

lemma response_texts: "texts_valid (write_SyncResponse nil r) = response_texts_valid r"
  by (simp add: response_texts_valid_def write_SyncResponse_def write_Segment_def contents body_texts [of nil])

lemma response_doubles: "doubles_finite (write_SyncResponse nil r)"
  by (simp add: sync_writers contents)

lemma response_received:
  "\<exists>s. MarshalSyncResponse nil r = Some s \<and>
    (response_texts_valid r \<longrightarrow> UnmarshalSyncResponse s = (r, True))"
proof (cases "response_texts_valid r")
  case True
  with SyncResponse.round_trip [OF TrueI, of nil r] obtain s where
    "Marshal (GStruct SyncResponse_fields) (write_SyncResponse nil r) = Some s"
    "apfst read_SyncResponse (Unmarshal (GStruct SyncResponse_fields) s
       (zero_value (GStruct SyncResponse_fields))) = (r, True)"
    by (metis response_texts response_doubles)
  then show ?thesis unfolding MarshalSyncResponse_def UnmarshalSyncResponse_def by blast
next
  case False
  have "tree (GStruct SyncResponse_fields) (write_SyncResponse nil r) \<noteq> None"
    using tree_exists_iff [OF SyncResponse.settles [OF TrueI]] response_doubles by blast
  with False show ?thesis by (auto simp: MarshalSyncResponse_def Marshal_def simp del: tree.simps)
qed

section \<open>Properties\<close>

text \<open>
  C14. An answer survives the wire: \<open>json.Marshal\<close> gives a text for every answer, and if
  the strings are well-formed UTF-8 the agent decodes exactly the answer the panel sent.
  In particular a missing grant stays missing and a grant of zero stays zero, for both
  headrooms of every quota entry, a segment has a body exactly if it was sent with one,
  and configurations and task arguments are the same bytes.
\<close>

theorem SyncResponse_round_trip:
  "\<exists>s. MarshalSyncResponse nil r = Some s \<and>
    (response_texts_valid r \<longrightarrow> UnmarshalSyncResponse s = (r, True))"
  by (rule response_received)

section \<open>Witness\<close>

definition sample_response :: SyncResponse where
  "sample_response =
     \<lparr>sr_Envelope = \<lparr>ComputedAtMS = 5, NumeratorAsOfMS = 4, NumeratorOldestReportAgeMS = 1,
        OverburnHeadroomBytes = 0, NextPollSeconds = 15, FullReportSeconds = 60, WantFullReport = True,
        HostReportSeconds = 0, WantHostReport = False\<rparr>,
      sr_Config = \<lparr>seg_Unchanged = True, seg_Version = \<lparr>Epoch = 1, VersionNo = 2\<rparr>, seg_ETag = ''e1'', seg_Body = None\<rparr>,
      sr_Roster = \<lparr>seg_Unchanged = True, seg_Version = \<lparr>Epoch = 1, VersionNo = 2\<rparr>, seg_ETag = ''e2'', seg_Body = None\<rparr>,
      sr_Directives = \<lparr>seg_Unchanged = False, seg_Version = \<lparr>Epoch = 1, VersionNo = 3\<rparr>, seg_ETag = ''e3'',
        seg_Body = Some \<lparr>db_ForRosterVersion = \<lparr>Epoch = 1, VersionNo = 2\<rparr>,
          db_Quota = [\<lparr>q_Client = ClientKey ''u'', q_BaselineBytes = 0, q_HeadroomBytes = Some 0,
            q_PeriodEndsAtMS = 100, q_NextPeriodHeadroomBytes = None\<rparr>],
          db_IPShadow = [], db_Coverage = \<lparr>sc_Entries = 1, sc_EntriesStale = 0, sc_Subjects = 0\<rparr>\<rparr>\<rparr>,
      sr_Tasks = []\<rparr>"

theorem SyncResponse_round_trip_witness:
  "\<exists>s. MarshalSyncResponse (\<lambda>_. True) sample_response = Some s \<and>
    UnmarshalSyncResponse s = (sample_response, True)"
proof -
  have "response_texts_valid sample_response"
    by (simp add: response_texts_valid_def sample_response_def sync_writers contents to_valid_ascii)
  then show ?thesis using SyncResponse_round_trip [of "\<lambda>_. True" sample_response] by blast
qed

end
