(* ===== verification/TaskBodies.thy ===== *)
theory TaskBodies
  imports DiagnosticsJson SyncMarshal ReportTexts
begin

text \<open>
  The bodies of tasks and of their results, \<open>protocol/upgrade.go\<close> and
  \<open>protocol/diagnostics.go\<close>, as they are sent: what one side marshals, the exact decoder
  of the other side accepts and reads back.
\<close>

section \<open>The exact decoder on marshalled structs\<close>

context codec
begin

text \<open>
  The exact decoder accepts every marshalled value, provided that only fields that may be
  missing are under \<open>omitempty\<close>.
\<close>

lemma exact_round_trip:
  assumes "ok x" "texts_valid (wr x)" "doubles_finite (wr x)" "proper_tags fs"
    and may_omit: "\<forall>(tag, t) \<in> set fs. omitempty tag \<longrightarrow> field_name tag \<in> set optional"
  obtains s where "Marshal (GStruct fs) (wr x) = Some s"
    "apfst rd (decodeExactObjectMayOmit s (GPtr (GStruct fs)) (zero_value (GStruct fs)) optional) = (x, None)"
proof -
  from Unmarshal_Marshal [OF proper depth_bound settles assms(2,3)] assms(1) obtain s where
    s: "Marshal (GStruct fs) (wr x) = Some s" "Unmarshal (GStruct fs) s (zero_value (GStruct fs)) = (wr x, True)"
    by blast
  obtain vs where v: "wr x = VStruct vs" "length vs = length fs"
    using settles [OF assms(1)] by (auto simp: settled.simps dest: list_all2_lengthD split: goval.splits)
  from s(1) v(1) have "Marshal (GStruct fs) (VStruct vs) = Some s" by simp
  from struct_document [OF this proper depth_bound v(2)] obtain ms where
    ms: "parse_document s = Some (JObject ms)" "distinct (map fst ms)" "fst ` set ms \<subseteq> set (field_names fs)"
      "\<forall>i < length fs. \<not> dropped (fst (fs ! i)) (vs ! i) \<longrightarrow> (\<exists>j. tree (snd (fs ! i)) (vs ! i) = Some j \<and>
        map_of ms (field_names fs ! i) = Some (coerced j))"
      "\<forall>i < length fs. dropped (fst (fs ! i)) (vs ! i) \<longrightarrow> field_names fs ! i \<notin> fst ` set ms" .
  have "name \<in> fst ` set ms \<union> set optional" if "name \<in> set (field_names fs)" for name
  proof -
    from that obtain i where i: "i < length fs" "field_names fs ! i = name" by (auto simp: in_set_conv_nth)
    show ?thesis
    proof (cases "dropped (fst (fs ! i)) (vs ! i)")
      case True
      with i may_omit show ?thesis using nth_mem [OF i(1)] by (auto simp: dropped_def split_beta)
    next
      case False
      with ms(4) i have "map_of ms name \<noteq> None" by auto
      then show ?thesis by (simp add: map_of_eq_None_iff)
    qed
  qed
  with ms(2,3) have "names_exact (exact_fields fs) optional (map fst ms)"
    by (simp add: names_exact_def exact_fields_names [OF assms(4)] subset_iff)
  then have "exact_names s fs optional = None" using exact_names_accepts [OF ms(1)] by blast
  with s show thesis
    by (intro that [of s]) (simp_all add: decodeExactObjectMayOmit_def reads del: zero_value.simps)
qed

end

section \<open>The bodies of the upgrade task\<close>

definition write_AgentUpgradeArgs :: "AgentUpgradeArgs \<Rightarrow> goval" where
  "write_AgentUpgradeArgs x = VStruct [VString (ua_Version x), VString (ua_ExpectedVersion x)]"

interpretation AgentUpgradeArgs: codec AgentUpgradeArgs_fields 1 "\<lambda>_. True"
    write_AgentUpgradeArgs read_AgentUpgradeArgs
  by unfold_locales
    (simp_all add: AgentUpgradeArgs_fields_def write_AgentUpgradeArgs_def read_AgentUpgradeArgs_def codec evaluations)

definition write_AgentUpgradeResult :: "AgentUpgradeResult \<Rightarrow> goval" where
  "write_AgentUpgradeResult x =
     VStruct
       [VString (ur_Version x), VString (ur_PreviousVersion x), VString (ur_BinarySHA256 x),
        VBool (ur_Restarted x)]"

interpretation AgentUpgradeResult: codec AgentUpgradeResult_fields 1 "\<lambda>_. True"
    write_AgentUpgradeResult read_AgentUpgradeResult
  by unfold_locales
    (simp_all add: AgentUpgradeResult_fields_def write_AgentUpgradeResult_def read_AgentUpgradeResult_def
      codec evaluations)

section \<open>The bodies of the diagnostic task\<close>

definition write_DiagnosticsArgs :: "(string \<Rightarrow> bool) \<Rightarrow> DiagnosticsArgs \<Rightarrow> goval" where
  "write_DiagnosticsArgs nil x =
     VStruct
       [VInt (da_SchemaVersion x), of_slice (nil ''sections'') VString (da_Sections x),
        VInt (da_MaxEvents x)]"

interpretation DiagnosticsArgs: codec DiagnosticsArgs_fields 2 "\<lambda>_. True"
    "write_DiagnosticsArgs nil" read_DiagnosticsArgs for nil
  by unfold_locales
    (simp_all add: DiagnosticsArgs_fields_def write_DiagnosticsArgs_def read_DiagnosticsArgs_def codec evaluations)

definition write_DiagnosticsRuntime :: "DiagnosticsRuntime \<Rightarrow> goval" where
  "write_DiagnosticsRuntime x = VStruct [VString (dr_CoreState x), VString (dr_CoreConfigDigest x)]"

interpretation DiagnosticsRuntime: codec DiagnosticsRuntime_fields 1 "\<lambda>_. True"
    write_DiagnosticsRuntime read_DiagnosticsRuntime
  by unfold_locales
    (simp_all add: DiagnosticsRuntime_fields_def write_DiagnosticsRuntime_def read_DiagnosticsRuntime_def
      codec evaluations)

definition write_DiagnosticsState :: "DiagnosticsState \<Rightarrow> goval" where
  "write_DiagnosticsState x =
     VStruct [VString (ds_SQLiteQuickCheck x), VInt (ds_OutboxPending x), VInt (ds_TasksQueued x)]"

interpretation DiagnosticsState: codec DiagnosticsState_fields 1 "\<lambda>_. True"
    write_DiagnosticsState read_DiagnosticsState
  by unfold_locales
    (simp_all add: DiagnosticsState_fields_def write_DiagnosticsState_def read_DiagnosticsState_def codec evaluations)

definition write_DiagnosticsEvent :: "DiagnosticsEvent \<Rightarrow> goval" where
  "write_DiagnosticsEvent x =
     VStruct [VString (de_Code x), VInt (de_AtMS x), VString (de_Severity x), VString (de_Summary x)]"

interpretation DiagnosticsEvent: codec DiagnosticsEvent_fields 1 "\<lambda>_. True"
    write_DiagnosticsEvent read_DiagnosticsEvent
  by unfold_locales
    (simp_all add: DiagnosticsEvent_fields_def write_DiagnosticsEvent_def read_DiagnosticsEvent_def codec evaluations)

definition write_DiagnosticsCheck :: "DiagnosticsCheck \<Rightarrow> goval" where
  "write_DiagnosticsCheck x = VStruct [VString (dc_Code x), VString (dc_Status x), VString (dc_Summary x)]"

interpretation DiagnosticsCheck: codec DiagnosticsCheck_fields 1 "\<lambda>_. True"
    write_DiagnosticsCheck read_DiagnosticsCheck
  by unfold_locales
    (simp_all add: DiagnosticsCheck_fields_def write_DiagnosticsCheck_def read_DiagnosticsCheck_def codec evaluations)

definition write_DiagnosticsResult :: "(string \<Rightarrow> bool) \<Rightarrow> DiagnosticsResult \<Rightarrow> goval" where
  "write_DiagnosticsResult nil x =
     VStruct
       [VInt (dg_SchemaVersion x), VInt (dg_CollectedAtMS x), VBool (dg_Recovered x),
        VBool (dg_Truncated x), of_pointer (write_HostObservation nil) (dg_Host x),
        of_pointer write_DiagnosticsRuntime (dg_Runtime x),
        of_pointer write_DiagnosticsState (dg_State x),
        of_nil_slice write_DiagnosticsEvent (dg_Events x),
        of_slice (nil ''checks'') write_DiagnosticsCheck (dg_Checks x)]"

text \<open>It comes back as it was unless its events are empty without being nil.\<close>

interpretation DiagnosticsResult: codec DiagnosticsResult_fields 5 "\<lambda>x. dg_Events x \<noteq> Some []"
    "write_DiagnosticsResult nil" read_DiagnosticsResult for nil
  by unfold_locales
    (simp_all add: DiagnosticsResult_fields_def write_DiagnosticsResult_def read_DiagnosticsResult_def
      codec evaluations)

section \<open>Sending a body\<close>

definition MarshalAgentUpgradeArgs :: "AgentUpgradeArgs \<Rightarrow> string option" where
  "MarshalAgentUpgradeArgs a = Marshal (GStruct AgentUpgradeArgs_fields) (write_AgentUpgradeArgs a)"

definition MarshalAgentUpgradeResult :: "AgentUpgradeResult \<Rightarrow> string option" where
  "MarshalAgentUpgradeResult r = Marshal (GStruct AgentUpgradeResult_fields) (write_AgentUpgradeResult r)"

definition MarshalDiagnosticsArgs :: "(string \<Rightarrow> bool) \<Rightarrow> DiagnosticsArgs \<Rightarrow> string option" where
  "MarshalDiagnosticsArgs nil a = Marshal (GStruct DiagnosticsArgs_fields) (write_DiagnosticsArgs nil a)"

definition MarshalDiagnosticsResult :: "(string \<Rightarrow> bool) \<Rightarrow> DiagnosticsResult \<Rightarrow> string option" where
  "MarshalDiagnosticsResult nil r = Marshal (GStruct DiagnosticsResult_fields) (write_DiagnosticsResult nil r)"

text \<open>No field of three of the bodies is under \<open>omitempty\<close>, and of the fourth only the sections.\<close>

lemma may_omit:
  "\<forall>(tag, t) \<in> set AgentUpgradeArgs_fields. omitempty tag \<longrightarrow> field_name tag \<in> set []"
  "\<forall>(tag, t) \<in> set AgentUpgradeResult_fields. omitempty tag \<longrightarrow> field_name tag \<in> set []"
  "\<forall>(tag, t) \<in> set DiagnosticsArgs_fields. omitempty tag \<longrightarrow> field_name tag \<in> set []"
  "\<forall>(tag, t) \<in> set DiagnosticsResult_fields. omitempty tag \<longrightarrow>
    field_name tag \<in> set [''host'', ''runtime'', ''state'', ''events'']"
  by (simp_all add: AgentUpgradeArgs_fields_def AgentUpgradeResult_fields_def DiagnosticsArgs_fields_def
      DiagnosticsResult_fields_def omitempty_def field_name_def)

lemma upgrade_args_received:
  assumes "ValidString (ua_Version a)" "ValidString (ua_ExpectedVersion a)"
  shows "\<exists>s. MarshalAgentUpgradeArgs a = Some s \<and> DecodeAgentUpgradeArgs s = (a, None)"
proof -
  have "texts_valid (write_AgentUpgradeArgs a)" "doubles_finite (write_AgentUpgradeArgs a)"
    using assms by (simp_all add: write_AgentUpgradeArgs_def to_valid_ValidString)
  from AgentUpgradeArgs.exact_round_trip [OF TrueI this upgrade_fields(1) may_omit(1)] show ?thesis
    unfolding MarshalAgentUpgradeArgs_def DecodeAgentUpgradeArgs_def decodeExactObject_def by blast
qed

lemma upgrade_result_received:
  assumes "list_all ValidString [ur_Version r, ur_PreviousVersion r, ur_BinarySHA256 r]"
  shows "\<exists>s. MarshalAgentUpgradeResult r = Some s \<and> DecodeAgentUpgradeResult s = (r, None)"
proof -
  have "texts_valid (write_AgentUpgradeResult r)" "doubles_finite (write_AgentUpgradeResult r)"
    using assms by (simp_all add: write_AgentUpgradeResult_def to_valid_ValidString)
  from AgentUpgradeResult.exact_round_trip [OF TrueI this upgrade_fields(2) may_omit(2)] show ?thesis
    unfolding MarshalAgentUpgradeResult_def DecodeAgentUpgradeResult_def decodeExactObject_def by blast
qed

lemma diagnostics_args_received:
  assumes "list_all ValidString (da_Sections a)"
  shows "\<exists>s. MarshalDiagnosticsArgs nil a = Some s \<and> DecodeDiagnosticsArgs s = (a, None)"
proof -
  have "texts_valid (write_DiagnosticsArgs nil a)" "doubles_finite (write_DiagnosticsArgs nil a)"
    using assms by (auto simp: write_DiagnosticsArgs_def contents list_all_iff to_valid_ValidString)
  from DiagnosticsArgs.exact_round_trip [OF TrueI this DiagnosticsArgs_tags(1) may_omit(3)] show ?thesis
    unfolding MarshalDiagnosticsArgs_def DecodeDiagnosticsArgs_def decodeExactObject_def by blast
qed

text \<open>Under \<open>omitempty\<close> an empty slice of events has no member, nil or not.\<close>

lemma tree_fields_dropped:
  assumes "length fs = length vs" "omitempty tag" "is_empty v"
  shows "tree_fields (fs @ (tag, t) # fs') (vs @ v # vs') = tree_fields (fs @ fs') (vs @ vs')"
  using assms(1)
proof (induction fs vs rule: list_induct2)
  case (Cons f fs w vs)
  then show ?case by (cases f) simp
qed (simp add: assms(2,3))

lemma empty_events_text:
  "MarshalDiagnosticsResult nil (r\<lparr>dg_Events := Some []\<rparr>) = MarshalDiagnosticsResult nil (r\<lparr>dg_Events := None\<rparr>)"
proof -
  let ?fs = DiagnosticsResult_fields and ?vs = "fields_of (write_DiagnosticsResult nil r)"
  have fs: "?fs = take 7 ?fs @ (''events,omitempty'', GSlice (GStruct DiagnosticsEvent_fields)) # drop 8 ?fs"
    by (simp add: DiagnosticsResult_fields_def)
  have vs: "write_DiagnosticsResult nil (r\<lparr>dg_Events := es\<rparr>) =
      VStruct (take 7 ?vs @ of_nil_slice write_DiagnosticsEvent es # drop 8 ?vs)" for es
    by (simp add: write_DiagnosticsResult_def fields_of_def)
  have len: "length (take 7 ?fs) = length (take 7 ?vs)"
    by (simp add: DiagnosticsResult_fields_def write_DiagnosticsResult_def fields_of_def)
  have "tree_fields ?fs (take 7 ?vs @ of_nil_slice write_DiagnosticsEvent es # drop 8 ?vs) =
      tree_fields (take 7 ?fs @ drop 8 ?fs) (take 7 ?vs @ drop 8 ?vs)" if "slice_elements es = []" for es
    using that
    by (subst fs, intro tree_fields_dropped [OF len])
      (auto simp: omitempty_def of_nil_slice_def slice_elements_def split: option.splits)
  then show ?thesis
    by (simp add: MarshalDiagnosticsResult_def Marshal_def vs tree.simps(10) fields_of_def del: tree_fields.simps)
qed

lemma requested_sections_valid: "ValidateDiagnosticsArgs a = None \<Longrightarrow> list_all ValidString (da_Sections a)"
  by (auto simp: ValidateDiagnosticsArgs_def sections_iff list_all_iff ascii_def intro!: ascii_ValidString)

text \<open>The free texts of a result, which its validator does not read or only measures.\<close>

definition free_texts :: "DiagnosticsResult \<Rightarrow> string list" where
  "free_texts r =
     (case dg_Runtime r of None \<Rightarrow> [] | Some x \<Rightarrow> [dr_CoreState x, dr_CoreConfigDigest x]) @
     (case dg_State r of None \<Rightarrow> [] | Some x \<Rightarrow> [ds_SQLiteQuickCheck x]) @
     map de_Summary (slice_elements (dg_Events r)) @ map dc_Summary (dg_Checks r)"

lemma event_texts: "event_ok e \<Longrightarrow> ValidString (de_Summary e) \<Longrightarrow> texts_valid (write_DiagnosticsEvent e)"
  by (auto simp: event_ok_def write_DiagnosticsEvent_def IsDiagnosticsEventCode_def IsDiagnosticsSeverity_def
      wire_consts to_valid_ascii to_valid_ValidString)

lemma check_code_valid: "c \<in> set DiagnosticsCheckCodes \<Longrightarrow> to_valid c = c"
  by (auto simp: DiagnosticsCheckCodes_def wire_consts to_valid_ascii)

lemma check_texts:
  "check_ok c \<Longrightarrow> dc_Code c \<in> set DiagnosticsCheckCodes \<Longrightarrow> ValidString (dc_Summary c) \<Longrightarrow>
    texts_valid (write_DiagnosticsCheck c)"
  by (auto simp: check_ok_def write_DiagnosticsCheck_def to_valid_ascii to_valid_ValidString check_code_valid)

lemma diagnostic_received:
  assumes "ValidateDiagnosticsResult r = None" "pred_option (\<lambda>h. ValidateHostObservation h = None) (dg_Host r)"
    "list_all ValidString (free_texts r)"
  shows "\<exists>s. MarshalDiagnosticsResult nil r = Some s \<and>
    DecodeDiagnosticsResult s = (r\<lparr>dg_Events := if dg_Events r = Some [] then None else dg_Events r\<rparr>, None)"
proof -
  have host: "pred_option host_ok (dg_Host r)" using assms(2) by (simp add: ValidateHostObservation_iff)
  have ok: "list_all event_ok (slice_elements (dg_Events r))" "map dc_Code (dg_Checks r) = DiagnosticsCheckCodes"
    "list_all check_ok (dg_Checks r)"
    using assms(1)
    unfolding ValidateDiagnosticsResult_def first_error_None_Cons for_each_None event_check_iff
      validateDiagnosticsChecks_iff by simp_all
  have "dc_Code c \<in> set DiagnosticsCheckCodes" if "c \<in> set (dg_Checks r)" for c
    using that by (simp flip: ok(2))
  then have checks: "\<forall>c \<in> set (dg_Checks r). texts_valid (write_DiagnosticsCheck c)"
    using ok(3) assms(3) by (auto simp: free_texts_def list_all_iff intro: check_texts)
  have events: "\<forall>e \<in> set (slice_elements (dg_Events r)). texts_valid (write_DiagnosticsEvent e)"
    using ok(1) assms(3) by (auto simp: free_texts_def list_all_iff intro: event_texts)
  let ?r = "r\<lparr>dg_Events := if dg_Events r = Some [] then None else dg_Events r\<rparr>"
  have "texts_valid (write_DiagnosticsResult nil ?r)"
    using host checks events assms(3)
    by (auto simp: write_DiagnosticsResult_def write_DiagnosticsRuntime_def write_DiagnosticsState_def
        contents free_texts_def accepted_host_texts to_valid_ValidString)
  moreover have "doubles_finite (write_DiagnosticsResult nil ?r)"
    using host
    by (auto simp: write_DiagnosticsResult_def write_DiagnosticsRuntime_def write_DiagnosticsState_def
        write_DiagnosticsEvent_def write_DiagnosticsCheck_def contents accepted_host_doubles)
  moreover have "dg_Events ?r \<noteq> Some []" by simp
  moreover have "MarshalDiagnosticsResult nil r = MarshalDiagnosticsResult nil ?r"
  proof (cases "dg_Events r = Some []")
    case True
    then have same: "r\<lparr>dg_Events := Some []\<rparr> = r" by (cases r) simp
    from True empty_events_text [of nil r, unfolded same] show ?thesis by simp
  qed simp
  ultimately show ?thesis
    using DiagnosticsResult.exact_round_trip [OF _ _ _ DiagnosticsResult_tags(1) may_omit(4)]
    unfolding MarshalDiagnosticsResult_def DecodeDiagnosticsResult_def by metis
qed

section \<open>Properties\<close>

text \<open>
  C16. A diagnostic arrives as it was collected: a result that \<open>ValidateDiagnosticsResult\<close>
  accepts, with a valid telemetry sample if it has one and well-formed UTF-8 in its free
  texts, has a text, and \<open>DecodeDiagnosticsResult\<close> accepts that text and gives the result
  back, the sections that were not collected still absent. The one thing that can differ is
  a slice of events that is empty and not nil, which comes back nil.
\<close>

theorem DiagnosticsResult_round_trip:
  assumes "ValidateDiagnosticsResult r = None" "pred_option (\<lambda>h. ValidateHostObservation h = None) (dg_Host r)"
    "list_all ValidString (free_texts r)"
  shows "\<exists>s. MarshalDiagnosticsResult nil r = Some s \<and>
    DecodeDiagnosticsResult s = (r\<lparr>dg_Events := if dg_Events r = Some [] then None else dg_Events r\<rparr>, None)"
  using assms by (rule diagnostic_received)

text \<open>
  C15. A request reaches the agent: in an answer all of whose strings are well-formed UTF-8,
  the arguments of a task travel as base64, and what the agent finds in the decoded answer is
  the same task; if its arguments are a marshalled upgrade request with well-formed versions,
  or a marshalled diagnostic request that was valid, the exact decoder accepts them and
  gives that request.
\<close>

theorem requests_reach_the_agent:
  assumes "response_texts_valid r" "t \<in> set (sr_Tasks r)"
  shows "\<exists>s r'. MarshalSyncResponse nil r = Some s \<and> UnmarshalSyncResponse s = (r', True) \<and> t \<in> set (sr_Tasks r') \<and>
    (\<forall>u. MarshalAgentUpgradeArgs u = Some (t_Args t) \<and> ValidString (ua_Version u) \<and> ValidString (ua_ExpectedVersion u) \<longrightarrow>
      DecodeAgentUpgradeArgs (t_Args t) = (u, None)) \<and>
    (\<forall>a nil'. MarshalDiagnosticsArgs nil' a = Some (t_Args t) \<and> ValidateDiagnosticsArgs a = None \<longrightarrow>
      DecodeDiagnosticsArgs (t_Args t) = (a, None))"
proof -
  from response_received [of nil r] assms(1) obtain s where
    "MarshalSyncResponse nil r = Some s" "UnmarshalSyncResponse s = (r, True)" by blast
  moreover have "DecodeAgentUpgradeArgs (t_Args t) = (u, None)"
    if "MarshalAgentUpgradeArgs u = Some (t_Args t)" "ValidString (ua_Version u)" "ValidString (ua_ExpectedVersion u)" for u
    using upgrade_args_received [OF that(2,3)] that(1) by simp
  moreover have "DecodeDiagnosticsArgs (t_Args t) = (a, None)"
    if "MarshalDiagnosticsArgs nil' a = Some (t_Args t)" "ValidateDiagnosticsArgs a = None" for a nil'
    using diagnostics_args_received [OF requested_sections_valid [OF that(2)], of nil'] that(1) by simp
  ultimately show ?thesis using assms(2) by blast
qed

text \<open>The sections by their places.\<close>

lemma DiagnosticsResult_at:
  "field_names DiagnosticsResult_fields ! 4 = ''host''" "field_names DiagnosticsResult_fields ! 5 = ''runtime''"
  "field_names DiagnosticsResult_fields ! 6 = ''state''" "field_names DiagnosticsResult_fields ! 7 = ''events''"
  "fst (DiagnosticsResult_fields ! 4) = ''host,omitempty''" "fst (DiagnosticsResult_fields ! 5) = ''runtime,omitempty''"
  "fst (DiagnosticsResult_fields ! 6) = ''state,omitempty''" "fst (DiagnosticsResult_fields ! 7) = ''events,omitempty''"
  "fields_of (write_DiagnosticsResult nil r) ! 4 = of_pointer (write_HostObservation nil) (dg_Host r)"
  "fields_of (write_DiagnosticsResult nil r) ! 5 = of_pointer write_DiagnosticsRuntime (dg_Runtime r)"
  "fields_of (write_DiagnosticsResult nil r) ! 6 = of_pointer write_DiagnosticsState (dg_State r)"
  "fields_of (write_DiagnosticsResult nil r) ! 7 = of_nil_slice write_DiagnosticsEvent (dg_Events r)"
  by (simp_all only: DiagnosticsResult_tags(2))
    (simp_all add: DiagnosticsResult_fields_def write_DiagnosticsResult_def fields_of_def)

lemma sections_dropped:
  "dropped ''host,omitempty'' (of_pointer f p) \<longleftrightarrow> p = None"
  "dropped ''runtime,omitempty'' (of_pointer g q) \<longleftrightarrow> q = None"
  "dropped ''state,omitempty'' (of_pointer h x) \<longleftrightarrow> x = None"
  "dropped ''events,omitempty'' (of_nil_slice k es) \<longleftrightarrow> slice_elements es = []"
  by (auto simp: dropped_def omitempty_def of_pointer_def of_nil_slice_def slice_elements_def split: option.split)

text \<open>
  C37. An empty list of events is sent like one that was not collected: the text of a result has
  the host, runtime and state members exactly when the sections were collected, but \<open>events\<close>
  only when there is at least one; so a result whose events are empty has the very text of
  the one whose events are nil, though the decoder would keep the two apart.
\<close>

theorem empty_events_are_left_out:
  assumes "MarshalDiagnosticsResult nil r = Some s"
  shows "\<exists>ms. parse_document s = Some (JObject ms) \<and>
    (''host'' \<in> fst ` set ms \<longleftrightarrow> dg_Host r \<noteq> None) \<and>
    (''runtime'' \<in> fst ` set ms \<longleftrightarrow> dg_Runtime r \<noteq> None) \<and>
    (''state'' \<in> fst ` set ms \<longleftrightarrow> dg_State r \<noteq> None) \<and>
    (''events'' \<in> fst ` set ms \<longleftrightarrow> slice_elements (dg_Events r) \<noteq> []) \<and>
    MarshalDiagnosticsResult nil (r\<lparr>dg_Events := Some []\<rparr>) = MarshalDiagnosticsResult nil (r\<lparr>dg_Events := None\<rparr>)"
proof -
  let ?v = "write_DiagnosticsResult nil r" and ?fs = DiagnosticsResult_fields
  have v: "?v = VStruct (fields_of ?v)" by (simp add: write_DiagnosticsResult_def fields_of_def)
  have "Marshal (GStruct ?fs) (VStruct (fields_of ?v)) = Some s"
    using assms by (simp add: MarshalDiagnosticsResult_def flip: v)
  moreover have "length (fields_of ?v) = length ?fs"
    by (simp add: write_DiagnosticsResult_def fields_of_def DiagnosticsResult_fields_def)
  ultimately obtain ms where ms: "parse_document s = Some (JObject ms)" "distinct (map fst ms)"
    "fst ` set ms \<subseteq> set (field_names ?fs)"
    "\<forall>i < length ?fs. \<not> dropped (fst (?fs ! i)) (fields_of ?v ! i) \<longrightarrow>
      (\<exists>j. tree (snd (?fs ! i)) (fields_of ?v ! i) = Some j \<and> map_of ms (field_names ?fs ! i) = Some (coerced j))"
    "\<forall>i < length ?fs. dropped (fst (?fs ! i)) (fields_of ?v ! i) \<longrightarrow> field_names ?fs ! i \<notin> fst ` set ms"
    by (rule struct_document [OF _ DiagnosticsResult.proper DiagnosticsResult.depth_bound])
  have member: "field_names ?fs ! i \<in> fst ` set ms \<longleftrightarrow> \<not> dropped (fst (?fs ! i)) (fields_of ?v ! i)"
    if "i < 9" for i
  proof -
    have i: "i < length ?fs" using that by (simp add: DiagnosticsResult_fields_def)
    show ?thesis
    proof (cases "dropped (fst (?fs ! i)) (fields_of ?v ! i)")
      case True
      with ms(5) i show ?thesis by blast
    next
      case False
      with ms(4) i obtain j where "map_of ms (field_names ?fs ! i) = Some j" by blast
      then have "field_names ?fs ! i \<in> fst ` set ms" by (metis map_of_eq_None_iff option.distinct(1))
      with False show ?thesis by blast
    qed
  qed
  from member [of 4] member [of 5] member [of 6] member [of 7] show ?thesis
    unfolding DiagnosticsResult_at sections_dropped using ms(1) empty_events_text
    by (intro exI [of _ ms]) simp
qed

section \<open>Witnesses\<close>

definition sample_diagnostic :: DiagnosticsResult where
  "sample_diagnostic =
     \<lparr>dg_SchemaVersion = 1, dg_CollectedAtMS = 1700000000000, dg_Recovered = False, dg_Truncated = False,
      dg_Host = Some sample_host,
      dg_Runtime = Some \<lparr>dr_CoreState = ''running'', dr_CoreConfigDigest = []\<rparr>, dg_State = None,
      dg_Events = Some [\<lparr>de_Code = ''sync.failed'', de_AtMS = 5, de_Severity = ''error'', de_Summary = ''timeout''\<rparr>],
      dg_Checks = map (\<lambda>c. \<lparr>dc_Code = c, dc_Status = ''ok'', dc_Summary = ''fine''\<rparr>) DiagnosticsCheckCodes\<rparr>"

lemma sample_diagnostic_ok: "ValidateDiagnosticsResult sample_diagnostic = None"
  unfolding ValidateDiagnosticsResult_def first_error_None_Cons for_each_None event_check_iff
    validateDiagnosticsChecks_iff
  by (simp add: sample_diagnostic_def DiagnosticsSchemaVersion_def event_ok_def check_ok_def comp_def list_all_iff
      IsDiagnosticsEventCode_def IsDiagnosticsSeverity_def wire_consts MaxDiagnosticsEvents_def)

theorem DiagnosticsResult_round_trip_witness:
  "\<exists>s. MarshalDiagnosticsResult (\<lambda>_. True) sample_diagnostic = Some s \<and>
    DecodeDiagnosticsResult s = (sample_diagnostic, None)"
  using DiagnosticsResult_round_trip [OF sample_diagnostic_ok, of "\<lambda>_. True"] sample_host_ok
  by (simp add: sample_diagnostic_def free_texts_def list_all_iff)

theorem empty_events_are_left_out_witness:
  "\<exists>s ms. MarshalDiagnosticsResult (\<lambda>_. True) (sample_diagnostic\<lparr>dg_Events := Some []\<rparr>) = Some s \<and>
    parse_document s = Some (JObject ms) \<and> ''host'' \<in> fst ` set ms \<and> ''events'' \<notin> fst ` set ms"
proof -
  have "ValidateDiagnosticsResult (sample_diagnostic\<lparr>dg_Events := Some []\<rparr>) = None"
    using sample_diagnostic_ok
    unfolding ValidateDiagnosticsResult_def first_error_None_Cons for_each_None
    by (simp add: sample_diagnostic_def)
  moreover have "pred_option (\<lambda>h. ValidateHostObservation h = None) (dg_Host (sample_diagnostic\<lparr>dg_Events := Some []\<rparr>))"
    "list_all ValidString (free_texts (sample_diagnostic\<lparr>dg_Events := Some []\<rparr>))"
    using sample_host_ok by (simp_all add: sample_diagnostic_def free_texts_def list_all_iff)
  ultimately obtain s where s: "MarshalDiagnosticsResult (\<lambda>_. True) (sample_diagnostic\<lparr>dg_Events := Some []\<rparr>) = Some s"
    using diagnostic_received by blast
  from empty_events_are_left_out [OF s] s show ?thesis by (auto simp: sample_diagnostic_def)
qed

theorem requests_reach_the_agent_witness:
  "\<exists>args s. MarshalAgentUpgradeArgs \<lparr>ua_Version = ''2.0.0'', ua_ExpectedVersion = ''1.0.0''\<rparr> = Some args \<and>
    (let t = \<lparr>t_ID = ''u1'', t_Kind = ''agent.upgrade.v1'', t_Args = args, t_InputSHA256 = [], t_NotAfterMS = 0\<rparr>
     in MarshalSyncResponse (\<lambda>_. True) (sample_response\<lparr>sr_Tasks := [t]\<rparr>) = Some s \<and>
       (\<exists>r'. UnmarshalSyncResponse s = (r', True) \<and> t \<in> set (sr_Tasks r')) \<and>
       DecodeAgentUpgradeArgs args = (\<lparr>ua_Version = ''2.0.0'', ua_ExpectedVersion = ''1.0.0''\<rparr>, None))"
proof -
  let ?u = "\<lparr>ua_Version = ''2.0.0'', ua_ExpectedVersion = ''1.0.0''\<rparr>"
  obtain args where args: "MarshalAgentUpgradeArgs ?u = Some args"
    using upgrade_args_received [of ?u] by auto
  let ?t = "\<lparr>t_ID = ''u1'', t_Kind = ''agent.upgrade.v1'', t_Args = args, t_InputSHA256 = [], t_NotAfterMS = 0\<rparr>"
  have "response_texts_valid (sample_response\<lparr>sr_Tasks := [?t]\<rparr>)"
    by (simp add: response_texts_valid_def sample_response_def sync_writers contents to_valid_ascii)
  from requests_reach_the_agent [OF this, of ?t "\<lambda>_. True"] args show ?thesis
    by (auto simp: Let_def)
qed

end
