(* ===== verification/JsonSize.thy ===== *)
theory JsonSize
  imports JsonCodec
begin

text \<open>
  How long the text of a marshalled value can be: \<open>room\<close>, over the type and the value, is
  an upper bound. Escaping makes a string at most six times as long, a 64-bit integer has
  at most twenty characters, and a double at most a number that is generous.
\<close>

section \<open>Strings and trees\<close>

lemma length_escape_byte: "length (escape_byte c) \<le> 6"
  by (simp add: escape_byte_def)

lemma length_escape_rune: "w \<noteq> [] \<Longrightarrow> length (escape_rune w) \<le> 6 * length w"
  by (cases w) (auto simp: escape_rune_def line_separator_def)

lemma length_escape_string: "length (escape_string s) \<le> 6 * length s"
proof (induction s rule: string_pieces)
  case (ascii c r)
  with length_escape_byte [of c] show ?case by (simp add: escape_string_ascii)
next
  case (rune w t)
  with length_escape_rune [of w] show ?case by (simp add: escape_string_rune(1))
next
  case (stray c r)
  then show ?case by (simp add: escape_string_stray)
qed simp

lemma length_print_string: "length (print_string s) \<le> 6 * length s + 2"
  using length_escape_string [of s] by (simp add: print_string_def)

text \<open>An array or an object: its parts, each with a comma or the closing bracket.\<close>

lemma length_print_elements: "length (print_elements js) \<le> 1 + (\<Sum>j \<leftarrow> js. length (print_json j) + 1)"
proof (induction js)
  case (Cons j js)
  then show ?case by (cases js) simp_all
qed simp

lemma length_print_members:
  "length (print_members ms) \<le> 1 + (\<Sum>m \<leftarrow> ms. 6 * length (fst m) + length (print_json (snd m)) + 4)"
proof (induction ms)
  case (Cons m ms)
  obtain k j where m: "m = (k, j)" by fastforce
  with Cons length_print_string [of k] show ?case by (cases ms) auto
qed simp

section \<open>Numbers\<close>

text \<open>A number below a power of two has at most a third as many digits as it has bits, or one.\<close>

lemma length_format_bits: "n < 2 ^ (3 * k) \<Longrightarrow> length (format_nat n) \<le> max 1 k"
proof (rule length_format_nat)
  assume "n < 2 ^ (3 * k)"
  also have "(2 :: nat) ^ (3 * k) \<le> 10 ^ k" by (simp add: power_mult power_mono)
  finally show "n < 10 ^ k" .
qed

lemma round_half_even_le: "round_half_even n d \<le> Suc (n div d)"
  by (simp add: round_half_even_def Let_def)

text \<open>Stripping zeros keeps the point where it is and adds no digits.\<close>

lemma strip_zeros_point:
  "len (format_nat (fst (strip_zeros m p))) + snd (strip_zeros m p) = len (format_nat m) + p \<and>
    length (format_nat (fst (strip_zeros m p))) \<le> length (format_nat m)"
proof (induction m p rule: strip_zeros.induct)
  case (1 m p)
  show ?case
  proof (cases "m \<noteq> 0 \<and> m mod 10 = 0")
    case True
    then have "\<not> m < 10" by auto
    then have "length (format_nat m) = Suc (length (format_nat (m div 10)))"
      by (simp add: format_nat.simps [of m])
    with True "1.IH" [OF True] show ?thesis by (simp add: strip_zeros.simps [of m p])
  next
    case False
    then show ?thesis by (auto simp: strip_zeros.simps [of m p])
  qed
qed

text \<open>The fraction of a finite double, and how far its digits and its point can go.\<close>

lemma float_fraction_size:
  assumes "f64_exponent x \<noteq> 2047"
  obtains n j where "float_fraction x = (n, 2 ^ j)" "n < 2 ^ 1024" "j \<le> 1074"
proof -
  define m where "m = (if f64_exponent x = 0 then f64_fraction x else f64_fraction x + 2 ^ 52)"
  define e where "e = (if f64_exponent x = 0 then - 1074 else int (f64_exponent x) - 1075)"
  have "f64_exponent x < 2048" by (simp add: f64_exponent_def)
  then have e: "nat e \<le> 971" "nat (- e) \<le> 1074" using assms by (auto simp: e_def)
  have "m < 2 ^ 53" using fraction_bound [of x] by (simp add: m_def)
  then have "m * 2 ^ nat e < 2 ^ 53 * 2 ^ nat e" by simp
  also have "\<dots> = 2 ^ (53 + nat e)" by (simp only: power_add)
  also have "\<dots> \<le> (2 :: nat) ^ 1024" using e(1) by (intro power_increasing) simp_all
  finally show thesis
    using that [of "m * 2 ^ nat e" "nat (- e)"] e(2) by (simp add: float_fraction_def m_def e_def)
qed

lemma log10_floor_size:
  assumes "n < 2 ^ 1024"
  shows "- 325 \<le> log10_floor n d" "log10_floor n d \<le> 341"
proof -
  have "n div d < 2 ^ (3 * 342)"
    using assms by (intro le_less_trans [OF div_le_dividend]) (simp add: order.strict_trans2)
  from length_format_bits [OF this] have "length (format_nat (n div d)) \<le> 342" by simp
  moreover have "0 < length (format_nat (n div d))" using digits_format_nat [of "n div d"] by (simp add: digits_def)
  moreover have "length (takeWhile (\<lambda>j. n * 10 ^ j < d) [0..<325]) \<le> 325"
    using length_takeWhile_le [of _ "[0..<325]"] by simp
  ultimately show "- 325 \<le> log10_floor n d" "log10_floor n d \<le> 341"
    unfolding log10_floor_def by (simp_all split: if_split)
qed

lemma digits_of_length_size:
  assumes "digits_of_length bits n d c = Some (m, p)" "n < 2 ^ 1024" "c < 18"
  shows "length (format_nat m) \<le> 797" "\<bar>p\<bar> \<le> 341"
proof -
  from assms(1) have p: "p = log10_floor n d - int (c - 1)"
    and m: "m \<in> {round_half_even (n * 10 ^ nat (- p)) (d * 10 ^ nat p), n * 10 ^ nat (- p) div (d * 10 ^ nat p),
      Suc (n * 10 ^ nat (- p) div (d * 10 ^ nat p))}"
    by (auto simp: digits_of_length_def Let_def split: if_splits)
  show "\<bar>p\<bar> \<le> 341" using log10_floor_size [OF assms(2), of d] assms(3) p by auto
  then have k: "nat (- p) \<le> 341" by auto
  have "n * 10 ^ nat (- p) < 2 ^ 1024 * 10 ^ nat (- p)" using assms(2) by simp
  also have "(10 :: nat) ^ nat (- p) \<le> 16 ^ nat (- p)" by (intro power_mono) simp_all
  also have "(16 :: nat) ^ nat (- p) \<le> 16 ^ 341" using k by (intro power_increasing) simp_all
  also have "2 ^ 1024 * (16 :: nat) ^ 341 = 2 ^ (1024 + 4 * 341)"
    by (simp only: power_add power_mult) simp
  finally have "n * 10 ^ nat (- p) < 2 ^ 2388" by simp
  moreover have "m \<le> Suc (n * 10 ^ nat (- p))"
  proof -
    have "q div r \<le> Suc q" "round_half_even q r \<le> Suc q" "Suc (q div r) \<le> Suc q" for q r
      using round_half_even_le [of q r] div_le_dividend [of q r] by linarith+
    with m show ?thesis by auto
  qed
  ultimately have "m < 2 ^ (3 * 797)" by (simp add: Suc_le_eq order.strict_trans1)
  from length_format_bits [OF this] show "length (format_nat m) \<le> 797" by simp
qed

lemma shortest_digits_size:
  assumes "f64_exponent x \<noteq> 2047" "shortest_digits x = (m, p)"
  shows "length (format_nat m) \<le> 1416" "\<bar>len (format_nat m) + p\<bar> \<le> 1416"
proof -
  obtain n j where x: "float_fraction x = (n, 2 ^ j)" "n < 2 ^ 1024" "j \<le> 1074"
    using float_fraction_size [OF assms(1)] .
  have "length (format_nat m) \<le> 1416 \<and> \<bar>len (format_nat m) + p\<bar> \<le> 1416"
  proof (cases "first_some (map (digits_of_length (magnitude_bits x) n (2 ^ j)) [1..<18])")
    case None
    then have mp: "m = n * 5 ^ j" "p = - int j"
      using assms(2) x(1) by (simp_all add: shortest_digits_def bit_length_power)
    have "n * 5 ^ j < 2 ^ 1024 * 5 ^ j" using x(2) by simp
    also have "(5 :: nat) ^ j \<le> 8 ^ j" by (intro power_mono) simp_all
    also have "(8 :: nat) ^ j \<le> 8 ^ 1074" using x(3) by (intro power_increasing) simp_all
    also have "2 ^ 1024 * (8 :: nat) ^ 1074 = 2 ^ (1024 + 3 * 1074)"
      by (simp only: power_add power_mult) simp
    finally have "m < 2 ^ (3 * 1416)" by (simp add: mp(1) order.strict_trans2)
    from length_format_bits [OF this] have "length (format_nat m) \<le> 1416" by simp
    then show ?thesis using x(3) mp(2) by auto
  next
    case (Some mp)
    obtain m0 p0 where mp: "mp = (m0, p0)" by fastforce
    from first_some_Some [OF Some] obtain c where
      "digits_of_length (magnitude_bits x) n (2 ^ j) c = Some (m0, p0)" "c < 18" by (auto simp: mp)
    from digits_of_length_size [OF this(1) x(2) this(2)] have
      size: "length (format_nat m0) \<le> 797" "\<bar>p0\<bar> \<le> 341" .
    have "(m, p) = strip_zeros m0 p0" using assms(2) x(1) Some by (simp add: shortest_digits_def mp)
    with strip_zeros_point [of m0 p0] have
      "len (format_nat m) + p = len (format_nat m0) + p0" "length (format_nat m) \<le> length (format_nat m0)"
      by (metis fst_conv snd_conv)+
    with size show ?thesis by auto
  qed
  then show "length (format_nat m) \<le> 1416" "\<bar>len (format_nat m) + p\<bar> \<le> 1416" by simp_all
qed

lemma length_json_float:
  assumes "f64_exponent x \<noteq> 2047"
  shows "length (json_float x) \<le> 3000"
proof -
  obtain m p where mp: "shortest_digits x = (m, p)" by fastforce
  note size = shortest_digits_size [OF assms mp]
  define point where "point = len (format_nat m) + p"
  have "length (fixed_notation (format_nat m) point) \<le> 2900"
    using size by (auto simp: fixed_notation_def point_def)
  moreover have "nat (point - 1) < 10 ^ 4" "nat (1 - point) < 10 ^ 4" using size(2) by (simp_all add: point_def)
  then have "length (format_nat (nat (point - 1))) \<le> 4" "length (format_nat (nat (1 - point))) \<le> 4"
    using length_format_nat [of _ 4] by fastforce+
  then have "length (exponent_notation (format_nat m) point) \<le> 2900"
    using size(1) by (simp add: exponent_notation_def)
  ultimately show ?thesis
    by (simp add: json_float_def mp Let_def flip: point_def)
qed

section \<open>The room of a value\<close>

fun room :: "gotype \<Rightarrow> goval \<Rightarrow> nat"
  and room_elements :: "gotype \<Rightarrow> goval list \<Rightarrow> nat"
  and room_fields :: "(string \<times> gotype) list \<Rightarrow> goval list \<Rightarrow> nat"
  and room_entries :: "gotype \<Rightarrow> (string \<times> goval) list \<Rightarrow> nat"
where
  "room GString v = 6 * length (as_string v) + 2"
| "room GBool v = 5"
| "room GInt v = 20"
| "room GUint v = 20"
| "room GFloat v = 3000"
| "room GBytes v = (case v of VBytes (Some bs) hidden \<Rightarrow> 6 * length (base64 bs) + 2 | _ \<Rightarrow> 4)"
| "room (GPtr t) v = (case v of VPtr (Some w) \<Rightarrow> room t w | _ \<Rightarrow> 4)"
| "room (GSlice t) v = (case v of VSlice (Some vs) hidden \<Rightarrow> 2 + room_elements t vs | _ \<Rightarrow> 4)"
| "room (GMap t) v = (case v of VMap (Some es) \<Rightarrow> 2 + room_entries t es | _ \<Rightarrow> 4)"
| "room (GStruct fs) v = 2 + room_fields fs (fields_of v)"
| "room_elements t [] = 0"
| "room_elements t (v # vs) = room t v + 1 + room_elements t vs"
| "room_fields ((tag, t) # fs) (v # vs) = 6 * length (field_name tag) + room t v + 4 + room_fields fs vs"
| "room_fields fs vs = 0"
| "room_entries t [] = 0"
| "room_entries t ((k, v) # es) = 6 * length k + room t v + 4 + room_entries t es"

lemma sum_by_key: "(\<Sum>m \<leftarrow> by_key ms. f m) = (\<Sum>m \<leftarrow> ms. (f m :: nat))"
proof -
  have "(\<Sum>m \<leftarrow> insort_key k x xs. f m) = f x + (\<Sum>m \<leftarrow> xs. f m)" for k :: "_ \<Rightarrow> nat list" and x xs
    by (induction xs) simp_all
  then have "(\<Sum>m \<leftarrow> sort_key k ms. f m) = (\<Sum>m \<leftarrow> ms. f m)" for k :: "_ \<Rightarrow> nat list" by (induction ms) simp_all
  then show ?thesis by (simp add: by_key_def)
qed

lemma print_json_room:
  "tree t v = Some j \<Longrightarrow> length (print_json j) \<le> room t v"
  "tree_elements t vs = Some js \<Longrightarrow> (\<Sum>j \<leftarrow> js. length (print_json j) + 1) \<le> room_elements t vs"
  "tree_fields fs ws = Some ms \<Longrightarrow>
    (\<Sum>m \<leftarrow> ms. 6 * length (fst m) + length (print_json (snd m)) + 4) \<le> room_fields fs ws"
  "tree_entries t es = Some ns \<Longrightarrow>
    (\<Sum>m \<leftarrow> ns. 6 * length (fst m) + length (print_json (snd m)) + 4) \<le> room_entries t es"
proof (induction t v and t vs and fs ws and t es arbitrary: j and js and ms and ns
    rule: tree_tree_elements_tree_fields_tree_entries.induct)
  case (1 v)
  then show ?case using length_print_string [of "as_string v"] by auto
next
  case (5 v)
  then show ?case using length_json_float [of "as_float v"] by (auto simp: IsNaN_def IsInf_def split: if_splits)
next
  case (6 v)
  then show ?case using length_print_string by (auto split: goval.splits option.splits)
next
  case (8 t v)
  then show ?case by (auto split: goval.splits option.splits intro!: order_trans [OF length_print_elements])
next
  case (9 t v)
  then show ?case
    by (auto simp: sum_by_key split: goval.splits option.splits intro!: order_trans [OF length_print_members])
next
  case (10 fs v)
  then show ?case by (auto intro!: order_trans [OF length_print_members])
qed (auto simp: length_FormatInt length_format_word split: option.splits if_splits goval.splits)

end
