(* ===== verification/HostSize.thy ===== *)
theory HostSize
  imports JsonSize ReportTexts
begin

text \<open>
  The size of the telemetry sample on the wire: the limits of the fields that
  \<open>ValidateHostObservation\<close> of \<open>protocol/validate.go\<close> enforces keep the encoded sample below
  \<open>MaxHostObservationBytes\<close> of \<open>protocol/limits.go\<close>, section by section. A string of a
  bounded length may be escaped to six times it.
\<close>

section \<open>Pointers and slices\<close>

declare room.simps(7,8,10) [simp del]

lemma room_pointer:
  "(\<And>x. p = Some x \<Longrightarrow> room t (f x) \<le> B) \<Longrightarrow> 4 \<le> B \<Longrightarrow> room (GPtr t) (of_pointer f p) \<le> B"
  by (cases p) (simp_all add: room.simps(7) of_pointer_def)

lemma room_counter: "room (GPtr GUint) (of_pointer VUint p) \<le> 20"
  by (rule room_pointer) simp_all

lemma room_elements_bound:
  "(\<And>x. x \<in> set vs \<Longrightarrow> room t x \<le> B) \<Longrightarrow> room_elements t vs \<le> length vs * (B + 1)"
proof (induction vs)
  case (Cons v vs)
  then have "room t v \<le> B" "room_elements t vs \<le> length vs * (B + 1)" by simp_all
  then show ?case by simp
qed simp

lemma room_slice:
  assumes "\<And>x. x \<in> set xs \<Longrightarrow> room t (f x) \<le> B" "length xs \<le> n"
  shows "room (GSlice t) (of_slice nil f xs) \<le> 4 + n * (B + 1)"
proof -
  have "room_elements t (map f xs) \<le> length (map f xs) * (B + 1)"
    using assms(1) by (intro room_elements_bound) auto
  also have "\<dots> \<le> n * (B + 1)" using assms(2) by (intro mult_le_mono) simp_all
  finally show ?thesis by (simp add: room.simps(8) of_slice_def)
qed

lemma text_ok_length: "text_ok s m req \<Longrightarrow> length s \<le> m"
  by (auto simp: room.simps(10) text_ok_def)

section \<open>The sections of a sample\<close>

lemma HostScope_room:
  "scope_ok x \<Longrightarrow> room (GStruct HostScope_fields) (write_HostScope x) \<le> 584"
  by (auto simp: room.simps(10) HostScope_fields_def write_HostScope_def fields_of_def field_name_def
      scope_ok_def readers dest!: text_ok_length)

lemma PlatformObservation_room:
  "platform_ok x \<Longrightarrow> room (GStruct PlatformObservation_fields) (write_PlatformObservation x) \<le> 2510"
  by (auto simp: room.simps(10) PlatformObservation_fields_def write_PlatformObservation_def fields_of_def
      field_name_def platform_ok_def readers dest!: text_ok_length)

lemma SystemCPUObservation_room:
  "system_cpu_ok x \<Longrightarrow> room (GStruct SystemCPUObservation_fields) (write_SystemCPUObservation x) \<le> 1070"
  by (auto simp: room.simps(10) SystemCPUObservation_fields_def write_SystemCPUObservation_def
      fields_of_def field_name_def system_cpu_ok_def readers dest!: text_ok_length)

lemma CgroupCPUObservation_room:
  "cgroup_cpu_ok x \<Longrightarrow> room (GStruct CgroupCPUObservation_fields) (write_CgroupCPUObservation x) \<le> 1604"
  using room_counter [of "gc_UsageUS x"] room_counter [of "gc_UserUS x"] room_counter [of "gc_SystemUS x"]
    room_counter [of "gc_NrPeriods x"] room_counter [of "gc_NrThrottled x"] room_counter [of "gc_ThrottledUS
    x"] room_counter [of "gc_QuotaUS x"] room_counter [of "gc_PeriodUS x"] room_counter [of
    "gc_EffectiveCPUs x"]
  by (auto simp: room.simps(10) CgroupCPUObservation_fields_def write_CgroupCPUObservation_def
      fields_of_def field_name_def cgroup_cpu_ok_def readers dest!: text_ok_length)

lemma CPUObservation_room:
  "cpu_ok x \<Longrightarrow> room (GStruct CPUObservation_fields) (write_CPUObservation x) \<le> 2756"
proof -
  assume ok: "cpu_ok x"
  have "room (GPtr (GStruct SystemCPUObservation_fields)) (of_pointer write_SystemCPUObservation (cpu_System x)) \<le> 1070"
    by (rule room_pointer) (use ok in \<open>auto simp: cpu_ok_def intro: SystemCPUObservation_room\<close>)
  moreover have "room (GPtr (GStruct CgroupCPUObservation_fields)) (of_pointer write_CgroupCPUObservation (cpu_Cgroup x)) \<le> 1604"
    by (rule room_pointer) (use ok in \<open>auto simp: cpu_ok_def intro: CgroupCPUObservation_room\<close>)
  ultimately show ?thesis
    by (simp add: room.simps(10) CPUObservation_fields_def write_CPUObservation_def fields_of_def field_name_def)
qed

lemma LoadObservation_room: "room (GStruct LoadObservation_fields) (write_LoadObservation x) \<le> 9128"
  by (auto simp: room.simps(10) LoadObservation_fields_def write_LoadObservation_def fields_of_def
      field_name_def readers dest!: text_ok_length)

lemma SystemMemoryObservation_room:
  "room (GStruct SystemMemoryObservation_fields) (write_SystemMemoryObservation x) \<le> 440"
  using room_counter [of "sm_AvailableBytes x"]
  by (auto simp: room.simps(10) SystemMemoryObservation_fields_def write_SystemMemoryObservation_def
      fields_of_def field_name_def readers dest!: text_ok_length)

lemma CgroupMemoryObservation_room:
  "cgroup_memory_ok x \<Longrightarrow> room (GStruct CgroupMemoryObservation_fields) (write_CgroupMemoryObservation x) \<le> 1496"
  using room_counter [of "gm_LimitBytes x"] room_counter [of "gm_SwapCurrentBytes x"] room_counter [of
    "gm_SwapLimitBytes x"] room_counter [of "gm_OOMEvents x"] room_counter [of "gm_OOMKillEvents x"]
  by (auto simp: room.simps(10) CgroupMemoryObservation_fields_def write_CgroupMemoryObservation_def
      fields_of_def field_name_def cgroup_memory_ok_def readers dest!: text_ok_length)

lemma MemoryObservation_room:
  "memory_ok x \<Longrightarrow> room (GStruct MemoryObservation_fields) (write_MemoryObservation x) \<le> 2018"
proof -
  assume ok: "memory_ok x"
  have "room (GPtr (GStruct SystemMemoryObservation_fields)) (of_pointer write_SystemMemoryObservation (mem_System x)) \<le> 440"
    by (rule room_pointer) (use ok in \<open>auto simp: memory_ok_def intro: SystemMemoryObservation_room\<close>)
  moreover have "room (GPtr (GStruct CgroupMemoryObservation_fields)) (of_pointer write_CgroupMemoryObservation (mem_Cgroup x)) \<le> 1496"
    by (rule room_pointer) (use ok in \<open>auto simp: memory_ok_def intro: CgroupMemoryObservation_room\<close>)
  ultimately show ?thesis
    by (simp add: room.simps(10) MemoryObservation_fields_def write_MemoryObservation_def fields_of_def field_name_def)
qed

lemma FilesystemObservation_room:
  "room (GStruct FilesystemObservation_fields) (write_FilesystemObservation x) \<le> 485"
  using room_counter [of "fs_TotalInodes x"] room_counter [of "fs_AvailableInodes x"]
  by (auto simp: room.simps(10) FilesystemObservation_fields_def write_FilesystemObservation_def
      fields_of_def field_name_def readers dest!: text_ok_length)

lemma NetworkInterfaceObservation_room:
  "interface_ok x \<Longrightarrow> room (GStruct NetworkInterfaceObservation_fields) (write_NetworkInterfaceObservation x) \<le> 1475"
  using room_counter [of "ni_LinkSpeedMbps x"]
  by (auto simp: room.simps(10) NetworkInterfaceObservation_fields_def
      write_NetworkInterfaceObservation_def fields_of_def field_name_def interface_ok_def readers dest!:
      text_ok_length)

lemma NetworkObservation_room:
  "network_ok x \<Longrightarrow> room (GStruct NetworkObservation_fields) (write_NetworkObservation nil x) \<le> 49198"
proof -
  assume ok: "network_ok x"
  have "room (GSlice (GStruct NetworkInterfaceObservation_fields))
      (of_slice (nil ''interfaces'') write_NetworkInterfaceObservation (nw_Interfaces x)) \<le> 4 + 32 * (1475 + 1)"
    using ok by (intro room_slice NetworkInterfaceObservation_room) (auto simp: network_ok_def list_all_iff)
  moreover have "length (nw_CounterEpoch x) \<le> 128" "length (nw_DefaultIPv4Interface x) \<le> 64"
    "length (nw_DefaultIPv6Interface x) \<le> 64"
    using ok by (auto simp: room.simps(10) network_ok_def dest: text_ok_length)
  ultimately show ?thesis
    by (simp add: room.simps(10) NetworkObservation_fields_def write_NetworkObservation_def fields_of_def
        field_name_def readers)
qed

lemma TCPObservation_room:
  "tcp_ok x \<Longrightarrow> room (GStruct TCPObservation_fields) (write_TCPObservation x) \<le> 1694"
  by (auto simp: room.simps(10) TCPObservation_fields_def write_TCPObservation_def fields_of_def
      field_name_def tcp_ok_def readers dest!: text_ok_length)

lemma SocketObservation_room: "room (GStruct SocketObservation_fields) (write_SocketObservation x) \<le> 596"
  using room_counter [of "sk_ConntrackCurrent x"] room_counter [of "sk_ConntrackLimit x"]
  by (auto simp: room.simps(10) SocketObservation_fields_def write_SocketObservation_def fields_of_def
      field_name_def readers dest!: text_ok_length)

lemma ProcessMetrics_room:
  "process_ok x \<Longrightarrow> room (GStruct ProcessMetrics_fields) (write_ProcessMetrics x) \<le> 1490"
  using room_counter [of "pm_CPUTime x"] room_counter [of "pm_CPUTimeUnitsPerSecond x"] room_counter [of
    "pm_FDLimit x"]
  by (auto simp: room.simps(10) ProcessMetrics_fields_def write_ProcessMetrics_def fields_of_def
      field_name_def process_ok_def readers dest!: text_ok_length)

lemma ProcessObservation_room:
  "processes_ok x \<Longrightarrow> room (GStruct ProcessObservation_fields) (write_ProcessObservation x) \<le> 3044"
proof -
  assume ok: "processes_ok x"
  have "room (GStruct ProcessMetrics_fields) (write_ProcessMetrics (po_Agent x)) \<le> 1490"
    by (rule ProcessMetrics_room) (use ok in \<open>simp add: processes_ok_def\<close>)
  moreover have "room (GPtr (GStruct ProcessMetrics_fields)) (of_pointer write_ProcessMetrics (po_Core x)) \<le> 1490"
    by (rule room_pointer) (use ok in \<open>auto simp: processes_ok_def intro: ProcessMetrics_room\<close>)
  ultimately show ?thesis
    by (simp add: room.simps(10) ProcessObservation_fields_def write_ProcessObservation_def fields_of_def field_name_def)
qed

lemma RuntimeObservation_room:
  "room (GStruct RuntimeObservation_fields) (write_RuntimeObservation x) \<le> 1976"
  using room_counter [of "rt_CoreUnexpectedExitCount x"] room_counter [of "rt_LastRoundTripMS x"]
    room_counter [of "rt_LastRequestBytes x"] room_counter [of "rt_LastResponseBytes x"]
  by (auto simp: room.simps(10) RuntimeObservation_fields_def write_RuntimeObservation_def fields_of_def
      field_name_def readers dest!: text_ok_length)

lemma TuningObservation_room:
  "tuning_ok x \<Longrightarrow> room (GStruct TuningObservation_fields) (write_TuningObservation x) \<le> 7102"
proof -
  assume ok: "tuning_ok x"
  have "room (GSlice GString) (of_slice True VString (tu_TCPAvailableCongestionControls x)) \<le> 4 + 32 * (194 + 1)"
    using ok by (intro room_slice) (auto simp: tuning_ok_def kernel_name_ok_def list_all_iff readers)
  moreover have "length (tu_TCPDefaultCongestionControl x) \<le> 32" "length (tu_DefaultQdisc x) \<le> 32"
    using ok by (auto simp: room.simps(10) tuning_ok_def kernel_name_ok_def)
  ultimately show ?thesis
    by (simp add: room.simps(10) TuningObservation_fields_def write_TuningObservation_def fields_of_def
        field_name_def readers)
qed

text \<open>The whole sample.\<close>

lemma HostObservation_room:
  "host_ok x \<Longrightarrow> room (GStruct HostObservation_fields) (write_HostObservation nil x) \<le> 94925"
proof -
  assume "host_ok x"
  note ok = this [unfolded host_ok_def]
  have "room (GStruct HostScope_fields) (write_HostScope (ho_Scope x)) \<le> 584"
    by (rule HostScope_room) (use ok in simp)
  moreover have "room (GStruct PlatformObservation_fields) (write_PlatformObservation (ho_Platform x)) \<le> 2510"
    by (rule PlatformObservation_room) (use ok in simp)
  moreover have "room (GPtr (GStruct CPUObservation_fields)) (of_pointer write_CPUObservation (ho_CPU x)) \<le> 2756"
    by (rule room_pointer) (use ok in \<open>auto intro: CPUObservation_room\<close>)
  moreover have "room (GPtr (GStruct LoadObservation_fields)) (of_pointer write_LoadObservation (ho_Load x)) \<le> 9128"
    by (rule room_pointer) (use ok in \<open>auto intro: LoadObservation_room\<close>)
  moreover have "room (GPtr (GStruct MemoryObservation_fields)) (of_pointer write_MemoryObservation (ho_Memory x)) \<le> 2018"
    by (rule room_pointer) (use ok in \<open>auto intro: MemoryObservation_room\<close>)
  moreover have "room (GPtr (GStruct FilesystemObservation_fields)) (of_pointer write_FilesystemObservation (ho_Filesystem x)) \<le> 485"
    by (rule room_pointer) (use ok in \<open>auto intro: FilesystemObservation_room\<close>)
  moreover have "room (GPtr (GStruct NetworkObservation_fields)) (of_pointer (write_NetworkObservation nil) (ho_Network x)) \<le> 49198"
    by (rule room_pointer) (use ok in \<open>auto intro: NetworkObservation_room\<close>)
  moreover have "room (GPtr (GStruct TCPObservation_fields)) (of_pointer write_TCPObservation (ho_TCP x)) \<le> 1694"
    by (rule room_pointer) (use ok in \<open>auto intro: TCPObservation_room\<close>)
  moreover have "room (GPtr (GStruct SocketObservation_fields)) (of_pointer write_SocketObservation (ho_Sockets x)) \<le> 596"
    by (rule room_pointer) (use ok in \<open>auto intro: SocketObservation_room\<close>)
  moreover have "room (GPtr (GStruct ProcessObservation_fields)) (of_pointer write_ProcessObservation (ho_Processes x)) \<le> 3044"
    by (rule room_pointer) (use ok in \<open>auto intro: ProcessObservation_room\<close>)
  moreover have "room (GPtr (GStruct RuntimeObservation_fields)) (of_pointer write_RuntimeObservation (ho_Runtime x)) \<le> 1976"
    by (rule room_pointer) (use ok in \<open>auto intro: RuntimeObservation_room\<close>)
  moreover have "room (GPtr (GStruct TuningObservation_fields)) (of_pointer write_TuningObservation (ho_Tuning x)) \<le> 7102"
    by (rule room_pointer) (use ok in \<open>auto intro: TuningObservation_room\<close>)
  moreover have "room (GSlice GString) (of_slice True VString (ho_Unavailable x)) \<le> 4 + 32 * (386 + 1)"
    using ok by (intro room_slice) (auto simp: unavailable_ok_def list_all_iff readers)
  moreover have "length (ho_SampleID x) = 32" "length (ho_BootID x) \<le> 64"
    using ok by (auto simp: identity_ok_def dest: text_ok_length)
  ultimately show ?thesis
    by (simp add: room.simps(10) HostObservation_fields_def write_HostObservation_def fields_of_def
        field_name_def readers)
qed

section \<open>Properties\<close>

text \<open>
  C31. A conforming sample fits: whatever \<open>ValidateHostObservation\<close> accepts, \<open>json.Marshal\<close>
  gives a text for it, and the text is shorter than \<open>MaxHostObservationBytes\<close> by more than a
  quarter, even if every byte of every string has to be escaped. So the size limit on the
  encoded sample never refuses one that is valid.
\<close>

theorem accepted_sample_fits:
  assumes "ValidateHostObservation h = None"
  shows "\<exists>s. Marshal (GStruct HostObservation_fields) (write_HostObservation nil h) = Some s \<and>
    4 * length s < 3 * MaxHostObservationBytes"
proof -
  have ok: "host_ok h" using assms by (simp add: ValidateHostObservation_iff)
  have "tree (GStruct HostObservation_fields) (write_HostObservation nil h) \<noteq> None"
    using tree_exists_iff [OF HostObservation.settles [OF TrueI]] accepted_host_doubles [OF ok] by blast
  then obtain j where j: "tree (GStruct HostObservation_fields) (write_HostObservation nil h) = Some j" by blast
  from print_json_room(1) [OF j] HostObservation_room [OF ok, of nil] have "length (print_json j) \<le> 94925" by simp
  then show ?thesis using j by (simp add: Marshal_def MaxHostObservationBytes_def del: tree.simps)
qed

theorem accepted_sample_fits_witness:
  "\<exists>s. Marshal (GStruct HostObservation_fields) (write_HostObservation (\<lambda>_. True) sample_host) = Some s \<and>
    length s < 98304"
  using accepted_sample_fits [OF sample_host_ok, of "\<lambda>_. True"] by (auto simp: MaxHostObservationBytes_def)

end
