(* ===== verification/Additive.thy ===== *)
theory Additive
  imports SyncMarshal ReportReceived
begin

text \<open>
  Additive evolution: a peer of a later generation may add members to any struct it sends,
  at any depth, and this generation decodes what it would have decoded without them. This
  is what \<open>protocol/envelope.go\<close> promises for segments and \<open>protocol/host.go\<close> for the sample.
\<close>

section \<open>The known part of a document\<close>

text \<open>
  A document without the members no field of its type claims, at every level at which a
  struct is decoded; what does not have the shape of its type stays as it is.
\<close>

fun known :: "gotype \<Rightarrow> json \<Rightarrow> json"
  and known_elements :: "gotype \<Rightarrow> json list \<Rightarrow> json list"
  and known_members :: "(string \<times> gotype) list \<Rightarrow> (string \<times> json) list \<Rightarrow> (string \<times> json) list"
  and known_entries :: "gotype \<Rightarrow> (string \<times> json) list \<Rightarrow> (string \<times> json) list"
where
  "known (GPtr t) j = known t j"
| "known (GSlice t) j = (case j of JArray js \<Rightarrow> JArray (known_elements t js) | _ \<Rightarrow> j)"
| "known (GStruct fs) j = (case j of JObject ms \<Rightarrow> JObject (known_members fs ms) | _ \<Rightarrow> j)"
| "known (GMap t) j = (case j of JObject ms \<Rightarrow> JObject (known_entries t ms) | _ \<Rightarrow> j)"
| "known t j = j"
| "known_elements t [] = []"
| "known_elements t (j # js) = known t j # known_elements t js"
| "known_members fs [] = []"
| "known_members fs ((k, j) # ms) =
     (case field_index fs k of
        None \<Rightarrow> known_members fs ms
      | Some i \<Rightarrow> (k, known (snd (fs ! i)) j) # known_members fs ms)"
| "known_entries t [] = []"
| "known_entries t ((k, j) # ms) = (k, known t j) # known_entries t ms"

lemma known_null [simp]: "known t j = JNull \<longleftrightarrow> j = JNull"
  by (induction t) (auto split: json.split)

lemma known_elements_empty [simp]: "known_elements t js = [] \<longleftrightarrow> js = []"
  by (cases js) simp_all

lemma store_known:
  "store t v (known t j) = store t v j"
  "store_elements t avail (known_elements t js) = store_elements t avail js"
  "store_members fs vals (known_members fs ms) = store_members fs vals ms"
  "store_entries t es (known_entries t ms) = store_entries t es ms"
proof (induction t v j and t avail js and fs vals ms and t es ms
    rule: store_store_elements_store_members_store_entries.induct)
  case (1 t v j)
  then show ?case by (simp add: store.simps(1))
next
  case (2 t v j)
  then show ?case by (cases j) (simp_all add: store.simps(2))
next
  case (3 fs v j)
  then show ?case by (cases j) (simp_all add: store.simps(3))
next
  case (4 t v j)
  then show ?case by (cases j) (simp_all add: store.simps(4))
next
  case (10 fs vals k j ms)
  then show ?case by (auto split: option.split prod.split)
qed (auto split: prod.split)

section \<open>The two messages\<close>

lemma Unmarshal_known:
  assumes "parse_document s = Some j" "parse_document s' = Some j'" "known t j' = known t j"
  shows "Unmarshal t s' v = Unmarshal t s v"
  using assms(3) store_known(1) [of t v j] store_known(1) [of t v j'] by (simp add: Unmarshal_def assms(1,2))

text \<open>
  An answer of a later panel, with members this agent does not know, in the envelope, a
  segment or a task, decodes as the answer without them.
\<close>

theorem later_answer_is_received:
  assumes "parse_document s = Some j" "parse_document s' = Some j'"
    and "known (GStruct SyncResponse_fields) j' = known (GStruct SyncResponse_fields) j"
  shows "UnmarshalSyncResponse s' = UnmarshalSyncResponse s"
  by (simp only: UnmarshalSyncResponse_def Unmarshal_known [OF assms])

text \<open>
  C17. A report of a later agent is received by this panel: take a report that passes the
  agent's check, with well-formed UTF-8 in the strings no validator looks at (the agent's id
  and version, the core's version and state, the live addresses), what \<open>MarshalJSON\<close> makes of
  it, and any text that is the same document but for members no field of its struct claims,
  at whatever depth. The panel decodes that text to the report, up to the order of the
  streams, and its check accepts it.
\<close>

theorem later_report_is_received:
  assumes "ValidateNodeReport r = None" "distinct (map fst (nr_Have r))" "list_all ValidString (unchecked_texts r)"
    and "MarshalJSON nil r = Some s" "parse_document s = Some j" "parse_document s' = Some j'"
    and "known (GStruct NodeReport_fields) j' = known (GStruct NodeReport_fields) j"
  shows "UnmarshalNodeReport s' = (sorted_have r, True) \<and> ValidateNodeReport (sorted_have r) = None"
proof -
  have "UnmarshalNodeReport s' = UnmarshalNodeReport s"
    by (simp only: UnmarshalNodeReport_def Unmarshal_known [OF assms(5-7)])
  then show ?thesis using accepted_received [OF assms(1-3), of nil] assms(4) by auto
qed

section \<open>Witness\<close>

text \<open>A text with one member more.\<close>

lemma extended_text:
  assumes "Marshal (GStruct fs) v = Some s" "type_depth (GStruct fs) \<le> maxNestingDepth"
  obtains ms s' where "parse_document s = Some (JObject ms)"
    "parse_document s' = Some (JObject (ms @ [(''future'', JBool True)]))"
proof -
  from assms(1) obtain ks where ks: "tree (GStruct fs) v = Some (JObject ks)" "s = print_json (JObject ks)"
    by (auto simp: Marshal_def split: goval.splits option.splits)
  have "printable maxNestingDepth (JObject ks)" by (rule tree_printable(1) [OF ks(1) assms(2)])
  then have "printable maxNestingDepth (JObject (ks @ [(''future'', JBool True)]))" by auto
  from print_json_document [OF this] print_json_document [OF \<open>printable maxNestingDepth (JObject ks)\<close>]
  show thesis by (intro that) (simp_all add: ks(2) to_valid_ascii)
qed

lemma known_members_append [simp]: "known_members fs (ms @ ms') = known_members fs ms @ known_members fs ms'"
  by (induction ms) (auto split: option.split)

lemma future_unknown: "field_index NodeReport_fields ''future'' = None"
proof -
  have "field_index fs k = field_index (map (\<lambda>tag. (tag, GBool)) (map fst fs)) k" for fs k
    by (simp add: field_index_def position_def list_ex_iff takeWhile_map comp_def)
  moreover have "field_index (map (\<lambda>tag. (tag, GBool)) (map fst NodeReport_fields)) ''future'' = None"
    unfolding NodeReport_fields_def list.map fst_conv by code_simp
  ultimately show ?thesis by simp
qed

theorem later_report_is_received_witness:
  "\<exists>s' ms. parse_document s' = Some (JObject (ms @ [(''future'', JBool True)])) \<and>
    UnmarshalNodeReport s' = (sorted_have light_report, True)"
proof -
  note given = light_report_ok light_report_distinct light_report_texts
  obtain s where s: "MarshalJSON (\<lambda>_. False) light_report = Some s"
    using accepted_received [OF given] by blast
  moreover have "nr_Partial light_report" by (simp add: light_report_def)
  ultimately have "Marshal (GStruct omitting_fields) (write_omitting (\<lambda>_. False) (without_enumerations light_report)) = Some s"
    by (simp add: MarshalJSON_partial)
  from extended_text [OF this omitting.depth_bound] obtain ms s' where
    doc: "parse_document s = Some (JObject ms)" "parse_document s' = Some (JObject (ms @ [(''future'', JBool True)]))" .
  moreover have "known (GStruct NodeReport_fields) (JObject (ms @ [(''future'', JBool True)])) =
      known (GStruct NodeReport_fields) (JObject ms)"
    by (simp add: future_unknown)
  ultimately have "UnmarshalNodeReport s' = (sorted_have light_report, True)"
    using later_report_is_received [OF given s] by blast
  with doc(2) show ?thesis by blast
qed

end
