(* ===== verification/Spec2Isabelle.thy ===== *)
theory Spec2Isabelle
  imports Envelope Compatibility Quota Attachment ObjectMachine NodeReports Diagnostics DiagnosticsJson
    ReportReceived TaskBodies HostSize Additive
begin

text \<open>
  This development models the Go package \<open>protocol\<close> (under \<open>src/protocol\<close>), the wire
  contract between a control panel (PSP) and the node agents it configures. Both sides
  link the package, so that what one side sends is what the other accepts. An agent polls
  with a \<open>NodeReport\<close>: what it holds of three streams, how far each object converged,
  traffic counters, issues, task results and, now and then, a telemetry sample. PSP
  answers with a \<open>SyncResponse\<close>: a scheduling envelope, three segments and tasks. The
  package has no I/O of its own: it consists of the data, their validators, and the rules
  both sides must evaluate alike.

  \<^bold>\<open>Theories and the code they model.\<close>

  \<^item> \<^theory_text>\<open>Prelude\<close>: machine integers (64-bit words, read with \<^const>\<open>sint\<close> or \<^const>\<open>unat\<close>), the two
    shapes of Go errors (an optional error, or an error or a value), early return, the
    range loop, and the contracts of the loops of the validators as locales:
    \<open>dedup_loop\<close> (a loop that refuses a repeated key) and \<open>budget_loop\<close> (the same with a
    byte budget). Each is interpreted on the code's own loop bodies, and what the whole
    loop accepts is a fact of the locale.
  \<^item> \<^theory_text>\<open>GoStrings\<close>, \<^theory_text>\<open>GoTime\<close>, \<^theory_text>\<open>GoNetip\<close>, \<^theory_text>\<open>Sha256\<close>: what the package uses of Go's standard
    library: numerals, prefixes, white-space trimming, UTF-8, hexadecimal; instants and
    the saturating \<open>Duration\<close>, RFC 3339; IP addresses, parsed and printed; SHA-256.
  \<^item> \<^theory_text>\<open>Versions\<close> (\<open>version.go\<close>), \<^theory_text>\<open>Limits\<close> (\<open>limits.go\<close>), \<^theory_text>\<open>Keys\<close> (\<open>keys.go\<close>; locale
    \<open>key_space\<close>), \<^theory_text>\<open>Segments\<close> (\<open>segments.go\<close>), \<^theory_text>\<open>Scalars\<close> (the scalar checks at the end
    of \<open>validate.go\<close>).
  \<^item> \<^theory_text>\<open>Tasks\<close> and \<^theory_text>\<open>Envelope\<close> (\<open>envelope.go\<close> and its validators): tasks, results, the
    input digest; the envelope, the two report cadences (locale \<open>report_cadence\<close>) and a
    simulation of the polling agent.
  \<^item> \<^theory_text>\<open>Compatibility\<close> (\<open>compatibility.go\<close>): the judgement of generation and capabilities.
  \<^item> \<^theory_text>\<open>Report\<close>, \<^theory_text>\<open>NodeReports\<close> (\<open>report.go\<close> and the report half of \<open>validate.go\<close>): stream and
    object states, counters, issues; the whole report and its validation.
  \<^item> \<^theory_text>\<open>Host\<close>, \<^theory_text>\<open>HostCheck\<close> (\<open>host.go\<close> and the telemetry half of \<open>validate.go\<close>).
  \<^item> \<^theory_text>\<open>Diagnostics\<close> (\<open>diagnostics.go\<close>): request, result and drop order of the diagnostic.
  \<^item> \<^theory_text>\<open>GoFloat\<close>, \<^theory_text>\<open>Json\<close>, \<^theory_text>\<open>JsonDecoder\<close>, \<^theory_text>\<open>Base64\<close>, \<^theory_text>\<open>JsonUnmarshal\<close>,
    \<^theory_text>\<open>FloatText\<close>, \<^theory_text>\<open>JsonMarshal\<close>, \<^theory_text>\<open>JsonRoundTrip\<close>: what the package uses of
    \<open>encoding/json\<close>, over a datatype of Go types and one of Go values: the grammar and the
    unquoting of strings (locale \<open>value_parser\<close>), the token stream of \<open>json.Decoder\<close>, the
    reflective \<open>json.Unmarshal\<close> and \<open>json.Marshal\<close>, the doubles and their shortest texts,
    and that a marshalled value is unmarshalled again.
  \<^item> \<^theory_text>\<open>JsonCodec\<close> (locale \<open>codec\<close>: a record, its struct's tags, its writer and its reader),
    interpreted on every struct that is sent in \<^theory_text>\<open>HostJson\<close> and \<^theory_text>\<open>HostWire\<close> (\<open>host.go\<close>),
    \<^theory_text>\<open>ReportWire\<close> (\<open>report.go\<close>), \<^theory_text>\<open>SyncWire\<close> (\<open>envelope.go\<close>, \<open>segments.go\<close>) and
    \<^theory_text>\<open>TaskBodies\<close> (the bodies of \<open>upgrade.go\<close> and \<open>diagnostics.go\<close>).
  \<^item> \<^theory_text>\<open>ReportMarshal\<close>, \<^theory_text>\<open>ReportTexts\<close>, \<^theory_text>\<open>ReportReceived\<close>: \<open>NodeReport.MarshalJSON\<close> with its
    two shapes, which strings of a report the validators look at, and what the panel
    receives; \<^theory_text>\<open>SyncMarshal\<close>: what the agent receives; \<^theory_text>\<open>Additive\<close>: messages of a later
    generation, with members this one does not know.
  \<^item> \<^theory_text>\<open>JsonSize\<close>, \<^theory_text>\<open>HostSize\<close>: how long the text of a value can get, and that of a telemetry
    sample.
  \<^item> \<^theory_text>\<open>Upgrade\<close> (\<open>upgrade.go\<close>): the exact decoder of task bodies; \<^theory_text>\<open>DiagnosticsJson\<close>: the
    diagnostic's documents, decoded.
  \<^item> \<^theory_text>\<open>ObjectMachine\<close>, \<^theory_text>\<open>Attachment\<close>, \<^theory_text>\<open>Quota\<close> (\<open>conformance/\<close>): the convergence state
    machine of an object, the ruling on an attachment, the fleet residual.

  \<^bold>\<open>How state and operations correspond.\<close> A struct is a record whose fields carry a prefix
  of the struct's, a pointer that may be \<open>nil\<close> is an option, and a string is its bytes. A
  defined string type with published constants stays a string with those constants, since
  unknown values do arrive. A \<open>map\<close> that is only ranged over and looked up is the list of
  its entries. A \<open>float64\<close> is its bit pattern. A function with early returns is the list
  of its checks in order, of which the first that fails is the error; every error of the
  code is a constructor with the values its message prints. Loops carry the state the
  code carries. In the telemetry validator a dereference of \<open>nil\<close> is an outcome of its own.

  \<^bold>\<open>What the lemmas show.\<close> For every validator, an equivalence with a specification
  predicate (collection \<open>accepts\<close>), which says what is admitted without mentioning the
  order of the checks. For the object machine, that the code refines an abstract machine
  on the four shapes of convergence, that reachable statuses are reportable, that versions
  never roll back and that rejected content cannot go quiet. For the cadences, that the
  predicted period is the one a polling agent shows. For the residual, that it is exact
  or refused. For the exact decoder, that its pass over the tokens is the check of the
  parsed document, that its loop ends, and which texts each body is decoded from. For the
  wire, that every report, answer and task body that is sent comes back: the round trip is
  proved once for all types in \<^theory_text>\<open>JsonRoundTrip\<close>, carried over to records by the locale
  \<open>codec\<close>, and its conditions (well-formed UTF-8, finite doubles) are derived from the
  validators where they check them; that members a struct does not have change nothing, at
  whatever depth they are added; and that a valid telemetry sample stays below
  \<open>MaxHostObservationBytes\<close>, from a bound on the text of each of its sections. Across components: what the conformance rules and a
  worker produce, the validators accept, and what an agent's check accepts, the panel
  receives.

  \<^bold>\<open>Bounds and termination.\<close> All functions are total; the recursions that are not
  structural (trimming, UTF-8, SHA-256 blocks, IPv6 groups, the JSON grammar and the token
  loop) terminate by the length of what is left. The one function with fuel counts the
  rounds of the token loop, and half the length of the input is proved to be enough. Nesting of JSON is
  bounded by the ten thousand levels of Go's scanner. On the 64-bit platforms the products
  run on Go's \<open>int\<close> is 64 bits wide.

  \<^bold>\<open>What is not modelled.\<close> The text of error messages, beyond the values it prints. A
  record's list does not tell a nil slice from an empty one, except for the events of a
  diagnostic, which are an optional list because a nil slice means that they were not asked
  for. Where \<open>json.Marshal\<close> does tell, the writers take a function that says which lists are
  nil, and the statements hold for all such functions. Values of \<open>encoding/json\<close> that no struct of the package has (interfaces,
  embedded structs, arrays, maps with other keys) have no constructor. The test of type
  equivalence under \<open>src/harness\<close> has no logic of the program. Collision resistance of SHA-256 is not assumed:
  the statement on digests has the collision as its other case.
\<close>

section \<open>Properties across components\<close>

text \<open>What a worker answers to a task: the task's identity, copied, and an outcome.\<close>

definition answer :: "Task \<Rightarrow> outcome \<Rightarrow> TaskResult" where
  "answer t out =
     \<lparr>tr_ID = t_ID t, tr_Kind = t_Kind t, tr_InputSHA256 = t_InputSHA256 t, tr_NotAfterMS = t_NotAfterMS t,
      tr_OK = (case out of Succeeded _ \<Rightarrow> True | _ \<Rightarrow> False),
      tr_Indeterminate = (case out of Indeterminate _ _ \<Rightarrow> True | _ \<Rightarrow> False),
      tr_Result = (case out of Succeeded payload \<Rightarrow> payload | _ \<Rightarrow> []),
      tr_ErrorCode = (case out of Succeeded _ \<Rightarrow> [] | Failed code _ \<Rightarrow> code | Indeterminate code _ \<Rightarrow> code),
      tr_Error = (case out of Succeeded _ \<Rightarrow> [] | Failed _ e \<Rightarrow> e | Indeterminate _ e \<Rightarrow> e)\<rparr>"

definition diagnostic_ok :: "string \<Rightarrow> string \<Rightarrow> bool" where
  "diagnostic_ok code e \<longleftrightarrow>
     canonical_token code \<and> length code \<le> 128 \<and> canonical_text e \<and> error_text_ok e"

fun outcome_ok :: "outcome \<Rightarrow> bool" where
  "outcome_ok (Succeeded payload) \<longleftrightarrow> len payload \<le> 2 ^ 20"
| "outcome_ok (Failed code e) \<longleftrightarrow> diagnostic_ok code e"
| "outcome_ok (Indeterminate code e) \<longleftrightarrow> diagnostic_ok code e"

fun payload_size :: "outcome \<Rightarrow> int" where
  "payload_size (Succeeded payload) = len payload"
| "payload_size _ = 0"

lemma answer_outcome: "outcome_ok out \<Longrightarrow> outcome_of (answer t out) = Some out"
  by (cases out) (simp_all add: answer_def outcome_of.simps diagnostic_ok_def)

lemma answer_ok: "task_ok t \<Longrightarrow> outcome_ok out \<Longrightarrow> result_ok (answer t out)"
  using answer_outcome [of out t] ComputeTaskInputSHA256_hex [of "t_Kind t" "t_Args t"]
  by (cases out) (auto simp: result_ok_def task_ok_def answer_def diagnostic_ok_def error_text_ok_def)

lemma answer_fields [simp]: "tr_ID (answer t out) = t_ID t" "len (tr_Result (answer t out)) = payload_size out"
  by (cases out; simp add: answer_def)+

text \<open>
  C13. Every task PSP may send can be answered: for an accepted response, the results a
  worker forms by copying each task's identity and adding a well-formed outcome, within
  the aggregate payload limit, are accepted as a report's results, and the panel reads
  back from each exactly the outcome the worker put in.
\<close>

theorem accepted_tasks_can_be_answered:
  assumes "ValidateTasks ts = None" "list_all (\<lambda>t. outcome_ok (out t)) ts"
    and "sum_list (map (\<lambda>t. payload_size (out t)) ts) \<le> 4 * 2 ^ 20"
  shows "ValidateTaskResults (map (\<lambda>t. answer t (out t)) ts) = None \<and>
    list_all (\<lambda>t. outcome_of (answer t (out t)) = Some (out t)) ts"
  using assms
  by (auto simp: ValidateTasks_iff ValidateTaskResults_iff list_all_iff answer_ok answer_outcome comp_def)

theorem accepted_tasks_can_be_answered_witness:
  "ValidateTaskResults [answer probe_task (Failed ''probe_timeout'' ''timed out'')] = None"
proof -
  have "TrimSpace ''timed out'' = ''timed out''" by code_simp
  then have "outcome_ok (Failed ''probe_timeout'' ''timed out'')"
    by (simp add: diagnostic_ok_def canonical_token_def token_tail_def lower_alpha_def is_digit_def
        canonical_text_def error_text_ok_def)
  with accepted_tasks_can_be_answered [OF probe_task_accepted, of "\<lambda>_. Failed ''probe_timeout'' ''timed out''"]
  show ?thesis by simp
qed

text \<open>
  Dispatch by capability is sound for every task kind PSP can send: the capability
  of an accepted task's kind is one an agent may advertise, different kinds have
  different capabilities, and none of them is mistaken for the capabilities of the
  execution protocol itself.
\<close>

theorem dispatch_capabilities_sound:
  assumes "ValidateTasks ts = None" "t \<in> set ts" "t' \<in> set ts"
  shows "capability_ok (TaskCapability (t_Kind t)) \<and>
    (TaskCapability (t_Kind t) = TaskCapability (t_Kind t') \<longleftrightarrow> t_Kind t = t_Kind t') \<and>
    TaskCapability (t_Kind t) \<noteq> CapabilityTaskExecutionV1 \<and> TaskCapability (t_Kind t) \<noteq> CapabilityTaskExpiryV1"
proof -
  have "task_identity_ok (t_ID t) (t_Kind t)"
    using assms by (auto simp: ValidateTasks_iff list_all_iff task_ok_def)
  then show ?thesis
    by (auto simp: task_identity_ok_def TaskCapability_reserved)
      (auto simp: TaskCapability_def capability_ok_def canonical_token_def token_tail_def lower_alpha_def)
qed

theorem dispatch_capabilities_sound_witness:
  "capability_ok (TaskCapability ''reality_probe.v1'')"
proof -
  have "probe_task \<in> set [probe_task]" by simp
  from dispatch_capabilities_sound [OF probe_task_accepted this this]
  show ?thesis by (simp add: probe_task_def)
qed

text \<open>
  A green light needs bytes: if the etag in an accepted stream state is judged
  converged with the one PSP wants, then the wanted etag is a SHA-256 digest and the agent
  holds a committed version, never the unset one.
\<close>

theorem converged_only_with_committed_version:
  assumes "validateStreamState stream s = None" "Converged (st_ETag s) want"
  shows "sha256_hex want \<and> Committed (st_Applied s) \<and> Newer (st_Applied s) zero_version"
  using assms Committed_Newer_zero by (auto simp: validateStreamState_iff stream_state_ok_def Converged_def)

theorem converged_only_with_committed_version_witness:
  "let digest = replicate 64 (CHR ''a'') in
   Converged digest digest \<and> Newer \<lparr>Epoch = 1, VersionNo = 1\<rparr> zero_version"
proof -
  let ?s = "\<lparr>st_Applied = \<lparr>Epoch = 1, VersionNo = 1\<rparr>, st_ETag = replicate 64 (CHR ''a'')\<rparr>"
  have "validateStreamState ''config'' ?s = None"
    by (simp add: validateStreamState_iff stream_state_ok_def sha256_hex_def Committed_iff list_all_iff lower_hex_def)
  moreover have "Converged (st_ETag ?s) (replicate 64 (CHR ''a''))" by (simp add: Converged_def)
  ultimately show ?thesis
    using converged_only_with_committed_version [of "''config''" ?s "replicate 64 (CHR ''a'')"] by simp
qed

text \<open>The issues an agent raises for the objects whose failure has lasted too long.\<close>

definition timeout_issues :: "ObjectStatus list \<Rightarrow> instant \<Rightarrow> duration \<Rightarrow> Issue list" where
  "timeout_issues objs now timeout =
     concat (map (\<lambda>s. case TimeoutIssue s now timeout of Inr (Some i) \<Rightarrow> [i] | _ \<Rightarrow> []) objs)"

lemma timeout_issues_filter:
  "0 < sint timeout \<Longrightarrow>
    timeout_issues objs now timeout = map timeout_issue (filter (\<lambda>s. overdue s now timeout) objs)"
  by (induction objs) (simp_all add: timeout_issues_def TimeoutIssue_exact)

lemma object_key_stream:
  assumes "object_ok s" "object_ok t" "os_Key s = os_Key t"
  shows "os_Stream s = os_Stream t"
  using assms key_kinds_apart [of "os_Key t"] unfolding object_ok_def object_identity_ok_def by auto

lemma object_keys_distinct:
  assumes "list_all object_ok objs" "distinct (map (\<lambda>s. (os_Stream s, os_Key s)) objs)"
  shows "distinct (map os_Key objs)"
proof -
  let ?pair = "\<lambda>s. (os_Stream s, os_Key s)"
  have pair: "distinct objs" "inj_on ?pair (set objs)" using assms(2) by (simp_all add: distinct_map)
  have "inj_on os_Key (set objs)"
  proof (rule inj_onI)
    fix s t assume st: "s \<in> set objs" "t \<in> set objs" "os_Key s = os_Key t"
    then have "?pair s = ?pair t" using assms(1) object_key_stream [of s t] by (simp add: list_all_iff)
    then show "s = t" using pair(2) st(1,2) by (simp add: inj_on_def)
  qed
  with pair(1) show ?thesis by (simp add: distinct_map)
qed

text \<open>
  C4. What the conformance rules produce, the wire accepts: take an accepted full report
  and replace its objects by any statuses reached through \<open>AdvanceObject\<close> with sound
  evidence, for streams and keys that identify an object, one per object and none still
  fresh, and its issues by those \<open>TimeoutIssue\<close> raises for them with a positive timeout.
  Provided that these issues are at most 256, the bound on a report, it is accepted again.
\<close>

theorem conforming_agent_is_accepted:
  assumes "ValidateNodeReportBase r = None" "\<not> nr_Partial r"
    and "list_all (\<lambda>s. object_identity_ok (os_Stream s) (os_Key s) \<and>
      object_reachable (os_Stream s) (os_Key s) s \<and> s \<noteq> new_object (os_Stream s) (os_Key s)) objs"
    and "distinct (map (\<lambda>s. (os_Stream s, os_Key s)) objs)" "0 < sint timeout"
    and "length (timeout_issues objs now timeout) \<le> 256"
  shows "ValidateNodeReportBase (r\<lparr>nr_Objects := objs, nr_Issues := timeout_issues objs now timeout\<rparr>) = None"
proof -
  have ok: "list_all object_ok objs" using assms(3) reachable_ok by (auto simp: list_all_iff)
  let ?due = "filter (\<lambda>s. overdue s now timeout) objs"
  have keys: "distinct (map os_Key ?due)"
    using object_keys_distinct [OF ok assms(4)] by (auto simp: distinct_map intro: inj_on_subset)
  have eq: "map i_Key (map timeout_issue ?due) = map os_Key ?due" by (simp add: timeout_issue_def)
  have "distinct (map i_Key (map timeout_issue ?due))" unfolding eq by (rule keys)
  then have "distinct (map timeout_issue ?due)" by (simp only: distinct_map)
  moreover have "list_all issue_ok (map timeout_issue ?due)"
    using ok timeout_issue_ok by (auto simp: list_all_iff overdue_def)
  moreover have "length ?due \<le> 256" using assms(6) by (simp add: timeout_issues_filter [OF assms(5)])
  ultimately show ?thesis
    using assms(1,2,4) ok
    by (simp add: ValidateNodeReportBase_iff base_ok_def outbox_ok_def enumerations_ok_def
        timeout_issues_filter [OF assms(5)])
qed

definition pending_listener :: ObjectStatus where
  "pending_listener = \<lparr>os_Stream = ''config'', os_Key = listener_key_string (NewListenerKey 7),
     os_State = ''pending'', os_SinceVersion = \<lparr>Epoch = 1, VersionNo = 3\<rparr>,
     os_FirstFailedAtMS = 6000, os_IssueCode = [], os_BlockedOn = []\<rparr>"

lemma pending_listener_reachable:
  "object_reachable (os_Stream pending_listener) (os_Key pending_listener) pending_listener"
proof -
  let ?tr = "\<lparr>tn_Event = EventAccepted, tn_Version = \<lparr>Epoch = 1, VersionNo = 3\<rparr>, tn_AtMS = 6000,
      tn_IssueCode = [], tn_BlockedOn = []\<rparr>"
  have "AdvanceObject (new_object (os_Stream pending_listener) (os_Key pending_listener)) ?tr =
      (pending_listener, None)"
    by (simp add: AdvanceObject_arms acceptVersion_def Committed_iff Zero_def new_object_def zero_version_def
        pending_listener_def object_states)
  moreover have "evidence_ok ?tr" by (simp add: evidence_ok_def object_events)
  ultimately show ?thesis
    by (intro object_reachable.advance [OF object_reachable.fresh object_step.intros])
qed

theorem conforming_agent_is_accepted_witness:
  "ValidateNodeReportBase (sample_report\<lparr>nr_Objects := [pending_listener],
     nr_Issues := timeout_issues [pending_listener] 70000000000 60000000000\<rparr>) = None"
proof -
  have "object_identity_ok (os_Stream pending_listener) (os_Key pending_listener)"
    "pending_listener \<noteq> new_object (os_Stream pending_listener) (os_Key pending_listener)"
    by (simp_all add: pending_listener_def object_identity_ok_def StreamConfig_def minted_keys_ok new_object_def)
  with pending_listener_reachable show ?thesis
    by (intro conforming_agent_is_accepted [OF sample_report_ok])
      (simp_all add: sample_report_def timeout_issues_filter)
qed

end
